theory Spec2Isabelle
  imports Complex_Main
begin

text \<open>
  The gate course and the score system of the drone game: the classes \<^verbatim>\<open>ScoreSystem\<close>
  (\<^verbatim>\<open>src/game/gameplay/ScoreSystem.ts\<close>) and \<^verbatim>\<open>GateCourse\<close>
  (\<^verbatim>\<open>src/game/gameplay/GateCourse.ts\<close>) as functions on records of their fields.
  A method that writes fields returns the updated record; the calls the course makes on
  its score system are returned as a list and folded over the score system's state.
\<close>

section \<open>JavaScript numbers\<close>

text \<open>
  A TypeScript \<^verbatim>\<open>number\<close> is an IEEE 754 double: a finite value, or one of
  \<^verbatim>\<open>Infinity\<close>, \<^verbatim>\<open>-Infinity\<close> and \<^verbatim>\<open>NaN\<close>. A finite value is held as the real
  number it denotes. The arithmetic operations compute the exact real result and round
  it to the nearest double, ties to the even significand, as IEEE 754 prescribes; a
  result that rounds to \<open>2^1024\<close> or beyond in magnitude overflows to an infinity.
  \<^verbatim>\<open>NaN\<close> is contagious, every comparison with \<^verbatim>\<open>NaN\<close> is false,
  \<^verbatim>\<open>Infinity - Infinity\<close> and \<^verbatim>\<open>0 * Infinity\<close> are \<^verbatim>\<open>NaN\<close>. The sign of zero is
  not modelled.
\<close>

datatype jsnum = Fin real | PInf | NInf | NaN

text \<open>Rounding of a real to the nearest integer, a tie to the even one.\<close>

definition roundEven :: "real \<Rightarrow> int" where
  "roundEven x =
     (if x - of_int \<lfloor>x\<rfloor> < 1 / 2 then \<lfloor>x\<rfloor>
      else if 1 / 2 < x - of_int \<lfloor>x\<rfloor> then \<lfloor>x\<rfloor> + 1
      else if even \<lfloor>x\<rfloor> then \<lfloor>x\<rfloor> else \<lfloor>x\<rfloor> + 1)"

text \<open>
  The doubles around a real \<open>x\<close> with \<open>2^e \<le> |x| < 2^(e+1)\<close> are the multiples of
  \<open>2^(e-52)\<close>; below \<open>2^-1022\<close> (the subnormal range) they are the multiples of
  \<open>2^-1074\<close>.
\<close>

definition binade :: "real \<Rightarrow> int" where
  "binade x = max \<lfloor>log 2 \<bar>x\<bar>\<rfloor> (- 1022)"

definition spacing :: "real \<Rightarrow> real" where
  "spacing x = 2 powr (of_int (binade x) - 52)"

definition roundReal :: "real \<Rightarrow> real" where
  "roundReal x = of_int (roundEven (x / spacing x)) * spacing x"

text \<open>The double a real result is rounded to, with overflow.\<close>

definition overflowAt :: real where
  "overflowAt = 2 ^ 1024"

definition rd :: "real \<Rightarrow> jsnum" where
  "rd x =
     (if overflowAt \<le> roundReal x then PInf
      else if roundReal x \<le> - overflowAt then NInf
      else Fin (roundReal x))"

text \<open>
  The value of a decimal literal of the source: the double nearest to it. Literals that
  are integers or small dyadic fractions (\<^verbatim>\<open>0.5\<close>, \<^verbatim>\<open>1.25\<close>, \<^verbatim>\<open>10.5\<close>) denote
  themselves and are written with \<open>Fin\<close>.
\<close>

definition num :: "real \<Rightarrow> jsnum" where
  "num x = rd x"

text \<open>\<^verbatim>\<open>Number.MAX_VALUE\<close>, the largest finite double.\<close>

definition MAX_VALUE :: real where
  "MAX_VALUE = 2 ^ 1024 - 2 ^ 971"

instantiation jsnum :: "{plus, minus, uminus, times, inverse, ord}"
begin

fun plus_jsnum :: "jsnum \<Rightarrow> jsnum \<Rightarrow> jsnum" where
  "plus_jsnum (Fin a) (Fin b) = rd (a + b)"
| "plus_jsnum NaN _ = NaN"
| "plus_jsnum _ NaN = NaN"
| "plus_jsnum PInf NInf = NaN"
| "plus_jsnum NInf PInf = NaN"
| "plus_jsnum PInf _ = PInf"
| "plus_jsnum _ PInf = PInf"
| "plus_jsnum NInf _ = NInf"
| "plus_jsnum _ NInf = NInf"

fun uminus_jsnum :: "jsnum \<Rightarrow> jsnum" where
  "uminus_jsnum (Fin a) = Fin (- a)"
| "uminus_jsnum PInf = NInf"
| "uminus_jsnum NInf = PInf"
| "uminus_jsnum NaN = NaN"

fun minus_jsnum :: "jsnum \<Rightarrow> jsnum \<Rightarrow> jsnum" where
  "minus_jsnum (Fin a) (Fin b) = rd (a - b)"
| "minus_jsnum NaN _ = NaN"
| "minus_jsnum _ NaN = NaN"
| "minus_jsnum PInf PInf = NaN"
| "minus_jsnum NInf NInf = NaN"
| "minus_jsnum PInf _ = PInf"
| "minus_jsnum _ NInf = PInf"
| "minus_jsnum NInf _ = NInf"
| "minus_jsnum _ PInf = NInf"

fun times_jsnum :: "jsnum \<Rightarrow> jsnum \<Rightarrow> jsnum" where
  "times_jsnum (Fin a) (Fin b) = rd (a * b)"
| "times_jsnum NaN _ = NaN"
| "times_jsnum _ NaN = NaN"
| "times_jsnum PInf (Fin b) = (if b = 0 then NaN else if 0 < b then PInf else NInf)"
| "times_jsnum NInf (Fin b) = (if b = 0 then NaN else if 0 < b then NInf else PInf)"
| "times_jsnum (Fin a) PInf = (if a = 0 then NaN else if 0 < a then PInf else NInf)"
| "times_jsnum (Fin a) NInf = (if a = 0 then NaN else if 0 < a then NInf else PInf)"
| "times_jsnum PInf PInf = PInf"
| "times_jsnum NInf NInf = PInf"
| "times_jsnum PInf NInf = NInf"
| "times_jsnum NInf PInf = NInf"

text \<open>
  Division: a zero divisor is taken as \<^verbatim>\<open>+0\<close>. No division of the program has a zero
  divisor: the divisors are non-zero constants, or a vector length that
  \<^verbatim>\<open>normalize\<close> replaces by 1 when it is zero.
\<close>

fun divide_jsnum :: "jsnum \<Rightarrow> jsnum \<Rightarrow> jsnum" where
  "divide_jsnum (Fin a) (Fin b) =
     (if b = 0 then (if a = 0 then NaN else if 0 < a then PInf else NInf) else rd (a / b))"
| "divide_jsnum NaN _ = NaN"
| "divide_jsnum _ NaN = NaN"
| "divide_jsnum (Fin a) PInf = Fin 0"
| "divide_jsnum (Fin a) NInf = Fin 0"
| "divide_jsnum PInf (Fin b) = (if 0 \<le> b then PInf else NInf)"
| "divide_jsnum NInf (Fin b) = (if 0 \<le> b then NInf else PInf)"
| "divide_jsnum PInf _ = NaN"
| "divide_jsnum NInf _ = NaN"

fun inverse_jsnum :: "jsnum \<Rightarrow> jsnum" where
  "inverse_jsnum (Fin a) = (if a = 0 then PInf else rd (1 / a))"
| "inverse_jsnum PInf = Fin 0"
| "inverse_jsnum NInf = Fin 0"
| "inverse_jsnum NaN = NaN"

fun less_jsnum :: "jsnum \<Rightarrow> jsnum \<Rightarrow> bool" where
  "less_jsnum (Fin a) (Fin b) = (a < b)"
| "less_jsnum NaN _ = False"
| "less_jsnum _ NaN = False"
| "less_jsnum NInf NInf = False"
| "less_jsnum NInf _ = True"
| "less_jsnum _ NInf = False"
| "less_jsnum PInf _ = False"
| "less_jsnum _ PInf = True"

fun less_eq_jsnum :: "jsnum \<Rightarrow> jsnum \<Rightarrow> bool" where
  "less_eq_jsnum (Fin a) (Fin b) = (a \<le> b)"
| "less_eq_jsnum NaN _ = False"
| "less_eq_jsnum _ NaN = False"
| "less_eq_jsnum NInf _ = True"
| "less_eq_jsnum _ PInf = True"
| "less_eq_jsnum _ NInf = False"
| "less_eq_jsnum PInf _ = False"

instance ..

end

text \<open>\<^verbatim>\<open>a === b\<close> and \<^verbatim>\<open>a !== b\<close> on numbers: \<^verbatim>\<open>NaN\<close> is not equal to itself.\<close>

definition strictEq :: "jsnum \<Rightarrow> jsnum \<Rightarrow> bool" where
  "strictEq a b = (a = b \<and> a \<noteq> NaN)"

text \<open>\<^verbatim>\<open>Number.isFinite\<close>.\<close>

fun isFinite :: "jsnum \<Rightarrow> bool" where
  "isFinite (Fin a) = True"
| "isFinite _ = False"

text \<open>\<^verbatim>\<open>Math.max\<close> and \<^verbatim>\<open>Math.min\<close> of two arguments: \<^verbatim>\<open>NaN\<close> when either is.\<close>

fun Math_max :: "jsnum \<Rightarrow> jsnum \<Rightarrow> jsnum" where
  "Math_max (Fin a) (Fin b) = Fin (max a b)"
| "Math_max NaN _ = NaN"
| "Math_max _ NaN = NaN"
| "Math_max PInf _ = PInf"
| "Math_max _ PInf = PInf"
| "Math_max NInf b = b"
| "Math_max a NInf = a"

fun Math_min :: "jsnum \<Rightarrow> jsnum \<Rightarrow> jsnum" where
  "Math_min (Fin a) (Fin b) = Fin (min a b)"
| "Math_min NaN _ = NaN"
| "Math_min _ NaN = NaN"
| "Math_min NInf _ = NInf"
| "Math_min _ NInf = NInf"
| "Math_min PInf b = b"
| "Math_min a PInf = a"

fun Math_abs :: "jsnum \<Rightarrow> jsnum" where
  "Math_abs (Fin a) = Fin \<bar>a\<bar>"
| "Math_abs PInf = PInf"
| "Math_abs NInf = PInf"
| "Math_abs NaN = NaN"

fun Math_floor :: "jsnum \<Rightarrow> jsnum" where
  "Math_floor (Fin a) = Fin (of_int \<lfloor>a\<rfloor>)"
| "Math_floor x = x"

text \<open>
  \<^verbatim>\<open>Math.floor\<close> and \<^verbatim>\<open>Math.trunc\<close> (toward zero) of a double are doubles: nothing
  is rounded.
\<close>

definition truncInt :: "real \<Rightarrow> int" where
  "truncInt a = (if 0 \<le> a then \<lfloor>a\<rfloor> else \<lceil>a\<rceil>)"

fun Math_trunc :: "jsnum \<Rightarrow> jsnum" where
  "Math_trunc (Fin a) = Fin (of_int (truncInt a))"
| "Math_trunc x = x"

text \<open>
  \<^verbatim>\<open>Math.sqrt\<close> is correctly rounded. ECMAScript leaves the precision of
  \<^verbatim>\<open>Math.exp\<close>, \<^verbatim>\<open>Math.sin\<close>, \<^verbatim>\<open>Math.cos\<close> and \<^verbatim>\<open>Math.atan2\<close> to the
  implementation; they are taken to be correctly rounded too.
\<close>

fun Math_sqrt :: "jsnum \<Rightarrow> jsnum" where
  "Math_sqrt (Fin a) = (if a < 0 then NaN else rd (sqrt a))"
| "Math_sqrt PInf = PInf"
| "Math_sqrt NInf = NaN"
| "Math_sqrt NaN = NaN"

fun Math_exp :: "jsnum \<Rightarrow> jsnum" where
  "Math_exp (Fin a) = rd (exp a)"
| "Math_exp PInf = PInf"
| "Math_exp NInf = Fin 0"
| "Math_exp NaN = NaN"

text \<open>
  \<^verbatim>\<open>total | 0\<close>: the conversion to a signed 32-bit integer. A non-finite number gives 0,
  a finite one is truncated and wrapped modulo \<open>2^32\<close>.
\<close>

fun toInt32 :: "jsnum \<Rightarrow> int" where
  "toInt32 (Fin a) =
     (let m = truncInt a mod 4294967296 in if 2147483648 \<le> m then m - 4294967296 else m)"
| "toInt32 _ = 0"

text \<open>\<^verbatim>\<open>THREE.MathUtils.clamp\<close> and \<^verbatim>\<open>THREE.MathUtils.lerp\<close>, as three.js defines them.\<close>

definition clamp :: "jsnum \<Rightarrow> jsnum \<Rightarrow> jsnum \<Rightarrow> jsnum" where
  "clamp v lo hi = Math_max lo (Math_min hi v)"

definition lerp :: "jsnum \<Rightarrow> jsnum \<Rightarrow> jsnum \<Rightarrow> jsnum" where
  "lerp x y t = (Fin 1 - t) * x + t * y"

section \<open>ScoreSystem\<close>

datatype ScoreAddReason = GATE | CENTER_BONUS | SPEED_BONUS | PENALTY | CRASH

text \<open>
  The private fields of the class. The counters \<^verbatim>\<open>streak\<close> and \<^verbatim>\<open>gatesPassed\<close> only
  ever hold integers (they start at 0 and are incremented or reset), \<^verbatim>\<open>gatesTotal\<close>
  holds the result of a 32-bit conversion.
\<close>

record ScoreSystem =
  score :: jsnum
  displayScore :: jsnum
  combo :: jsnum
  streak :: int
  gatesPassed :: int
  gatesTotal :: int
  lastAdd :: jsnum
  penaltyFlash :: jsnum
  timeSinceScore :: jsnum
  comboLock :: jsnum

definition COMBO_MAX :: jsnum where "COMBO_MAX = Fin 3.0"
definition COMBO_GROW_PER_GATE :: jsnum where "COMBO_GROW_PER_GATE = num 0.12"
definition COMBO_DECAY_PER_SEC :: jsnum where "COMBO_DECAY_PER_SEC = num 0.18"
definition SCORE_SMOOTH :: jsnum where "SCORE_SMOOTH = Fin 10.0"
definition CRASH_BASE :: jsnum where "CRASH_BASE = Fin 120"
definition CRASH_PER_SPEED :: jsnum where "CRASH_PER_SPEED = Fin 22"
definition COMBO_LOCK_SEC :: jsnum where "COMBO_LOCK_SEC = num 0.55"

text \<open>The field initialisers of the class.\<close>

definition newScoreSystem :: ScoreSystem where
  "newScoreSystem =
     \<lparr> score = Fin 0, displayScore = Fin 0, combo = Fin 1.0, streak = 0,
       gatesPassed = 0, gatesTotal = 0, lastAdd = Fin 0, penaltyFlash = Fin 0,
       timeSinceScore = Fin 999, comboLock = Fin 0 \<rparr>"

definition setGateTotal :: "jsnum \<Rightarrow> ScoreSystem \<Rightarrow> ScoreSystem" where
  "setGateTotal tot s = s\<lparr>gatesTotal := max 0 (toInt32 tot)\<rparr>"

text \<open>\<^verbatim>\<open>update(dt)\<close>, called once per frame.\<close>

definition ScoreSystem_update :: "jsnum \<Rightarrow> ScoreSystem \<Rightarrow> ScoreSystem" where
  "ScoreSystem_update dt s =
     (let s1 = s\<lparr>timeSinceScore := timeSinceScore s + dt,
                 comboLock := Math_max (Fin 0) (comboLock s - dt),
                 penaltyFlash := Math_max (Fin 0) (penaltyFlash s - dt * num 2.2)\<rparr>;
          s2 = (if Fin 1.25 < timeSinceScore s1
                then (let decay = COMBO_DECAY_PER_SEC * dt;
                          s' = s1\<lparr>combo := Math_max (Fin 1.0) (combo s1 - decay)\<rparr>
                      in if strictEq (combo s') (Fin 1.0) then s'\<lparr>streak := 0\<rparr> else s')
                else s1);
          alpha = Fin 1 - Math_exp (- SCORE_SMOOTH * dt)
      in s2\<lparr>displayScore := lerp (displayScore s2) (score s2) alpha\<rparr>)"

text \<open>\<^verbatim>\<open>add(points, reason, applyCombo)\<close>.\<close>

definition add :: "jsnum \<Rightarrow> ScoreAddReason \<Rightarrow> bool \<Rightarrow> ScoreSystem \<Rightarrow> ScoreSystem" where
  "add points reason applyCombo s =
     (if \<not> isFinite points then s
      else
        (let raw = Math_trunc points;
             applied = (if applyCombo then Math_trunc (raw * combo s) else raw);
             s1 = s\<lparr>score := Math_max (Fin 0) (score s + applied), lastAdd := applied\<rparr>
         in if \<not> strictEq applied (Fin 0) then s1\<lparr>timeSinceScore := Fin 0\<rparr> else s1))"

text \<open>\<^verbatim>\<open>onGateCleared(base, centerBonus, speedBonus)\<close>.\<close>

definition onGateCleared :: "jsnum \<Rightarrow> jsnum \<Rightarrow> jsnum \<Rightarrow> ScoreSystem \<Rightarrow> ScoreSystem" where
  "onGateCleared base centerBonus speedBonus s =
     (let s1 = s\<lparr>gatesPassed := gatesPassed s + 1\<rparr>;
          s2 = add base GATE True s1;
          s3 = (if Fin 0 < centerBonus then add centerBonus CENTER_BONUS True s2 else s2);
          s4 = (if Fin 0 < speedBonus then add speedBonus SPEED_BONUS True s3 else s3);
          s5 = s4\<lparr>streak := streak s4 + 1\<rparr>
      in if comboLock s5 \<le> Fin 0
         then s5\<lparr>combo := clamp (combo s5 + COMBO_GROW_PER_GATE) (Fin 1.0) COMBO_MAX\<rparr>
         else s5)"

text \<open>\<^verbatim>\<open>breakCombo(flash = false)\<close>.\<close>

definition breakCombo :: "bool \<Rightarrow> ScoreSystem \<Rightarrow> ScoreSystem" where
  "breakCombo flash s =
     (let s1 = s\<lparr>combo := Fin 1.0, streak := 0, timeSinceScore := Fin 999\<rparr>
      in if flash then s1\<lparr>penaltyFlash := Fin 1.0\<rparr> else s1)"

text \<open>\<^verbatim>\<open>onPenalty(points)\<close>.\<close>

definition onPenalty :: "jsnum \<Rightarrow> ScoreSystem \<Rightarrow> ScoreSystem" where
  "onPenalty points s = breakCombo True (add (- Math_abs points) PENALTY False s)"

text \<open>\<^verbatim>\<open>onCrash(speed)\<close>.\<close>

definition onCrash :: "jsnum \<Rightarrow> ScoreSystem \<Rightarrow> ScoreSystem" where
  "onCrash speed s =
     (let sp = (if isFinite speed then speed else Fin 0);
          penalty = Math_max CRASH_BASE (Math_floor (CRASH_BASE + sp * CRASH_PER_SPEED));
          s1 = breakCombo True (add (- penalty) CRASH False s)
      in s1\<lparr>comboLock := COMBO_LOCK_SEC, penaltyFlash := Fin 1.0\<rparr>)"

record ScoreSnapshot =
  snap_score :: jsnum
  snap_displayScore :: jsnum
  snap_combo :: jsnum
  snap_comboTier :: jsnum
  snap_streak :: int
  snap_gatesPassed :: int
  snap_gatesTotal :: int
  snap_lastAdd :: jsnum
  snap_penaltyFlash :: jsnum

definition getSnapshot :: "ScoreSystem \<Rightarrow> ScoreSnapshot" where
  "getSnapshot s =
     (let tier = Math_floor ((combo s - Fin 1.0) / num 0.4)
      in \<lparr> snap_score = score s, snap_displayScore = displayScore s, snap_combo = combo s,
           snap_comboTier = Math_max (Fin 0) tier, snap_streak = streak s,
           snap_gatesPassed = gatesPassed s, snap_gatesTotal = gatesTotal s,
           snap_lastAdd = lastAdd s, snap_penaltyFlash = penaltyFlash s \<rparr>)"


text \<open>
  The calls of the public interface, as data: a history of calls is a list, and the
  state after it is the fold of the calls over the initial state.
\<close>

datatype ScoreOp =
    Update jsnum
  | Add jsnum ScoreAddReason bool
  | OnGateCleared jsnum jsnum jsnum
  | OnPenalty jsnum
  | OnCrash jsnum
  | BreakCombo bool
  | SetGateTotal jsnum

fun applyOp :: "ScoreOp \<Rightarrow> ScoreSystem \<Rightarrow> ScoreSystem" where
  "applyOp (Update dt) s = ScoreSystem_update dt s"
| "applyOp (Add points reason applyCombo) s = add points reason applyCombo s"
| "applyOp (OnGateCleared base centerBonus speedBonus) s =
     onGateCleared base centerBonus speedBonus s"
| "applyOp (OnPenalty points) s = onPenalty points s"
| "applyOp (OnCrash speed) s = onCrash speed s"
| "applyOp (BreakCombo flash) s = breakCombo flash s"
| "applyOp (SetGateTotal n) s = setGateTotal n s"

fun runOps :: "ScoreOp list \<Rightarrow> ScoreSystem \<Rightarrow> ScoreSystem" where
  "runOps [] s = s"
| "runOps (x # xs) s = runOps xs (applyOp x s)"

text \<open>Time runs forward: every \<^verbatim>\<open>update(dt)\<close> of a history has \<^verbatim>\<open>dt >= 0\<close>.\<close>

fun forwardTime :: "ScoreOp \<Rightarrow> bool" where
  "forwardTime (Update dt) = (Fin 0 \<le> dt)"
| "forwardTime _ = True"

text \<open>The same, with every \<^verbatim>\<open>dt\<close> finite.\<close>

fun finiteTime :: "ScoreOp \<Rightarrow> bool" where
  "finiteTime (Update (Fin d)) = (0 \<le> d)"
| "finiteTime (Update _) = False"
| "finiteTime _ = True"

text \<open>
  The simulated time a history spans, as a real number: the exact sum of the finite
  \<^verbatim>\<open>dt\<close> of its updates; and the number of its updates.
\<close>

fun elapsed :: "ScoreOp list \<Rightarrow> real" where
  "elapsed [] = 0"
| "elapsed (Update (Fin d) # xs) = d + elapsed xs"
| "elapsed (_ # xs) = elapsed xs"

fun updates :: "ScoreOp list \<Rightarrow> nat" where
  "updates [] = 0"
| "updates (Update dt # xs) = Suc (updates xs)"
| "updates (_ # xs) = updates xs"

section \<open>The three.js operations the course uses\<close>

text \<open>
  three.js is a library the repository imports. Its operations are modelled from
  their definitions in the library: a \<^verbatim>\<open>Vector3\<close> is three numbers, and every
  operation below computes what the method of the same name computes.
\<close>

datatype Vector3 = Vector3 (vx: jsnum) (vy: jsnum) (vz: jsnum)

definition sub3 :: "Vector3 \<Rightarrow> Vector3 \<Rightarrow> Vector3" where
  "sub3 a b = Vector3 (vx a - vx b) (vy a - vy b) (vz a - vz b)"

definition dot3 :: "Vector3 \<Rightarrow> Vector3 \<Rightarrow> jsnum" where
  "dot3 a b = vx a * vx b + vy a * vy b + vz a * vz b"

definition lengthSq3 :: "Vector3 \<Rightarrow> jsnum" where
  "lengthSq3 a = vx a * vx a + vy a * vy a + vz a * vz a"

definition length3 :: "Vector3 \<Rightarrow> jsnum" where
  "length3 a = Math_sqrt (vx a * vx a + vy a * vy a + vz a * vz a)"

definition multiplyScalar3 :: "Vector3 \<Rightarrow> jsnum \<Rightarrow> Vector3" where
  "multiplyScalar3 a k = Vector3 (vx a * k) (vy a * k) (vz a * k)"

definition divideScalar3 :: "Vector3 \<Rightarrow> jsnum \<Rightarrow> Vector3" where
  "divideScalar3 a k = multiplyScalar3 a (Fin 1 / k)"

text \<open>\<^verbatim>\<open>a || b\<close> on numbers: \<^verbatim>\<open>b\<close> when \<^verbatim>\<open>a\<close> is 0 or \<^verbatim>\<open>NaN\<close>.\<close>

definition orElse :: "jsnum \<Rightarrow> jsnum \<Rightarrow> jsnum" where
  "orElse a b = (if a = Fin 0 \<or> a = NaN then b else a)"

text \<open>\<^verbatim>\<open>normalize()\<close> is \<^verbatim>\<open>divideScalar(this.length() || 1)\<close>.\<close>

definition normalize3 :: "Vector3 \<Rightarrow> Vector3" where
  "normalize3 a = divideScalar3 a (orElse (length3 a) (Fin 1))"

definition addScaledVector3 :: "Vector3 \<Rightarrow> Vector3 \<Rightarrow> jsnum \<Rightarrow> Vector3" where
  "addScaledVector3 a v k = Vector3 (vx a + vx v * k) (vy a + vy v * k) (vz a + vz v * k)"

definition crossVectors3 :: "Vector3 \<Rightarrow> Vector3 \<Rightarrow> Vector3" where
  "crossVectors3 a b =
     Vector3 (vy a * vz b - vz a * vy b) (vz a * vx b - vx a * vz b) (vx a * vy b - vy a * vx b)"

text \<open>
  A \<^verbatim>\<open>THREE.Group\<close>, as far as the course uses it: its position, its orientation and
  \<^verbatim>\<open>userData.flash\<close>. The orientation is held as the three columns of the rotation
  matrix of the group's quaternion (the images of the local x, y and z axes), not as the
  quaternion. The groups hang under a root group and a scene that are never moved, so a
  group's world transform is its own.
\<close>

record Group =
  position :: Vector3
  basisX :: Vector3
  basisY :: Vector3
  basisZ :: Vector3
  flash :: jsnum

text \<open>
  \<^verbatim>\<open>Matrix4.lookAt(eye, target, up)\<close>: the rotation whose z axis points from
  \<^verbatim>\<open>target\<close> to \<^verbatim>\<open>eye\<close>, with the library's two repairs of a degenerate input.
\<close>

definition Matrix4_lookAt :: "Vector3 \<Rightarrow> Vector3 \<Rightarrow> Vector3 \<Rightarrow> Vector3 \<times> Vector3 \<times> Vector3" where
  "Matrix4_lookAt eye target up =
     (let z0 = sub3 eye target;
          z1 = (if strictEq (lengthSq3 z0) (Fin 0) then Vector3 (vx z0) (vy z0) (Fin 1) else z0);
          z2 = normalize3 z1;
          x0 = crossVectors3 up z2;
          z3 = (if strictEq (lengthSq3 x0) (Fin 0)
                then normalize3
                       (if strictEq (Math_abs (vz up)) (Fin 1)
                        then Vector3 (vx z2 + num 0.0001) (vy z2) (vz z2)
                        else Vector3 (vx z2) (vy z2) (vz z2 + num 0.0001))
                else z2);
          x1 = (if strictEq (lengthSq3 x0) (Fin 0) then crossVectors3 up z3 else x0);
          x2 = normalize3 x1;
          y2 = crossVectors3 z3 x2
      in (x2, y2, z3))"

text \<open>
  \<^verbatim>\<open>Object3D.lookAt(target)\<close> of an object that is neither a camera nor a light, with
  \<^verbatim>\<open>up = (0, 1, 0)\<close> (the course sets it just before the call): the object's z axis
  is turned toward the target.
\<close>

definition lookAt :: "Vector3 \<Rightarrow> Group \<Rightarrow> Group" where
  "lookAt target g =
     (case Matrix4_lookAt target (position g) (Vector3 (Fin 0) (Fin 1) (Fin 0)) of
        (x, y, z) \<Rightarrow> g\<lparr>basisX := x, basisY := y, basisZ := z\<rparr>)"

text \<open>
  \<^verbatim>\<open>Object3D.worldToLocal(v)\<close> applies the inverse of the world matrix. For a
  rotation and a translation that inverse is the transposed rotation applied to
  \<^verbatim>\<open>v - position\<close>. The world matrix is taken to be current, that is, to hold the
  group's position and orientation of the moment (three.js refreshes it in
  \<^verbatim>\<open>lookAt\<close> and at every render). Where a coordinate of \<^verbatim>\<open>v - position\<close> is
  \<^verbatim>\<open>NaN\<close>, all three coordinates of the result are \<^verbatim>\<open>NaN\<close>, here as in the library.
\<close>

definition worldToLocal :: "Group \<Rightarrow> Vector3 \<Rightarrow> Vector3" where
  "worldToLocal g v =
     (let d = sub3 v (position g)
      in Vector3 (dot3 (basisX g) d) (dot3 (basisY g) d) (dot3 (basisZ g) d))"

text \<open>The yaw of a quaternion and the rotation of the forward vector by it.\<close>

datatype Quaternion = Quaternion (qx: jsnum) (qy: jsnum) (qz: jsnum) (qw: jsnum)

fun Math_sin :: "jsnum \<Rightarrow> jsnum" where
  "Math_sin (Fin a) = rd (sin a)"
| "Math_sin _ = NaN"

fun Math_cos :: "jsnum \<Rightarrow> jsnum" where
  "Math_cos (Fin a) = rd (cos a)"
| "Math_cos _ = NaN"

definition atan2 :: "real \<Rightarrow> real \<Rightarrow> real" where
  "atan2 y x =
     (if 0 < x then arctan (y / x)
      else if x < 0 then (if 0 \<le> y then arctan (y / x) + pi else arctan (y / x) - pi)
      else if 0 < y then pi / 2 else if y < 0 then - (pi / 2) else 0)"

fun Math_atan2 :: "jsnum \<Rightarrow> jsnum \<Rightarrow> jsnum" where
  "Math_atan2 (Fin y) (Fin x) = rd (atan2 y x)"
| "Math_atan2 NaN _ = NaN"
| "Math_atan2 _ NaN = NaN"
| "Math_atan2 PInf (Fin x) = rd (pi / 2)"
| "Math_atan2 NInf (Fin x) = rd (- (pi / 2))"
| "Math_atan2 (Fin y) PInf = Fin 0"
| "Math_atan2 (Fin y) NInf = (if 0 \<le> y then rd pi else rd (- pi))"
| "Math_atan2 PInf PInf = rd (pi / 4)"
| "Math_atan2 PInf NInf = rd (3 * pi / 4)"
| "Math_atan2 NInf PInf = rd (- (pi / 4))"
| "Math_atan2 NInf NInf = rd (- (3 * pi / 4))"

text \<open>
  \<^verbatim>\<open>Euler.setFromQuaternion(q)\<close> with the order \<^verbatim>\<open>YXZ\<close>, of which the course reads
  the \<^verbatim>\<open>y\<close> angle only: the entries of the rotation matrix of \<^verbatim>\<open>q\<close>, then the angle.
\<close>

definition yawOfQuaternion :: "Quaternion \<Rightarrow> jsnum" where
  "yawOfQuaternion q =
     (let x = qx q; y = qy q; z = qz q; w = qw q;
          x2 = x + x; y2 = y + y; z2 = z + z;
          xx = x * x2; yy = y * y2; zz = z * z2;
          xz = x * z2; yz = y * z2; wx = w * x2; wy = w * y2;
          m11 = Fin 1 - (yy + zz); m13 = xz + wy; m23 = yz - wx;
          m31 = xz - wy; m33 = Fin 1 - (xx + yy)
      in if Math_abs m23 < num 0.9999999 then Math_atan2 m13 m33 else Math_atan2 (- m31) m11)"

text \<open>\<^verbatim>\<open>Quaternion.setFromEuler(new Euler(0, yaw, 0))\<close>, in the default order \<^verbatim>\<open>XYZ\<close>.\<close>

definition quaternionOfYaw :: "jsnum \<Rightarrow> Quaternion" where
  "quaternionOfYaw yaw =
     (let c1 = Math_cos (Fin 0 / Fin 2); c2 = Math_cos (yaw / Fin 2); c3 = Math_cos (Fin 0 / Fin 2);
          s1 = Math_sin (Fin 0 / Fin 2); s2 = Math_sin (yaw / Fin 2); s3 = Math_sin (Fin 0 / Fin 2)
      in Quaternion (s1 * c2 * c3 + c1 * s2 * s3) (c1 * s2 * c3 - s1 * c2 * s3)
                    (c1 * c2 * s3 + s1 * s2 * c3) (c1 * c2 * c3 - s1 * s2 * s3))"

text \<open>\<^verbatim>\<open>Vector3.applyQuaternion(q)\<close>.\<close>

definition applyQuaternion :: "Vector3 \<Rightarrow> Quaternion \<Rightarrow> Vector3" where
  "applyQuaternion v q =
     (let tx = Fin 2 * (qy q * vz v - qz q * vy v);
          ty = Fin 2 * (qz q * vx v - qx q * vz v);
          tz = Fin 2 * (qx q * vy v - qy q * vx v)
      in Vector3 (vx v + qw q * tx + qy q * tz - qz q * ty)
                 (vy v + qw q * ty + qz q * tx - qx q * tz)
                 (vz v + qw q * tz + qx q * ty - qy q * tx))"


section \<open>GateCourse\<close>

text \<open>
  \<^verbatim>\<open>Math.random()\<close> returns a double in \<open>[0, 1)\<close>. The outcomes of the calls are an
  oracle, a sequence of such numbers, and the course counts the calls made so far, so
  that the \<open>k\<close>-th call reads the \<open>k\<close>-th outcome. Every theorem holds for all oracles.
\<close>

typedef unitReal = "{x::real. 0 \<le> x \<and> x < 1 \<and> roundReal x = x}"
  by (rule exI [of _ 0]) (simp add: roundReal_def roundEven_def)

definition Math_random :: "(nat \<Rightarrow> unitReal) \<Rightarrow> nat \<Rightarrow> jsnum" where
  "Math_random rnd k = Fin (Rep_unitReal (rnd k))"

text \<open>
  \<^verbatim>\<open>xs[Math.floor(Math.random() * xs.length)]\<close>: the floor of the rounded product
  (which is finite: the product is below the length). For the arrays of the program, of
  length 2 and 3, the index is below the length (lemma \<open>randomIndex_less\<close>), so the
  read is never out of range.
\<close>

definition randomIndex :: "(nat \<Rightarrow> unitReal) \<Rightarrow> nat \<Rightarrow> nat \<Rightarrow> nat" where
  "randomIndex rnd k n = nat \<lfloor>roundReal (Rep_unitReal (rnd k) * real n)\<rfloor>"

definition randomPick :: "(nat \<Rightarrow> unitReal) \<Rightarrow> nat \<Rightarrow> int list \<Rightarrow> int" where
  "randomPick rnd k xs = xs ! randomIndex rnd k (length xs)"

record Gate =
  group :: Group
  passed :: bool
  wasAhead :: bool
  lane :: int

text \<open>
  The fields of the class that \<^verbatim>\<open>update\<close> reads or writes (\<^verbatim>\<open>animate\<close> and
  \<^verbatim>\<open>dispose\<close>, which only drive the rendering, are left out). The temporary vectors
  (\<^verbatim>\<open>tmpForward\<close>, \<^verbatim>\<open>tmpRight\<close>, \<^verbatim>\<open>tmpLocal\<close>, \<^verbatim>\<open>tmpLook\<close>) are written before every
  read and are values of the functions below. All gates share one glow material, whose
  opacity is the field \<open>glowOpacity\<close>; \<open>draws\<close> counts the calls of \<^verbatim>\<open>Math.random()\<close>.
\<close>

record GateCourse =
  gates :: "Gate list"
  lastLane :: int
  sameLaneStreak :: nat
  fallbackForward :: Vector3
  glowOpacity :: jsnum
  draws :: nat

definition gateW :: jsnum where "gateW = Fin 10.5"
definition gateH :: jsnum where "gateH = Fin 6.0"
definition triggerDepth :: jsnum where "triggerDepth = num 3.2"
definition gateCount :: nat where "gateCount = 22"
definition spawnMin :: jsnum where "spawnMin = Fin 70"
definition spawnMax :: jsnum where "spawnMax = Fin 220"
definition lateralLane :: jsnum where "lateralLane = Fin 11"
definition verticalCenter :: jsnum where "verticalCenter = num 2.6"
definition verticalJitter :: jsnum where "verticalJitter = Fin 1.0"
definition behindRecycle :: jsnum where "behindRecycle = Fin 18"
definition farRecycle :: jsnum where "farRecycle = Fin 320"
definition basePoints :: jsnum where "basePoints = Fin 100"
definition centerBonusMax :: jsnum where "centerBonusMax = Fin 80"
definition speedBonusMax :: jsnum where "speedBonusMax = Fin 50"
definition speedForMax :: jsnum where "speedForMax = Fin 18"
definition missPenalty :: jsnum where "missPenalty = Fin 140"
definition missComboBreak :: bool where "missComboBreak = True"
definition missFlashSeconds :: jsnum where "missFlashSeconds = num 0.35"

text \<open>
  \<^verbatim>\<open>buildGates\<close>: gate \<open>i\<close> of the pool starts at \<open>(0, verticalCenter, -80 - 18 i)\<close>,
  unrotated. The constructor also calls \<^verbatim>\<open>score.setGateTotal(0)\<close>.
\<close>

definition buildGate :: "nat \<Rightarrow> Gate" where
  "buildGate i =
     \<lparr> group = \<lparr> position = Vector3 (Fin 0) verticalCenter (Fin (- 80) - Fin (of_nat i) * Fin 18),
                 basisX = Vector3 (Fin 1) (Fin 0) (Fin 0),
                 basisY = Vector3 (Fin 0) (Fin 1) (Fin 0),
                 basisZ = Vector3 (Fin 0) (Fin 0) (Fin 1),
                 flash = Fin 0 \<rparr>,
       passed = False, wasAhead = False, lane = 0 \<rparr>"

definition buildGates :: "Gate list" where
  "buildGates = map buildGate [0..<gateCount]"

definition newGateCourse :: GateCourse where
  "newGateCourse =
     \<lparr> gates = buildGates, lastLane = 0, sameLaneStreak = 0,
       fallbackForward = Vector3 (Fin 0) (Fin 0) (Fin (- 1)),
       glowOpacity = num 0.85, draws = 0 \<rparr>"

text \<open>
  \<^verbatim>\<open>getForward(quat, velXZ)\<close>; an absent optional argument is \<open>None\<close>. The velocity
  is taken when it is given and its squared length exceeds 0.6; otherwise the yaw of the
  quaternion when that is given; otherwise the forward vector of the last tick.
\<close>

definition getForward :: "Quaternion option \<Rightarrow> (jsnum \<times> jsnum) option \<Rightarrow> GateCourse \<Rightarrow> Vector3" where
  "getForward quat velXZ c =
     (let fromYaw =
            (case quat of
               Some q \<Rightarrow>
                 normalize3
                   (applyQuaternion (Vector3 (Fin 0) (Fin 0) (Fin (- 1)))
                      (quaternionOfYaw (yawOfQuaternion q)))
             | None \<Rightarrow> fallbackForward c)
      in case velXZ of
           Some (x, z) \<Rightarrow>
             if num 0.6 < x * x + z * z then normalize3 (Vector3 x (Fin 0) z) else fromYaw
         | None \<Rightarrow> fromYaw)"

definition flashGate :: "Group \<Rightarrow> Group" where
  "flashGate g = g\<lparr>flash := Fin 1.0\<rparr>"

text \<open>
  \<^verbatim>\<open>setGateGlow(group, opacity)\<close> sets the opacity of the materials of the group whose
  emissive intensity is at least 0.9: the glow material, which all gates share.
\<close>

definition setGateGlow :: "jsnum \<Rightarrow> GateCourse \<Rightarrow> GateCourse" where
  "setGateGlow opacity c = c\<lparr>glowOpacity := opacity\<rparr>"

text \<open>
  \<^verbatim>\<open>onGateMissed(g)\<close>: the gate as it leaves, and the calls made on the score system,
  in order. \<^verbatim>\<open>userData.flash\<close> is a number from \<^verbatim>\<open>buildGates\<close> on, so
  \<^verbatim>\<open>flash ?? 0\<close> is \<^verbatim>\<open>flash\<close>.
\<close>

definition onGateMissed :: "Gate \<Rightarrow> Gate \<times> ScoreOp list" where
  "onGateMissed g =
     (let g1 = g\<lparr>group := flashGate (group g)\<rparr>;
          calls = [OnPenalty missPenalty] @ (if missComboBreak then [BreakCombo True] else []);
          g2 = g1\<lparr>wasAhead := False, passed := True\<rparr>
      in (g2\<lparr>group := (group g2)\<lparr>flash := Math_max (flash (group g2)) missFlashSeconds\<rparr>\<rparr>, calls))"

definition lanes :: "int list" where
  "lanes = [- 1, 0, 1]"

text \<open>\<^verbatim>\<open>chooseLane()\<close>: the lane, and the course with the lane memory updated.\<close>

definition chooseLane :: "(nat \<Rightarrow> unitReal) \<Rightarrow> GateCourse \<Rightarrow> int \<times> GateCourse" where
  "chooseLane rnd c =
     (let forceChange = (2 \<le> sameLaneStreak c);
          k = draws c;
          lane0 = randomPick rnd k lanes;
          choices = filter (\<lambda>x. x \<noteq> lastLane c) lanes;
          chosen =
            (if forceChange then (randomPick rnd (k + 1) choices, k + 2)
             else if Math_random rnd (k + 1) < num 0.35
                  then (randomPick rnd (k + 2) choices, k + 3)
                  else (lane0, k + 2));
          newLane = fst chosen;
          streak' = (if newLane = lastLane c then sameLaneStreak c + 1 else 0)
      in (newLane, c\<lparr>sameLaneStreak := streak', lastLane := newLane, draws := snd chosen\<rparr>))"

text \<open>\<^verbatim>\<open>respawnGate(g, pos, fwd)\<close>.\<close>

definition respawnGate ::
  "(nat \<Rightarrow> unitReal) \<Rightarrow> Vector3 \<Rightarrow> Vector3 \<Rightarrow> Gate \<Rightarrow> GateCourse \<Rightarrow> Gate \<times> GateCourse" where
  "respawnGate rnd pos fwd g c =
     (let d = spawnMin + Math_random rnd (draws c) * (spawnMax - spawnMin);
          tmpRight = normalize3 (Vector3 (vz fwd) (Fin 0) (- vx fwd));
          chosen = chooseLane rnd (c\<lparr>draws := draws c + 1\<rparr>);
          newLane = fst chosen;
          c1 = snd chosen;
          lateral = Fin (of_int newLane) * lateralLane
                  + (Math_random rnd (draws c1) * Fin 2 - Fin 1) * (lateralLane * num 0.18);
          y = verticalCenter + (Math_random rnd (draws c1 + 1) * Fin 2 - Fin 1) * verticalJitter;
          spawn = addScaledVector3 (addScaledVector3 pos fwd d) tmpRight lateral;
          tmpLook = addScaledVector3 spawn fwd (Fin 10);
          grp = lookAt tmpLook ((group g)\<lparr>position := Vector3 (vx spawn) y (vz spawn)\<rparr>)
      in (g\<lparr>lane := newLane, group := grp, passed := False, wasAhead := False\<rparr>,
          setGateGlow (num 0.85) (c1\<lparr>draws := draws c1 + 2\<rparr>)))"

text \<open>
  The body of the first loop of \<^verbatim>\<open>update\<close> (miss and recycle), for one gate: the
  gate and the course as the iteration leaves them, and the calls it makes on the score
  system.
\<close>

definition shouldRecycle :: "Vector3 \<Rightarrow> Vector3 \<Rightarrow> Gate \<Rightarrow> bool" where
  "shouldRecycle pos fwd g =
     (let toGate = sub3 (position (group g)) pos;
          ahead = dot3 toGate fwd;
          dist = length3 toGate
      in ahead < - behindRecycle \<or> farRecycle < dist)"

definition recycleGate ::
  "(nat \<Rightarrow> unitReal) \<Rightarrow> Vector3 \<Rightarrow> Vector3 \<Rightarrow> Gate \<Rightarrow> GateCourse
     \<Rightarrow> Gate \<times> ScoreOp list \<times> GateCourse" where
  "recycleGate rnd pos fwd g c =
     (let toGate = sub3 (position (group g)) pos;
          ahead = dot3 toGate fwd;
          g1 = (if Fin 0 < ahead then g\<lparr>wasAhead := True\<rparr> else g)
      in if shouldRecycle pos fwd g
         then (let missed = (if \<not> passed g1 \<and> wasAhead g1 then onGateMissed g1 else (g1, []));
                   respawned = respawnGate rnd pos fwd (fst missed) c
               in (fst respawned, snd missed, snd respawned))
         else (g1, [], c))"

fun recycleLoop ::
  "(nat \<Rightarrow> unitReal) \<Rightarrow> Vector3 \<Rightarrow> Vector3 \<Rightarrow> Gate list \<Rightarrow> GateCourse
     \<Rightarrow> Gate list \<times> ScoreOp list list \<times> GateCourse" where
  "recycleLoop rnd pos fwd [] c = ([], [], c)"
| "recycleLoop rnd pos fwd (g # gs) c =
     (let r = recycleGate rnd pos fwd g c;
          rest = recycleLoop rnd pos fwd gs (snd (snd r))
      in (fst r # fst rest, fst (snd r) # fst (snd rest), snd (snd rest)))"

text \<open>The body of the second loop (pass checks), for one gate.\<close>

definition passGate :: "Vector3 \<Rightarrow> jsnum \<Rightarrow> Gate \<Rightarrow> Gate \<times> ScoreOp list" where
  "passGate pos speed g =
     (if passed g then (g, [])
      else
        (let tmpLocal = worldToLocal (group g) pos;
             lx = vx tmpLocal; ly = vy tmpLocal; lz = vz tmpLocal
         in if triggerDepth * Fin 0.5 < Math_abs lz then (g, [])
            else if gateW * Fin 0.5 < Math_abs lx then (g, [])
            else if gateH * Fin 0.5 < Math_abs ly then (g, [])
            else
              (let g1 = g\<lparr>passed := True, wasAhead := False, group := flashGate (group g)\<rparr>;
                   nx = Math_abs lx / (gateW * Fin 0.5);
                   ny = Math_abs ly / (gateH * Fin 0.5);
                   centerDist = Math_sqrt (nx * nx + ny * ny);
                   centerScore = Math_floor (centerBonusMax * clamp (Fin 1 - centerDist) (Fin 0) (Fin 1));
                   t = clamp (speed / speedForMax) (Fin 0) (Fin 1);
                   speedScore = Math_floor (speedBonusMax * t)
               in (g1, [OnGateCleared basePoints centerScore speedScore]))))"

definition passLoop :: "Vector3 \<Rightarrow> jsnum \<Rightarrow> Gate list \<Rightarrow> Gate list \<times> ScoreOp list list" where
  "passLoop pos speed gs = (map (\<lambda>g. fst (passGate pos speed g)) gs, map (\<lambda>g. snd (passGate pos speed g)) gs)"

text \<open>
  \<^verbatim>\<open>update(dt, pos, speed, quat, velXZ)\<close>, with the calls it makes on the score
  system: the course after the tick, the calls of the first loop and the calls of the
  second loop, gate by gate.
\<close>

definition GateCourse_calls ::
  "(nat \<Rightarrow> unitReal) \<Rightarrow> jsnum \<Rightarrow> Vector3 \<Rightarrow> jsnum \<Rightarrow> Quaternion option \<Rightarrow> (jsnum \<times> jsnum) option
     \<Rightarrow> GateCourse \<Rightarrow> GateCourse \<times> ScoreOp list list \<times> ScoreOp list list" where
  "GateCourse_calls rnd dt pos speed quat velXZ c =
     (let fwd = getForward quat velXZ c;
          c0 = c\<lparr>fallbackForward := fwd\<rparr>;
          pass1 = recycleLoop rnd pos fwd (gates c0) c0;
          pass2 = passLoop pos speed (fst pass1)
      in ((snd (snd pass1))\<lparr>gates := fst pass2\<rparr>, fst (snd pass1), snd pass2))"

text \<open>The tick as the program runs it: the course and its score system after it.\<close>

definition GateCourse_update ::
  "(nat \<Rightarrow> unitReal) \<Rightarrow> jsnum \<Rightarrow> Vector3 \<Rightarrow> jsnum \<Rightarrow> Quaternion option \<Rightarrow> (jsnum \<times> jsnum) option
     \<Rightarrow> GateCourse \<times> ScoreSystem \<Rightarrow> GateCourse \<times> ScoreSystem" where
  "GateCourse_update rnd dt pos speed quat velXZ cs =
     (let r = GateCourse_calls rnd dt pos speed quat velXZ (fst cs)
      in (fst r, runOps (concat (fst (snd r)) @ concat (snd (snd r))) (snd cs)))"

section \<open>Invariants of the score system\<close>

definition comboInRange :: "ScoreSystem \<Rightarrow> bool" where
  "comboInRange s = (Fin 1.0 \<le> combo s \<and> combo s \<le> Fin 3.0)"

text \<open>
  The score is \<^verbatim>\<open>NaN\<close> or at least 0: every assignment to it is a
  \<^verbatim>\<open>Math.max(0, ...)\<close>.
\<close>

definition scoreClamped :: "ScoreSystem \<Rightarrow> bool" where
  "scoreClamped s = (score s = NaN \<or> Fin 0 \<le> score s)"

text \<open>The combo is 1 and more than \<open>r\<close> seconds of the combo lock remain.\<close>

definition locked :: "real \<Rightarrow> ScoreSystem \<Rightarrow> bool" where
  "locked r s = (combo s = Fin 1 \<and> (\<exists>l. comboLock s = Fin l \<and> r < l \<and> l \<le> 3 / 4))"

text \<open>
  The points \<^verbatim>\<open>add(p, reason, true)\<close> applies at combo 1, and the score after a bonus
  argument \<open>b\<close> of \<^verbatim>\<open>onGateCleared\<close> at combo 1: the bonus is added when it is
  positive, and \<^verbatim>\<open>add\<close> ignores a non-finite one.
\<close>

definition unitPoints :: "jsnum \<Rightarrow> jsnum" where
  "unitPoints p = Math_trunc (Math_trunc p * Fin 1)"

definition credit :: "jsnum \<Rightarrow> jsnum \<Rightarrow> jsnum" where
  "credit sc b = (if Fin 0 < b \<and> isFinite b then sc + unitPoints b else sc)"

section \<open>Ticks and invariants of the course\<close>

text \<open>
  The lanes a sequence of spawns chooses. Between two spawns the program calls
  \<^verbatim>\<open>Math.random()\<close> for other purposes, so every spawn comes with its own oracle and
  its own count of earlier calls.
\<close>

fun spawnLanes :: "((nat \<Rightarrow> unitReal) \<times> nat) list \<Rightarrow> GateCourse \<Rightarrow> int list" where
  "spawnLanes [] c = []"
| "spawnLanes ((rnd, k) # steps) c =
     (let r = chooseLane rnd (c\<lparr>draws := k\<rparr>) in fst r # spawnLanes steps (snd r))"

text \<open>How many times \<open>v\<close> stands at the head of a list.\<close>

definition lead :: "int \<Rightarrow> int list \<Rightarrow> nat" where
  "lead v xs = length (takeWhile (\<lambda>x. x = v) xs)"

text \<open>The course as the first loop finds it when it reaches gate \<open>i\<close>.\<close>

definition loopState ::
  "(nat \<Rightarrow> unitReal) \<Rightarrow> Vector3 \<Rightarrow> Vector3 \<Rightarrow> Gate list \<Rightarrow> GateCourse \<Rightarrow> nat \<Rightarrow> GateCourse" where
  "loopState rnd pos fwd gs c i = snd (snd (recycleLoop rnd pos fwd (take i gs) c))"

text \<open>The arguments of one call of \<^verbatim>\<open>update\<close>, and a sequence of ticks.\<close>

type_synonym tick = "jsnum \<times> Vector3 \<times> jsnum \<times> Quaternion option \<times> (jsnum \<times> jsnum) option"

definition tickCalls ::
  "(nat \<Rightarrow> unitReal) \<Rightarrow> tick \<Rightarrow> GateCourse \<Rightarrow> GateCourse \<times> ScoreOp list list \<times> ScoreOp list list" where
  "tickCalls rnd t c =
     (case t of (dt, pos, speed, quat, velXZ) \<Rightarrow> GateCourse_calls rnd dt pos speed quat velXZ c)"

text \<open>Gate \<open>i\<close> is recycled by the first loop of the tick.\<close>

definition recycledIn :: "tick \<Rightarrow> GateCourse \<Rightarrow> nat \<Rightarrow> bool" where
  "recycledIn t c i =
     (case t of (dt, pos, speed, quat, velXZ) \<Rightarrow>
        shouldRecycle pos (getForward quat velXZ c) (gates c ! i))"

fun afterTicks :: "(nat \<Rightarrow> unitReal) \<Rightarrow> tick list \<Rightarrow> GateCourse \<Rightarrow> GateCourse" where
  "afterTicks rnd [] c = c"
| "afterTicks rnd (t # ts) c = afterTicks rnd ts (fst (tickCalls rnd t c))"

text \<open>The calls the pass checks of gate \<open>i\<close> make over a sequence of ticks.\<close>

fun clearedCalls :: "(nat \<Rightarrow> unitReal) \<Rightarrow> nat \<Rightarrow> tick list \<Rightarrow> GateCourse \<Rightarrow> ScoreOp list" where
  "clearedCalls rnd i [] c = []"
| "clearedCalls rnd i (t # ts) c =
     snd (snd (tickCalls rnd t c)) ! i @ clearedCalls rnd i ts (fst (tickCalls rnd t c))"

text \<open>Gate \<open>i\<close> is recycled in none of the ticks.\<close>

fun neverRecycled :: "(nat \<Rightarrow> unitReal) \<Rightarrow> nat \<Rightarrow> tick list \<Rightarrow> GateCourse \<Rightarrow> bool" where
  "neverRecycled rnd i [] c = True"
| "neverRecycled rnd i (t # ts) c =
     (\<not> recycledIn t c i \<and> neverRecycled rnd i ts (fst (tickCalls rnd t c)))"

text \<open>
  The containment test of the second loop: the position, taken to the local frame of
  the group, lies within half the trigger depth, half the width and half the height.
  The test is written, as in the source, by the three comparisons that reject, so a
  \<^verbatim>\<open>NaN\<close> coordinate passes it.
\<close>

definition inside :: "Group \<Rightarrow> Vector3 \<Rightarrow> bool" where
  "inside grp pos =
     (\<not> triggerDepth * Fin 0.5 < Math_abs (vz (worldToLocal grp pos))
      \<and> \<not> gateW * Fin 0.5 < Math_abs (vx (worldToLocal grp pos))
      \<and> \<not> gateH * Fin 0.5 < Math_abs (vy (worldToLocal grp pos)))"

text \<open>
  The inputs of the instances below: an oracle whose every outcome is 0, and ticks at
  1/60 s with neither quaternion nor velocity unless said otherwise. The agent stands in
  the centre of gate 0 at speed 18, at an infinite speed and at speed 0; 330 units
  before gate 21, the last of the pool; there again with an infinite velocity component,
  and with a quaternion component that is \<^verbatim>\<open>NaN\<close>; and with a position that is
  \<^verbatim>\<open>NaN\<close>, zero and infinite in \<open>x\<close>.
\<close>

definition rnd0 :: "nat \<Rightarrow> unitReal" where
  "rnd0 = (\<lambda>k. Abs_unitReal 0)"

definition tickAtGate0 :: tick where
  "tickAtGate0 = (num (1 / 60), Vector3 (Fin 0) verticalCenter (Fin (- 80)), Fin 18, None, None)"

definition tickInfSpeed :: tick where
  "tickInfSpeed = (num (1 / 60), Vector3 (Fin 0) verticalCenter (Fin (- 80)), PInf, None, None)"

definition tickZeroSpeed :: tick where
  "tickZeroSpeed = (num (1 / 60), Vector3 (Fin 0) verticalCenter (Fin (- 80)), Fin 0, None, None)"

definition tickFar :: tick where
  "tickFar = (num (1 / 60), Vector3 (Fin 0) verticalCenter (Fin (- 128)), Fin 18, None, None)"

definition tickInfVelocity :: tick where
  "tickInfVelocity =
     (num (1 / 60), Vector3 (Fin 0) verticalCenter (Fin (- 128)), Fin 18, None, Some (PInf, Fin 0))"

definition tickNaNQuaternion :: tick where
  "tickNaNQuaternion =
     (num (1 / 60), Vector3 (Fin 0) verticalCenter (Fin (- 128)), Fin 18,
      Some (Quaternion NaN (Fin 0) (Fin 0) (Fin 1)), None)"

definition tickNaNPosition :: tick where
  "tickNaNPosition = (num (1 / 60), Vector3 NaN (Fin 0) (Fin 0), Fin 0, None, None)"

definition tickZeroPosition :: tick where
  "tickZeroPosition = (num (1 / 60), Vector3 (Fin 0) (Fin 0) (Fin 0), Fin 0, None, None)"

definition tickInfPosition :: tick where
  "tickInfPosition = (num (1 / 60), Vector3 PInf (Fin 0) (Fin 0), Fin 0, None, None)"

section \<open>Rounding: lemmas\<close>

lemma roundEven_of_int [simp]: "roundEven (of_int k) = k"
  by (simp add: roundEven_def)

lemma roundEven_0 [simp]: "roundEven 0 = 0"
  by (simp add: roundEven_def)

lemma roundEven_cases: "roundEven x = \<lfloor>x\<rfloor> \<or> roundEven x = \<lfloor>x\<rfloor> + 1"
  by (simp add: roundEven_def)

lemma roundEven_near: "\<bar>of_int (roundEven x) - x\<bar> \<le> 1 / 2"
  unfolding roundEven_def by (auto simp: abs_le_iff)

lemma roundEven_mono: "x \<le> y \<Longrightarrow> roundEven x \<le> roundEven y"
proof -
  assume xy: "x \<le> y"
  have fl: "\<lfloor>x\<rfloor> \<le> \<lfloor>y\<rfloor>" using xy by (rule floor_mono)
  show ?thesis
  proof (cases "\<lfloor>x\<rfloor> = \<lfloor>y\<rfloor>")
    case True
    then show ?thesis using xy unfolding roundEven_def by auto
  next
    case False
    then have "\<lfloor>x\<rfloor> + 1 \<le> \<lfloor>y\<rfloor>" using fl by simp
    then show ?thesis using roundEven_cases [of x] roundEven_cases [of y] by auto
  qed
qed

lemma roundEven_le_int: "x \<le> of_int k \<Longrightarrow> roundEven x \<le> k"
  using roundEven_mono [of x "of_int k"] by simp

lemma roundEven_ge_int: "of_int k \<le> x \<Longrightarrow> k \<le> roundEven x"
  using roundEven_mono [of "of_int k" x] by simp

lemma roundEven_less_int: "x < of_int k - 1 / 2 \<Longrightarrow> roundEven x < k"
proof -
  assume "x < of_int k - 1 / 2"
  moreover have "of_int (roundEven x) - x \<le> 1 / 2"
    using roundEven_near [of x] by linarith
  ultimately have "of_int (roundEven x) < (of_int k :: real)" by linarith
  then show ?thesis by simp
qed

lemma spacing_pos [simp]:
  "0 < spacing x" "spacing x \<noteq> 0" "0 \<le> spacing x" "\<not> spacing x < 0" "\<not> spacing x \<le> 0"
  by (simp_all add: spacing_def not_le)

lemma roundReal_0 [simp]: "roundReal 0 = 0"
  by (simp add: roundReal_def)

lemma roundReal_le_grid: "x \<le> k \<Longrightarrow> k / spacing x = of_int j \<Longrightarrow> roundReal x \<le> k"
proof -
  assume a: "x \<le> k" and g: "k / spacing x = of_int j"
  have "x / spacing x \<le> k / spacing x"
    using a spacing_pos(1) [of x] by (simp add: divide_le_cancel)
  then have "x / spacing x \<le> of_int j" using g by simp
  then have "roundEven (x / spacing x) \<le> j" by (rule roundEven_le_int)
  then have "of_int (roundEven (x / spacing x)) * spacing x \<le> of_int j * spacing x"
    by (simp add: mult_right_mono)
  also have "of_int j * spacing x = k" using g [symmetric] spacing_pos(2) [of x] by simp
  finally show ?thesis by (simp add: roundReal_def)
qed

lemma roundReal_ge_grid: "k \<le> x \<Longrightarrow> k / spacing x = of_int j \<Longrightarrow> k \<le> roundReal x"
proof -
  assume a: "k \<le> x" and g: "k / spacing x = of_int j"
  have "k / spacing x \<le> x / spacing x"
    using a spacing_pos(1) [of x] by (simp add: divide_le_cancel)
  then have "of_int j \<le> x / spacing x" using g by simp
  then have "j \<le> roundEven (x / spacing x)" by (rule roundEven_ge_int)
  then have "of_int j * spacing x \<le> of_int (roundEven (x / spacing x)) * spacing x"
    by (simp add: mult_right_mono)
  moreover have "of_int j * spacing x = k" using g [symmetric] spacing_pos(2) [of x] by simp
  ultimately show ?thesis by (simp add: roundReal_def)
qed

lemma roundReal_exact_grid: "k / spacing k = of_int j \<Longrightarrow> roundReal k = k"
proof -
  assume g: "k / spacing k = of_int j"
  have "roundReal k = k / spacing k * spacing k"
    unfolding roundReal_def g by simp
  then show ?thesis by simp
qed

lemma roundReal_nonneg: "0 \<le> x \<Longrightarrow> 0 \<le> roundReal x"
  using roundReal_ge_grid [of 0 x 0] by simp

lemma roundReal_nonpos: "x \<le> 0 \<Longrightarrow> roundReal x \<le> 0"
  using roundReal_le_grid [of x 0 0] by simp

lemma binade_ge: "- 1022 \<le> binade x"
  by (simp add: binade_def)

lemma binade_le: "x \<noteq> 0 \<Longrightarrow> \<bar>x\<bar> < 2 powr (of_int e + 1) \<Longrightarrow> - 1022 \<le> e \<Longrightarrow> binade x \<le> e"
proof -
  assume x: "x \<noteq> 0" and b: "\<bar>x\<bar> < 2 powr (of_int e + 1)" and e: "- 1022 \<le> e"
  have "log 2 \<bar>x\<bar> < of_int e + 1" using x b by (simp add: log_less_iff)
  then have "\<lfloor>log 2 \<bar>x\<bar>\<rfloor> \<le> e" by linarith
  then show ?thesis using e by (simp add: binade_def)
qed

lemma binade_lower: "x \<noteq> 0 \<Longrightarrow> 2 powr (of_int e) \<le> \<bar>x\<bar> \<Longrightarrow> e \<le> binade x"
proof -
  assume x: "x \<noteq> 0" and b: "2 powr (of_int e) \<le> \<bar>x\<bar>"
  have "of_int e \<le> log 2 \<bar>x\<bar>" using x b by (simp add: le_log_iff)
  then have "e \<le> \<lfloor>log 2 \<bar>x\<bar>\<rfloor>" by linarith
  then show ?thesis by (simp add: binade_def)
qed

lemma binade_powr_le: "x \<noteq> 0 \<Longrightarrow> - 1022 < binade x \<Longrightarrow> 2 powr (of_int (binade x)) \<le> \<bar>x\<bar>"
proof -
  assume x: "x \<noteq> 0" and b: "- 1022 < binade x"
  then have "binade x = \<lfloor>log 2 \<bar>x\<bar>\<rfloor>" by (simp add: binade_def max_def split: if_splits)
  then have "of_int (binade x) \<le> log 2 \<bar>x\<bar>" by simp
  then show ?thesis using x by (simp add: le_log_iff)
qed

lemma two_powr_nonneg: "0 \<le> n \<Longrightarrow> (2::real) powr (of_int n) = of_int (2 ^ nat n)"
  by (simp add: powr_real_of_int)

lemma grid_powr:
  assumes "binade x - 52 \<le> e"
  shows "\<exists>j. of_int m * 2 powr (of_int e) / spacing x = of_int j"
proof -
  have "of_int m * 2 powr (of_int e) / spacing x
      = of_int m * 2 powr (of_int (e - (binade x - 52)))"
    by (simp add: spacing_def powr_diff)
  also have "\<dots> = of_int m * of_int (2 ^ nat (e - (binade x - 52)))"
    using assms by (subst two_powr_nonneg) simp_all
  also have "\<dots> = of_int (m * 2 ^ nat (e - (binade x - 52)))" by simp
  finally show ?thesis by blast
qed

lemma roundReal_le_dyadic:
  assumes "x \<le> of_int m * 2 powr (of_int e)" and "\<bar>x\<bar> < 2 powr (of_int e + 53)" and "- 1074 \<le> e"
  shows "roundReal x \<le> of_int m * 2 powr (of_int e)"
proof (cases "x = 0")
  case True
  then show ?thesis using assms(1) by simp
next
  case False
  have "binade x \<le> e + 52"
    using binade_le [OF False, of "e + 52"] assms(2,3) by (simp add: add.commute)
  then obtain j where "of_int m * 2 powr (of_int e) / spacing x = of_int j"
    using grid_powr [of x e m] by auto
  from roundReal_le_grid [OF assms(1) this] show ?thesis .
qed

lemma roundReal_ge_dyadic:
  assumes "of_int m * 2 powr (of_int e) \<le> x" and "\<bar>x\<bar> < 2 powr (of_int e + 53)" and "- 1074 \<le> e"
  shows "of_int m * 2 powr (of_int e) \<le> roundReal x"
proof (cases "x = 0")
  case True
  then show ?thesis using assms(1) by simp
next
  case False
  have "binade x \<le> e + 52"
    using binade_le [OF False, of "e + 52"] assms(2,3) by (simp add: add.commute)
  then obtain j where "of_int m * 2 powr (of_int e) / spacing x = of_int j"
    using grid_powr [of x e m] by auto
  from roundReal_ge_grid [OF assms(1) this] show ?thesis .
qed

lemma roundReal_le_int: "x \<le> of_int m \<Longrightarrow> \<bar>x\<bar> < 2 ^ 53 \<Longrightarrow> roundReal x \<le> of_int m"
  using roundReal_le_dyadic [of x m 0] by simp

lemma roundReal_ge_int: "of_int m \<le> x \<Longrightarrow> \<bar>x\<bar> < 2 ^ 53 \<Longrightarrow> of_int m \<le> roundReal x"
  using roundReal_ge_dyadic [of m 0 x] by simp

lemma roundReal_of_int: "\<bar>of_int m :: real\<bar> < 2 ^ 53 \<Longrightarrow> roundReal (of_int m) = of_int m"
  using roundReal_le_int [of "of_int m" m] roundReal_ge_int [of m "of_int m"] by simp

lemma roundReal_error:
  assumes "\<bar>x\<bar> < 1"
  shows "\<bar>roundReal x - x\<bar> \<le> 1 / 2 ^ 54"
proof (cases "x = 0")
  case True
  then show ?thesis by simp
next
  case False
  have "binade x \<le> - 1" using binade_le [OF False, of "- 1"] assms by simp
  then have "spacing x \<le> 2 powr (- 53)" by (simp add: spacing_def)
  then have s: "spacing x \<le> 1 / 2 ^ 53" by (simp add: powr_neg_numeral)
  have "roundReal x - x = (of_int (roundEven (x / spacing x)) - x / spacing x) * spacing x"
    by (simp add: roundReal_def algebra_simps)
  then have "\<bar>roundReal x - x\<bar> = \<bar>of_int (roundEven (x / spacing x)) - x / spacing x\<bar> * spacing x"
    by (simp add: abs_mult)
  also have "\<dots> \<le> 1 / 2 * spacing x"
    using roundEven_near [of "x / spacing x"] by (intro mult_right_mono) simp_all
  also have "\<dots> \<le> 1 / 2 ^ 54" using s by simp
  finally show ?thesis .
qed

lemma roundReal_ge_powr:
  assumes "2 powr (of_int e) \<le> x" and "- 1022 \<le> e"
  shows "2 powr (of_int e) \<le> roundReal x"
proof -
  have x: "x \<noteq> 0" "0 < x" using assms(1) powr_gt_zero [of 2 "of_int e"] by linarith+
  have eb: "e \<le> binade x" using binade_lower [OF x(1), of e] assms(1) x(2) by simp
  show ?thesis
  proof (cases "binade x - 52 \<le> e")
    case True
    then obtain j where "of_int 1 * 2 powr (of_int e) / spacing x = of_int j"
      using grid_powr [of x e 1] by blast
    then have "2 powr (of_int e) / spacing x = of_int j" by simp
    from roundReal_ge_grid [OF assms(1) this] show ?thesis .
  next
    case False
    then have b: "- 1022 < binade x" using assms(2) by simp
    have le: "2 powr (of_int (binade x)) \<le> x" using binade_powr_le [OF x(1) b] x(2) by simp
    obtain j where "of_int 1 * 2 powr (of_int (binade x)) / spacing x = of_int j"
      using grid_powr [of x "binade x" 1] by auto
    then have "2 powr (of_int (binade x)) / spacing x = of_int j" by simp
    from roundReal_ge_grid [OF le this] have "2 powr (of_int (binade x)) \<le> roundReal x" .
    moreover have "2 powr (of_int e) \<le> (2::real) powr (of_int (binade x))" using eb by simp
    ultimately show ?thesis by linarith
  qed
qed

lemma binade_uminus [simp]: "binade (- x) = binade x"
  by (simp add: binade_def)

lemma spacing_uminus [simp]: "spacing (- x) = spacing x"
  by (simp add: spacing_def)

lemma roundReal_le_neg_powr:
  assumes "x \<le> - (2 powr (of_int e))" and "- 1022 \<le> e"
  shows "roundReal x \<le> - (2 powr (of_int e))"
proof -
  have x: "x \<noteq> 0" "x < 0" using assms(1) powr_gt_zero [of 2 "of_int e"] by linarith+
  have eb: "e \<le> binade x" using binade_lower [OF x(1), of e] assms(1) x(2) by simp
  show ?thesis
  proof (cases "binade x - 52 \<le> e")
    case True
    then obtain j where "of_int (- 1) * 2 powr (of_int e) / spacing x = of_int j"
      using grid_powr [of x e "- 1"] by blast
    then have "- (2 powr (of_int e)) / spacing x = of_int j" by simp
    from roundReal_le_grid [OF assms(1) this] show ?thesis .
  next
    case False
    then have b: "- 1022 < binade x" using assms(2) by simp
    have le: "x \<le> - (2 powr (of_int (binade x)))" using binade_powr_le [OF x(1) b] x(2) by simp
    obtain j where "of_int (- 1) * 2 powr (of_int (binade x)) / spacing x = of_int j"
      using grid_powr [of x "binade x" "- 1"] by auto
    then have "- (2 powr (of_int (binade x))) / spacing x = of_int j" by simp
    from roundReal_le_grid [OF le this] have "roundReal x \<le> - (2 powr (of_int (binade x)))" .
    moreover have "2 powr (of_int e) \<le> (2::real) powr (of_int (binade x))" using eb by simp
    ultimately show ?thesis by linarith
  qed
qed


lemma binade_eq:
  assumes "2 powr (of_int e) \<le> \<bar>x\<bar>" and "\<bar>x\<bar> < 2 powr (of_int e + 1)" and "- 1022 \<le> e"
  shows "binade x = e"
proof -
  have x: "x \<noteq> 0" using assms(1) powr_gt_zero [of 2 "of_int e"] by auto
  show ?thesis
    using binade_le [OF x assms(2,3)] binade_lower [OF x assms(1)] by simp
qed

text \<open>Rounding at a number of known magnitude below 1, for evaluation.\<close>

lemma roundReal_eval:
  assumes "1 / 2 ^ n \<le> \<bar>x\<bar>" and "\<bar>x\<bar> < 2 / 2 ^ n" and "n \<le> 1022"
  shows "roundReal x = of_int (roundEven (x * 2 ^ (n + 52))) / 2 ^ (n + 52)"
proof -
  have p: "(2::real) powr (of_int (- int n)) = 1 / 2 ^ n"
    by (simp add: powr_minus powr_realpow divide_inverse)
  have q: "(2::real) powr (of_int (- int n) + 1) = 2 / 2 ^ n"
    unfolding powr_add p by simp
  have "binade x = - int n"
    by (rule binade_eq) (use assms p q in simp_all)
  then have "spacing x = 2 powr (- real (n + 52))" by (simp add: spacing_def)
  also have "\<dots> = 1 / 2 ^ (n + 52)"
  proof -
    have "(2::real) powr (real (n + 52)) = 2 ^ (n + 52)" by (rule powr_realpow) simp
    then show ?thesis by (simp only: powr_minus inverse_eq_divide)
  qed
  finally show ?thesis by (simp add: roundReal_def)
qed

section \<open>JavaScript numbers: lemmas\<close>

lemma overflowAt_bounds: "0 < overflowAt" "2 ^ 53 < overflowAt" "- overflowAt < overflowAt"
  by (simp_all add: overflowAt_def)

lemma overflowAt_powr: "overflowAt = 2 powr (of_int 1024)"
  by (simp add: overflowAt_def)

lemma rd_0 [simp]: "rd 0 = Fin 0"
  using overflowAt_bounds(1) by (simp add: rd_def)

lemma rd_cases:
  obtains (Fin) "rd x = Fin (roundReal x)" "\<bar>roundReal x\<bar> < overflowAt"
  | (PInf) "rd x = PInf" "overflowAt \<le> roundReal x"
  | (NInf) "rd x = NInf" "roundReal x \<le> - overflowAt"
  by (cases "overflowAt \<le> roundReal x"; cases "roundReal x \<le> - overflowAt")
     (auto simp: rd_def abs_less_iff)

lemma rd_not_NaN [simp]: "rd x \<noteq> NaN"
  by (simp add: rd_def)

lemma rd_Fin: "\<bar>roundReal x\<bar> < overflowAt \<Longrightarrow> rd x = Fin (roundReal x)"
  by (auto simp: rd_def abs_less_iff)

lemma roundReal_le_int_all:
  assumes "x \<le> of_int m" and "\<bar>of_int m :: real\<bar> < 2 ^ 53"
  shows "roundReal x \<le> of_int m"
proof (cases "\<bar>x\<bar> < 2 ^ 53")
  case True
  with assms(1) show ?thesis by (rule roundReal_le_int)
next
  case False
  then have "x \<le> - (2 powr (of_int 53))" using assms by (simp add: abs_less_iff not_less)
  from roundReal_le_neg_powr [OF this] have "roundReal x \<le> - (2 ^ 53)" by simp
  then show ?thesis using assms(2) by (simp add: abs_less_iff)
qed

lemma roundReal_ge_int_all:
  assumes "of_int m \<le> x" and "\<bar>of_int m :: real\<bar> < 2 ^ 53"
  shows "of_int m \<le> roundReal x"
proof (cases "\<bar>x\<bar> < 2 ^ 53")
  case True
  with assms(1) show ?thesis by (rule roundReal_ge_int)
next
  case False
  then have "2 powr (of_int 53) \<le> x" using assms by (simp add: abs_less_iff not_less)
  from roundReal_ge_powr [OF this] have "2 ^ 53 \<le> roundReal x" by simp
  then show ?thesis using assms(2) by (simp add: abs_less_iff)
qed

lemma rd_small: "\<bar>x\<bar> < 2 ^ 53 \<Longrightarrow> rd x = Fin (roundReal x)"
proof -
  assume a: "\<bar>x\<bar> < 2 ^ 53"
  have "roundReal x \<le> of_int (2 ^ 53)" using a by (intro roundReal_le_int) simp_all
  moreover have "of_int (- (2 ^ 53)) \<le> roundReal x" using a by (intro roundReal_ge_int) simp_all
  ultimately have "\<bar>roundReal x\<bar> < overflowAt" using overflowAt_bounds(2) by simp
  then show ?thesis by (rule rd_Fin)
qed

lemma rd_of_int: "\<bar>of_int m :: real\<bar> < 2 ^ 53 \<Longrightarrow> rd (of_int m) = Fin (of_int m)"
  by (simp add: rd_small roundReal_of_int)

lemma rd_le_int: "x \<le> of_int m \<Longrightarrow> \<bar>of_int m :: real\<bar> < 2 ^ 53 \<Longrightarrow> rd x \<le> Fin (of_int m)"
proof -
  assume a: "x \<le> of_int m" "\<bar>of_int m :: real\<bar> < 2 ^ 53"
  have "roundReal x \<le> of_int m" using a by (rule roundReal_le_int_all)
  moreover from this have "\<not> overflowAt \<le> roundReal x" using a(2) overflowAt_bounds(2) by linarith
  ultimately show ?thesis by (simp add: rd_def)
qed

lemma rd_ge_int: "of_int m \<le> x \<Longrightarrow> \<bar>of_int m :: real\<bar> < 2 ^ 53 \<Longrightarrow> Fin (of_int m) \<le> rd x"
proof -
  assume a: "of_int m \<le> x" "\<bar>of_int m :: real\<bar> < 2 ^ 53"
  have "of_int m \<le> roundReal x" using a by (rule roundReal_ge_int_all)
  moreover from this have "\<not> roundReal x \<le> - overflowAt" using a(2) overflowAt_bounds(2) by linarith
  ultimately show ?thesis by (simp add: rd_def)
qed

lemma rd_overflow: "overflowAt \<le> x \<Longrightarrow> rd x = PInf"
proof -
  assume "overflowAt \<le> x"
  then have "2 powr (of_int 1024) \<le> x" by (simp add: overflowAt_powr)
  from roundReal_ge_powr [OF this] show ?thesis by (simp add: rd_def overflowAt_powr)
qed

lemma rd_underflow: "x \<le> - overflowAt \<Longrightarrow> rd x = NInf"
proof -
  assume "x \<le> - overflowAt"
  then have "x \<le> - (2 powr (of_int 1024))" by (simp add: overflowAt_powr)
  from roundReal_le_neg_powr [OF this] have "roundReal x \<le> - overflowAt" by (simp add: overflowAt_powr)
  moreover from this have "\<not> overflowAt \<le> roundReal x" using overflowAt_bounds(1) by linarith
  ultimately show ?thesis by (simp add: rd_def)
qed

lemma num_small: "\<bar>x\<bar> < 2 ^ 53 \<Longrightarrow> num x = Fin (roundReal x)"
  by (simp add: num_def rd_small)

lemma roundReal_pos: "2 powr (of_int e) \<le> x \<Longrightarrow> - 1022 \<le> e \<Longrightarrow> 0 < roundReal x"
  using roundReal_ge_powr [of e x] powr_gt_zero [of 2 "of_int e"] by linarith

lemma Math_max_range:
  "y \<noteq> NaN \<Longrightarrow> y \<le> Fin b \<Longrightarrow> a \<le> b \<Longrightarrow> \<exists>r. Math_max (Fin a) y = Fin r \<and> a \<le> r \<and> r \<le> b"
  by (cases y) auto

lemma clamp_range:
  "v \<noteq> NaN \<Longrightarrow> a \<le> b \<Longrightarrow> \<exists>r. clamp v (Fin a) (Fin b) = Fin r \<and> a \<le> r \<and> r \<le> b"
  by (cases v) (auto simp: clamp_def)

lemma plus_not_NaN [simp]: "Fin a + Fin b \<noteq> NaN" "Fin a - Fin b \<noteq> NaN" "Fin a * Fin b \<noteq> NaN"
  by simp_all

section \<open>The score system: theorems\<close>

subsection \<open>Combo bounds\<close>

lemma comboInRange_iff: "comboInRange s \<longleftrightarrow> (\<exists>c. combo s = Fin c \<and> 1 \<le> c \<and> c \<le> 3)"
  by (cases "combo s") (simp_all add: comboInRange_def)

lemma combo_add [simp]: "combo (add p r ac s) = combo s"
  by (simp add: add_def Let_def)

lemma combo_breakCombo [simp]: "combo (breakCombo f s) = Fin 1"
  by (simp add: breakCombo_def Let_def)

lemma decay_rate: "\<exists>k. COMBO_DECAY_PER_SEC = Fin k \<and> 0 < k"
proof -
  have "0 < roundReal 0.18" by (rule roundReal_pos [of "- 3"]) (simp_all add: powr_neg_numeral)
  then show ?thesis by (simp add: COMBO_DECAY_PER_SEC_def num_small)
qed

lemma decay_nonneg: "Fin 0 \<le> dt \<Longrightarrow> Fin 0 \<le> COMBO_DECAY_PER_SEC * dt"
proof -
  assume dt: "Fin 0 \<le> dt"
  obtain k where k: "COMBO_DECAY_PER_SEC = Fin k" "0 < k" using decay_rate by blast
  from dt consider d where "dt = Fin d" "0 \<le> d" | "dt = PInf" by (cases dt) auto
  then show ?thesis
  proof cases
    case 1
    then have "of_int 0 \<le> k * d" using k by simp
    from rd_ge_int [OF this] show ?thesis unfolding 1(1) k(1) by simp
  next
    case 2
    show ?thesis unfolding 2 k(1) using k(2) by simp
  qed
qed

lemma combo_decay:
  assumes "1 \<le> c" "c \<le> 3" "Fin 0 \<le> e"
  shows "\<exists>r. Math_max (Fin 1) (Fin c - e) = Fin r \<and> 1 \<le> r \<and> r \<le> 3"
proof -
  from assms(3) consider d where "e = Fin d" "0 \<le> d" | "e = PInf" by (cases e) auto
  then show ?thesis
  proof cases
    case 1
    then have "c - d \<le> of_int 3" using assms by simp
    from rd_le_int [OF this] have "Fin c - e \<le> Fin 3" using 1 by simp
    moreover have "Fin c - e \<noteq> NaN" using 1 by simp
    ultimately show ?thesis by (intro Math_max_range) simp_all
  next
    case 2
    then show ?thesis by simp
  qed
qed

lemma comboInRange_update:
  assumes "comboInRange s" "Fin 0 \<le> dt"
  shows "comboInRange (ScoreSystem_update dt s)"
proof -
  from assms(1) obtain c where c: "combo s = Fin c" "1 \<le> c" "c \<le> 3"
    by (auto simp: comboInRange_iff)
  from combo_decay [OF c(2,3) decay_nonneg [OF assms(2)]] obtain r where
    r: "Math_max (Fin 1) (Fin c - COMBO_DECAY_PER_SEC * dt) = Fin r" "1 \<le> r" "r \<le> 3"
    by blast
  show ?thesis
    using c r by (simp add: comboInRange_iff ScoreSystem_update_def Let_def)
qed

lemma comboInRange_onGateCleared:
  assumes "comboInRange s"
  shows "comboInRange (onGateCleared b cb sb s)"
proof -
  from assms obtain c where c: "combo s = Fin c" "1 \<le> c" "c \<le> 3"
    by (auto simp: comboInRange_iff)
  have g: "COMBO_GROW_PER_GATE = Fin (roundReal 0.12)"
    by (simp add: COMBO_GROW_PER_GATE_def num_small)
  from clamp_range [of "Fin c + Fin (roundReal 0.12)" 1 3] obtain r where
    "clamp (Fin c + Fin (roundReal 0.12)) (Fin 1) (Fin 3) = Fin r" "1 \<le> r" "r \<le> 3"
    by auto
  then show ?thesis
    using c by (simp add: comboInRange_iff onGateCleared_def Let_def g COMBO_MAX_def)
qed

lemma comboInRange_applyOp:
  "comboInRange s \<Longrightarrow> forwardTime x \<Longrightarrow> comboInRange (applyOp x s)"
proof (cases x)
  case (Update dt)
  assume "comboInRange s" "forwardTime x"
  with Update show ?thesis by (simp add: comboInRange_update)
next
  case (OnGateCleared b cb sb)
  assume "comboInRange s"
  with OnGateCleared show ?thesis by (simp add: comboInRange_onGateCleared)
qed (simp_all add: comboInRange_iff onPenalty_def onCrash_def Let_def setGateTotal_def)

lemma comboInRange_runOps:
  "comboInRange s \<Longrightarrow> list_all forwardTime xs \<Longrightarrow> comboInRange (runOps xs s)"
  by (induction xs arbitrary: s) (simp_all add: comboInRange_applyOp)

lemma comboInRange_new: "comboInRange newScoreSystem"
  by (simp add: comboInRange_def newScoreSystem_def)

text \<open>
  C5. From the initial state (combo 1.0), after every history of calls of the public
  interface in which every \<^verbatim>\<open>update(dt)\<close> has \<^verbatim>\<open>dt >= 0\<close>, the combo is a number
  between 1.0 and 3.0. A history is any list of calls, so the bounds hold after each call.
\<close>

theorem combo_bounds:
  "list_all forwardTime xs \<Longrightarrow>
     Fin 1.0 \<le> combo (runOps xs newScoreSystem) \<and> combo (runOps xs newScoreSystem) \<le> Fin 3.0"
  using comboInRange_runOps [OF comboInRange_new, of xs] by (simp add: comboInRange_def)

theorem combo_bounds_witness:
  "list_all forwardTime [OnGateCleared (Fin 100) (Fin 80) (Fin 50), Update (Fin 2), OnCrash (Fin 10)]
   \<and> Fin 1.0 \<le> combo (runOps [OnGateCleared (Fin 100) (Fin 80) (Fin 50), Update (Fin 2),
                                 OnCrash (Fin 10)] newScoreSystem)
   \<and> combo (runOps [OnGateCleared (Fin 100) (Fin 80) (Fin 50), Update (Fin 2),
                     OnCrash (Fin 10)] newScoreSystem) \<le> Fin 3.0"
  using combo_bounds [of "[OnGateCleared (Fin 100) (Fin 80) (Fin 50), Update (Fin 2), OnCrash (Fin 10)]"]
  by simp

subsection \<open>What \<^verbatim>\<open>add\<close> records\<close>

text \<open>
  C10. \<^verbatim>\<open>add\<close> of a finite \<open>points\<close> computes the delta \<open>applied\<close> (\<open>points\<close>
  truncated, times the combo and truncated again when \<^verbatim>\<open>applyCombo\<close> is set). The
  score becomes \<^verbatim>\<open>Math.max(0, score + applied)\<close>, so it is 0 when the sum is negative:
  when \<open>applied\<close> is a penalty larger than the score. \<^verbatim>\<open>lastAdd\<close>, and the snapshot's
  \<^verbatim>\<open>lastAdd\<close>, is \<open>applied\<close> itself, the delta before the clamp; and
  \<^verbatim>\<open>timeSinceScore\<close> is reset to 0 whenever \<open>applied\<close> is not 0, whatever the score
  did. This holds in every state. Where the score \<open>n\<close> and the delta \<open>a\<close> are
  integers whose sum is below \<open>2^53\<close> in magnitude, nothing is rounded and the score
  becomes \<open>max 0 (n + a)\<close>.
\<close>

theorem add_records_unclamped_delta:
  assumes "isFinite points"
    and "applied = (if applyCombo then Math_trunc (Math_trunc points * combo s) else Math_trunc points)"
  shows "score (add points reason applyCombo s) = Math_max (Fin 0) (score s + applied)
       \<and> lastAdd (add points reason applyCombo s) = applied
       \<and> snap_lastAdd (getSnapshot (add points reason applyCombo s)) = applied
       \<and> (applied \<noteq> Fin 0 \<longrightarrow> timeSinceScore (add points reason applyCombo s) = Fin 0)
       \<and> (score s + applied < Fin 0 \<longrightarrow> score (add points reason applyCombo s) = Fin 0)
       \<and> (score s = Fin (of_int n) \<and> applied = Fin (of_int a) \<and> \<bar>n + a\<bar> < 2 ^ 53
            \<longrightarrow> score (add points reason applyCombo s) = Fin (of_int (max 0 (n + a))))"
proof -
  have z: "x < Fin 0 \<Longrightarrow> Math_max (Fin 0) x = Fin 0" for x
    by (cases x) auto
  have ex: "Math_max (Fin 0) (Fin (of_int n) + Fin (of_int a)) = Fin (of_int (max 0 (n + a)))"
    if "\<bar>n + a\<bar> < 2 ^ 53"
  proof -
    have "rd (of_int n + of_int a) = Fin (of_int (n + a))"
      using rd_of_int [of "n + a"] that by simp
    then show ?thesis by (simp add: max_def)
  qed
  have sc: "score (add points reason applyCombo s) = Math_max (Fin 0) (score s + applied)"
    and la: "lastAdd (add points reason applyCombo s) = applied"
    unfolding assms(2) using assms(1) by (simp_all add: add_def Let_def)
  have ts: "timeSinceScore (add points reason applyCombo s) = Fin 0" if "applied \<noteq> Fin 0"
    using that unfolding assms(2) using assms(1) by (simp add: add_def Let_def strictEq_def)
  have "score (add points reason applyCombo s) = Fin (of_int (max 0 (n + a)))"
    if "score s = Fin (of_int n)" "applied = Fin (of_int a)" "\<bar>n + a\<bar> < 2 ^ 53"
    unfolding sc that(1,2) using that(3) by (rule ex)
  then show ?thesis
    using sc la ts z [of "score s + applied"] by (simp add: getSnapshot_def)
qed

lemma truncInt_nonneg: "0 \<le> a \<Longrightarrow> 0 \<le> truncInt a"
  by (simp add: truncInt_def)

lemma truncInt_of_int [simp]: "truncInt (of_int k) = k"
  by (simp add: truncInt_def)

lemma truncInt_numeral [simp]: "truncInt (numeral k) = numeral k" "truncInt (- numeral k) = - numeral k"
  "truncInt 0 = 0" "truncInt 1 = 1"
  by (simp_all add: truncInt_def)

lemma rd_numeral [simp]:
  "\<bar>numeral k :: real\<bar> < 2 ^ 53 \<Longrightarrow> rd (numeral k) = Fin (numeral k)"
  "\<bar>numeral k :: real\<bar> < 2 ^ 53 \<Longrightarrow> rd (- numeral k) = Fin (- numeral k)"
  "rd 1 = Fin 1"
  using rd_of_int [of "numeral k"] rd_of_int [of "- numeral k"] rd_of_int [of 1] by simp_all

text \<open>
  The instance: a penalty of 140 on a score of 50. The score is 0 after it, a change of
  \<open>-50\<close>, while \<^verbatim>\<open>lastAdd\<close> is \<open>-140\<close>; the timer is reset.
\<close>

theorem add_records_unclamped_delta_witness:
  "isFinite (Fin (- 140))
   \<and> score (add (Fin 50) GATE False newScoreSystem) = Fin 50
   \<and> score (add (Fin (- 140)) PENALTY False (add (Fin 50) GATE False newScoreSystem)) = Fin 0
   \<and> lastAdd (add (Fin (- 140)) PENALTY False (add (Fin 50) GATE False newScoreSystem)) = Fin (- 140)
   \<and> timeSinceScore (add (Fin (- 140)) PENALTY False (add (Fin 50) GATE False newScoreSystem)) = Fin 0"
proof -
  have s: "score (add (Fin 50) GATE False newScoreSystem) = Fin 50"
    by (simp add: add_def Let_def newScoreSystem_def strictEq_def)
  note t = add_records_unclamped_delta [where points = "Fin (- 140)" and applyCombo = False
      and applied = "Fin (- 140)" and reason = PENALTY
      and s = "add (Fin 50) GATE False newScoreSystem"]
  have "isFinite (Fin (- 140))" by simp
  moreover have "Fin (- 140) = (if False then Math_trunc (Math_trunc (Fin (- 140))
      * combo (add (Fin 50) GATE False newScoreSystem)) else Math_trunc (Fin (- 140)))"
    by simp
  ultimately show ?thesis using t s by simp
qed

subsection \<open>Score non-negativity\<close>

lemma MAX_VALUE_bounds: "2 ^ 1023 \<le> MAX_VALUE" "MAX_VALUE < 2 ^ 1024" "0 < MAX_VALUE"
  by (simp_all add: MAX_VALUE_def)

lemma MAX_VALUE_spacing: "spacing MAX_VALUE = 2 ^ 971"
proof -
  have a: "\<bar>MAX_VALUE\<bar> = MAX_VALUE" using MAX_VALUE_bounds(3) by simp
  have l: "2 powr (of_int 1023) \<le> \<bar>MAX_VALUE\<bar>"
    unfolding a using MAX_VALUE_bounds(1) by simp
  have u: "\<bar>MAX_VALUE\<bar> < 2 powr (of_int 1023 + 1)"
    unfolding a using MAX_VALUE_bounds(2) by simp
  have b: "binade MAX_VALUE = 1023"
    by (rule binade_eq [OF l u]) simp
  show ?thesis by (simp add: spacing_def b)
qed

lemma MAX_VALUE_exact: "roundReal MAX_VALUE = MAX_VALUE" "roundReal (- MAX_VALUE) = - MAX_VALUE"
proof -
  have "MAX_VALUE / spacing MAX_VALUE = of_int (2 ^ 53 - 1)"
    unfolding MAX_VALUE_spacing by (simp add: MAX_VALUE_def)
  then show "roundReal MAX_VALUE = MAX_VALUE" by (rule roundReal_exact_grid)
  have "- MAX_VALUE / spacing (- MAX_VALUE) = of_int (- (2 ^ 53 - 1))"
    unfolding spacing_uminus MAX_VALUE_spacing by (simp add: MAX_VALUE_def)
  then show "roundReal (- MAX_VALUE) = - MAX_VALUE" by (rule roundReal_exact_grid)
qed

lemma rd_MAX_VALUE: "rd MAX_VALUE = Fin MAX_VALUE" "rd (- MAX_VALUE) = Fin (- MAX_VALUE)"
proof -
  have "\<bar>roundReal MAX_VALUE\<bar> < overflowAt"
    using MAX_VALUE_bounds by (simp add: MAX_VALUE_exact overflowAt_def)
  then show "rd MAX_VALUE = Fin MAX_VALUE" by (simp add: rd_Fin MAX_VALUE_exact)
  have "\<bar>roundReal (- MAX_VALUE)\<bar> < overflowAt"
    using MAX_VALUE_bounds by (simp add: MAX_VALUE_exact overflowAt_def)
  then show "rd (- MAX_VALUE) = Fin (- MAX_VALUE)" by (simp add: rd_Fin MAX_VALUE_exact)
qed

lemma truncInt_int_valued: "x = of_int k \<Longrightarrow> of_int (truncInt x) = x"
  by simp

lemma truncInt_MAX_VALUE:
  "of_int (truncInt MAX_VALUE) = MAX_VALUE" "of_int (truncInt (- MAX_VALUE)) = - MAX_VALUE"
proof -
  have "MAX_VALUE = of_int (2 ^ 1024 - 2 ^ 971)" by (simp add: MAX_VALUE_def)
  then show "of_int (truncInt MAX_VALUE) = MAX_VALUE" by (rule truncInt_int_valued)
  have "- MAX_VALUE = of_int (- (2 ^ 1024 - 2 ^ 971))" by (simp add: MAX_VALUE_def)
  then show "of_int (truncInt (- MAX_VALUE)) = - MAX_VALUE" by (rule truncInt_int_valued)
qed

lemma grown_combo: "\<exists>c. Fin 1 + COMBO_GROW_PER_GATE = Fin c \<and> 17 / 16 \<le> c \<and> c \<le> 9 / 8"
proof -
  have g: "COMBO_GROW_PER_GATE = Fin (roundReal 0.12)"
    by (simp add: COMBO_GROW_PER_GATE_def num_small)
  have lo: "1 / 16 \<le> roundReal 0.12"
    using roundReal_ge_dyadic [of 1 "- 4" "0.12"] by (simp add: powr_neg_numeral)
  have hi: "roundReal 0.12 \<le> 1 / 8"
    using roundReal_le_dyadic [of "0.12" 1 "- 3"] by (simp add: powr_neg_numeral)
  have lo': "17 / 16 \<le> roundReal (1 + roundReal 0.12)"
    using roundReal_ge_dyadic [of 17 "- 4" "1 + roundReal 0.12"] lo hi by (simp add: powr_neg_numeral)
  have hi': "roundReal (1 + roundReal 0.12) \<le> 9 / 8"
    using roundReal_le_dyadic [of "1 + roundReal 0.12" 9 "- 3"] lo hi by (simp add: powr_neg_numeral)
  have "\<bar>1 + roundReal 0.12\<bar> < 2 ^ 53" using lo hi by simp
  then have "Fin 1 + COMBO_GROW_PER_GATE = Fin (roundReal (1 + roundReal 0.12))"
    by (simp add: g rd_small)
  then show ?thesis using lo' hi' by simp
qed

text \<open>
  C6 fails in the code when a sum or a product overflows. From the initial state,
  \<^verbatim>\<open>add(MAX_VALUE, "GATE")\<close> twice takes the score to \<^verbatim>\<open>Infinity\<close>;
  \<^verbatim>\<open>onGateCleared(0, 0, 0)\<close> raises the combo above 1; then
  \<^verbatim>\<open>add(-MAX_VALUE, "PENALTY", true)\<close> passes the finiteness check, its product with
  the combo overflows to \<^verbatim>\<open>-Infinity\<close>, and the score becomes
  \<^verbatim>\<open>Math.max(0, Infinity - Infinity)\<close>, which is \<^verbatim>\<open>NaN\<close>: not a number at least 0.
\<close>

theorem score_not_a_number_after_add:
  "score (add (Fin (- MAX_VALUE)) PENALTY True
       (runOps [Add (Fin MAX_VALUE) GATE True, Add (Fin MAX_VALUE) GATE True,
                OnGateCleared (Fin 0) (Fin 0) (Fin 0)] newScoreSystem)) = NaN
   \<and> \<not> Fin 0 \<le> score (add (Fin (- MAX_VALUE)) PENALTY True
       (runOps [Add (Fin MAX_VALUE) GATE True, Add (Fin MAX_VALUE) GATE True,
                OnGateCleared (Fin 0) (Fin 0) (Fin 0)] newScoreSystem))"
proof -
  define s1 where "s1 = add (Fin MAX_VALUE) GATE True newScoreSystem"
  define s2 where "s2 = add (Fin MAX_VALUE) GATE True s1"
  define s3 where "s3 = onGateCleared (Fin 0) (Fin 0) (Fin 0) s2"
  have m1: "Math_trunc (Fin MAX_VALUE) = Fin MAX_VALUE"
    "Math_trunc (Fin (- MAX_VALUE)) = Fin (- MAX_VALUE)"
    by (simp_all add: truncInt_MAX_VALUE)
  have c0: "combo newScoreSystem = Fin 1" "score newScoreSystem = Fin 0"
    "comboLock newScoreSystem = Fin 0"
    by (simp_all add: newScoreSystem_def)
  have a1: "score s1 = Fin MAX_VALUE"
    using MAX_VALUE_bounds(3)
    by (simp add: s1_def add_def Let_def m1 truncInt_MAX_VALUE c0 rd_MAX_VALUE max_def)
  have k1: "combo s1 = Fin 1" "comboLock s1 = Fin 0"
    by (simp_all add: s1_def c0 add_def Let_def)
  have "overflowAt \<le> 2 * MAX_VALUE"
    using MAX_VALUE_bounds(1) by (simp add: overflowAt_def)
  then have o: "rd (2 * MAX_VALUE) = PInf" by (rule rd_overflow)
  have a2: "score s2 = PInf"
    by (simp add: s2_def add_def Let_def m1 truncInt_MAX_VALUE k1 a1 rd_MAX_VALUE o)
  have k2: "combo s2 = Fin 1" "comboLock s2 = Fin 0"
    by (simp_all add: s2_def k1 add_def Let_def)
  from grown_combo obtain c where c: "Fin 1 + COMBO_GROW_PER_GATE = Fin c" "17 / 16 \<le> c" "c \<le> 9 / 8"
    by blast
  have cl: "clamp (Fin c) (Fin 1) (Fin 3) = Fin c"
    using c(2,3) by (simp add: clamp_def)
  have a3: "score s3 = PInf" and k3: "combo s3 = Fin c"
    by (simp_all add: s3_def onGateCleared_def Let_def add_def a2 k2 c(1) cl COMBO_MAX_def strictEq_def)
  have "MAX_VALUE * 17 / 16 \<le> MAX_VALUE * c"
    using c(2) MAX_VALUE_bounds(3) by simp
  moreover have "overflowAt \<le> MAX_VALUE * 17 / 16"
    by (simp add: overflowAt_def MAX_VALUE_def)
  ultimately have "- (MAX_VALUE * c) \<le> - overflowAt" by simp
  then have u: "rd (- (MAX_VALUE * c)) = NInf" by (rule rd_underflow)
  have "score (add (Fin (- MAX_VALUE)) PENALTY True s3) = NaN"
    using u by (simp add: add_def Let_def m1 truncInt_MAX_VALUE k3 a3)
  then show ?thesis by (simp add: s3_def s2_def s1_def)
qed

subsection \<open>The combo lock\<close>

lemma comboLock_add [simp]: "comboLock (add p r ac s) = comboLock s"
  by (simp add: add_def Let_def)

lemma comboLock_breakCombo [simp]: "comboLock (breakCombo f s) = comboLock s"
  by (simp add: breakCombo_def Let_def)

lemma score_breakCombo [simp]: "score (breakCombo f s) = score s"
  by (simp add: breakCombo_def Let_def)

lemma lock_value: "\<exists>l. COMBO_LOCK_SEC = Fin l \<and> 1 / 2 \<le> l \<and> l \<le> 3 / 4"
proof -
  have lo: "1 / 2 \<le> roundReal 0.55"
    using roundReal_ge_dyadic [of 1 "- 1" "0.55"] by (simp add: powr_neg_numeral)
  have hi: "roundReal 0.55 \<le> 3 / 4"
    using roundReal_le_dyadic [of "0.55" 3 "- 2"] by (simp add: powr_neg_numeral)
  show ?thesis using lo hi by (simp add: COMBO_LOCK_SEC_def num_small)
qed

lemma locked_mono: "locked e s \<Longrightarrow> r \<le> e \<Longrightarrow> locked r s"
  by (auto simp: locked_def)

lemma locked_onCrash: "Fin r < COMBO_LOCK_SEC \<Longrightarrow> locked r (onCrash sp s)"
proof -
  assume r: "Fin r < COMBO_LOCK_SEC"
  from lock_value obtain l where l: "COMBO_LOCK_SEC = Fin l" "l \<le> 3 / 4" by blast
  have a: "combo (onCrash sp s) = Fin 1" "comboLock (onCrash sp s) = Fin l"
    by (simp_all add: onCrash_def Let_def l(1))
  have "r < l" using r unfolding l(1) by simp
  then show ?thesis unfolding locked_def a using l(2) by simp
qed

lemma locked_onGateCleared: "0 \<le> r \<Longrightarrow> locked r s \<Longrightarrow> locked r (onGateCleared b cb sb s)"
  by (auto simp: locked_def onGateCleared_def Let_def)

lemma combo_update_one:
  assumes "combo s = Fin 1" and "Fin 0 \<le> dt"
  shows "combo (ScoreSystem_update dt s) = Fin 1"
proof -
  from combo_decay [OF _ _ decay_nonneg [OF assms(2)], of 1] obtain r where
    r: "Math_max (Fin 1) (Fin 1 - COMBO_DECAY_PER_SEC * dt) = Fin r" "1 \<le> r" "r \<le> 3"
    by auto
  have "Fin 1 - COMBO_DECAY_PER_SEC * dt \<le> Fin 1"
  proof -
    obtain k where k: "COMBO_DECAY_PER_SEC = Fin k" "0 < k" using decay_rate by blast
    from assms(2) consider d where "dt = Fin d" "0 \<le> d" | "dt = PInf" by (cases dt) auto
    then show ?thesis
    proof cases
      case 1
      have "0 \<le> roundReal (k * d)" using 1 k by (intro roundReal_nonneg) simp
      then have e: "Fin 0 \<le> Fin k * Fin d"
        using rd_ge_int [of 0 "k * d"] 1 k(2) by simp
      then consider x where "Fin k * Fin d = Fin x" "0 \<le> x" | "Fin k * Fin d = PInf"
        by (cases "Fin k * Fin d") auto
      then show ?thesis
      proof cases
        case (1 x)
        then have "1 - x \<le> of_int 1" by simp
        from rd_le_int [OF this] show ?thesis
          unfolding k(1) \<open>dt = Fin d\<close> 1(1) by simp
      next
        case 2
        then show ?thesis unfolding k(1) \<open>dt = Fin d\<close> by simp
      qed
    next
      case 2
      show ?thesis unfolding 2 k(1) using k(2) by simp
    qed
  qed
  then have "Math_max (Fin 1) (Fin 1 - COMBO_DECAY_PER_SEC * dt) = Fin 1"
    by (cases "Fin 1 - COMBO_DECAY_PER_SEC * dt") (auto simp: max_def)
  then show ?thesis
    using assms(1) by (simp add: ScoreSystem_update_def Let_def)
qed

lemma comboLock_update:
  "comboLock (ScoreSystem_update dt s) = Math_max (Fin 0) (comboLock s - dt)"
  by (simp add: ScoreSystem_update_def Let_def)

lemma locked_update:
  assumes "0 \<le> d" and "0 \<le> r" and "locked (d + 1 / 2 ^ 54 + r) s"
  shows "locked r (ScoreSystem_update (Fin d) s)"
proof -
  from assms(3) obtain l where l: "combo s = Fin 1" "comboLock s = Fin l"
      "d + 1 / 2 ^ 54 + r < l" "l \<le> 3 / 4"
    by (auto simp: locked_def)
  have x: "\<bar>l - d\<bar> < 1" using l assms by simp
  have hi: "roundReal (l - d) \<le> 3 / 4"
    using roundReal_le_dyadic [of "l - d" 3 "- 2"] l assms x by (simp add: powr_neg_numeral)
  have lo: "r < roundReal (l - d)"
    using roundReal_error [OF x] l(3) by linarith
  have "\<bar>l - d\<bar> < 2 ^ 53" using x by simp
  then have "comboLock (ScoreSystem_update (Fin d) s) = Fin (max 0 (roundReal (l - d)))"
    by (simp add: comboLock_update l(2) rd_small)
  moreover have "combo (ScoreSystem_update (Fin d) s) = Fin 1"
    using combo_update_one [OF l(1), of "Fin d"] assms(1) by simp
  ultimately show ?thesis using lo hi assms(2) by (simp add: locked_def)
qed

lemma elapsed_nonneg: "list_all finiteTime xs \<Longrightarrow> 0 \<le> elapsed xs"
  by (induction xs rule: elapsed.induct) auto

lemma locked_runOps:
  "list_all finiteTime xs \<Longrightarrow> elapsed xs + real (updates xs) / 2 ^ 54 \<le> e
     \<Longrightarrow> Fin e < COMBO_LOCK_SEC \<Longrightarrow> locked e s \<Longrightarrow> locked 0 (runOps xs s)"
proof (induction xs arbitrary: s e)
  case Nil
  then show ?case using locked_mono [of e s 0] by simp
next
  case (Cons x xs)
  have fw: "list_all finiteTime xs" using Cons.prems by simp
  have nn: "0 \<le> elapsed xs + real (updates xs) / 2 ^ 54"
    using elapsed_nonneg [OF fw] by simp
  show ?case
  proof (cases x)
    case (Update dt)
    from Cons.prems(1) Update obtain d where d: "dt = Fin d" "0 \<le> d"
      by (cases dt) auto
    define e' where "e' = e - d - 1 / 2 ^ 54"
    have b: "elapsed xs + real (updates xs) / 2 ^ 54 \<le> e'"
      using Cons.prems(2) Update d by (simp add: e'_def field_simps)
    have e': "0 \<le> e'" "e' \<le> e" using b nn d by (simp_all add: e'_def)
    have "locked (d + 1 / 2 ^ 54 + e') s" using Cons.prems(4) by (simp add: e'_def)
    from locked_update [OF d(2) e'(1) this]
    have lk: "locked e' (ScoreSystem_update (Fin d) s)" .
    obtain l where l: "COMBO_LOCK_SEC = Fin l" using lock_value by blast
    have "Fin e' < COMBO_LOCK_SEC" using Cons.prems(3) e'(2) by (simp add: l)
    from Cons.IH [OF fw b this lk] show ?thesis using Update d by simp
  next
    case (OnGateCleared b cb sb)
    have el: "elapsed xs + real (updates xs) / 2 ^ 54 \<le> e" using Cons.prems OnGateCleared by simp
    have "locked e (onGateCleared b cb sb s)"
      using locked_onGateCleared [of e] Cons.prems(4) el nn by simp
    from Cons.IH [OF fw el Cons.prems(3) this] show ?thesis using OnGateCleared by simp
  next
    case (OnCrash sp)
    have el: "elapsed xs + real (updates xs) / 2 ^ 54 \<le> e" using Cons.prems OnCrash by simp
    from Cons.IH [OF fw el Cons.prems(3) locked_onCrash [OF Cons.prems(3)]] show ?thesis
      using OnCrash by simp
  next
    case (Add p r ac)
    have el: "elapsed xs + real (updates xs) / 2 ^ 54 \<le> e" using Cons.prems Add by simp
    have "locked e (add p r ac s)" using Cons.prems(4) by (simp add: locked_def)
    from Cons.IH [OF fw el Cons.prems(3) this] show ?thesis using Add by simp
  next
    case (OnPenalty p)
    have el: "elapsed xs + real (updates xs) / 2 ^ 54 \<le> e" using Cons.prems OnPenalty by simp
    have "locked e (onPenalty p s)" using Cons.prems(4) by (simp add: locked_def onPenalty_def)
    from Cons.IH [OF fw el Cons.prems(3) this] show ?thesis using OnPenalty by simp
  next
    case (BreakCombo f)
    have el: "elapsed xs + real (updates xs) / 2 ^ 54 \<le> e" using Cons.prems BreakCombo by simp
    have "locked e (breakCombo f s)" using Cons.prems(4) by (simp add: locked_def)
    from Cons.IH [OF fw el Cons.prems(3) this] show ?thesis using BreakCombo by simp
  next
    case (SetGateTotal n)
    have el: "elapsed xs + real (updates xs) / 2 ^ 54 \<le> e" using Cons.prems SetGateTotal by simp
    have "locked e (setGateTotal n s)" using Cons.prems(4) by (simp add: locked_def setGateTotal_def)
    from Cons.IH [OF fw el Cons.prems(3) this] show ?thesis using SetGateTotal by simp
  qed
qed

text \<open>The score is \<^verbatim>\<open>NaN\<close> or at least 0 in every state a history leads to.\<close>

lemma Math_max_clamped: "Math_max (Fin 0) y = NaN \<or> Fin 0 \<le> Math_max (Fin 0) y"
  by (cases y) auto

lemma scoreClamped_add: "scoreClamped s \<Longrightarrow> scoreClamped (add p r ac s)"
  using Math_max_clamped by (simp add: scoreClamped_def add_def Let_def)

lemma score_update [simp]: "score (ScoreSystem_update dt s) = score s"
  by (simp add: ScoreSystem_update_def Let_def)

lemma scoreClamped_fields [simp]:
  "scoreClamped (s\<lparr>gatesPassed := a\<rparr>) = scoreClamped s"
  "scoreClamped (s\<lparr>streak := b\<rparr>) = scoreClamped s"
  "scoreClamped (s\<lparr>combo := c\<rparr>) = scoreClamped s"
  "scoreClamped (s\<lparr>comboLock := d\<rparr>) = scoreClamped s"
  "scoreClamped (s\<lparr>penaltyFlash := e\<rparr>) = scoreClamped s"
  "scoreClamped (s\<lparr>gatesTotal := f\<rparr>) = scoreClamped s"
  "scoreClamped (breakCombo fl s) = scoreClamped s"
  "scoreClamped (ScoreSystem_update dt s) = scoreClamped s"
  by (simp_all add: scoreClamped_def)

lemma scoreClamped_onGateCleared: "scoreClamped s \<Longrightarrow> scoreClamped (onGateCleared b cb sb s)"
  by (simp add: onGateCleared_def Let_def scoreClamped_add)

lemma scoreClamped_applyOp: "scoreClamped s \<Longrightarrow> scoreClamped (applyOp x s)"
  by (cases x)
     (simp_all add: scoreClamped_add scoreClamped_onGateCleared onPenalty_def onCrash_def
        Let_def setGateTotal_def)

lemma scoreClamped_runOps: "scoreClamped s \<Longrightarrow> scoreClamped (runOps xs s)"
  by (induction xs arbitrary: s) (simp_all add: scoreClamped_applyOp)

lemma scoreClamped_new: "scoreClamped newScoreSystem"
  by (simp add: scoreClamped_def newScoreSystem_def)

text \<open>Points at combo 1.\<close>

lemma unitPoints_nonneg: "0 \<le> x \<Longrightarrow> Fin 0 \<le> unitPoints (Fin x)"
proof -
  assume x: "0 \<le> x"
  have t: "0 \<le> (of_int (truncInt x) :: real)" using truncInt_nonneg [OF x] by simp
  then have "of_int 0 \<le> (of_int (truncInt x) :: real)" by simp
  from rd_ge_int [OF this] have "Fin 0 \<le> rd (of_int (truncInt x))" by simp
  then consider r where "rd (of_int (truncInt x)) = Fin r" "0 \<le> r" | "rd (of_int (truncInt x)) = PInf"
    by (cases "rd (of_int (truncInt x))") auto
  then show ?thesis
    by cases (simp_all add: unitPoints_def truncInt_nonneg)
qed

lemma clamped_sum:
  assumes "sc = NaN \<or> Fin 0 \<le> sc" and "Fin 0 \<le> a"
  shows "Math_max (Fin 0) (sc + a) = sc + a" and "sc + a = NaN \<or> Fin 0 \<le> sc + a"
proof -
  have "Math_max (Fin 0) (sc + a) = sc + a \<and> (sc + a = NaN \<or> Fin 0 \<le> sc + a)"
  proof (cases sc)
    case (Fin n)
    show ?thesis
    proof (cases a)
      case (Fin m)
      have "of_int 0 \<le> n + m" using assms \<open>sc = Fin n\<close> Fin by simp
      from rd_ge_int [OF this] have "Fin 0 \<le> rd (n + m)" by simp
      then show ?thesis unfolding \<open>sc = Fin n\<close> Fin
        by (cases "rd (n + m)") (auto simp: max_def)
    qed (use assms Fin in simp_all)
  next
    case PInf
    then show ?thesis using assms(2) by (cases a) simp_all
  qed (use assms in simp_all)
  then show "Math_max (Fin 0) (sc + a) = sc + a" and "sc + a = NaN \<or> Fin 0 \<le> sc + a"
    by simp_all
qed

lemma score_add_unit:
  assumes "combo s = Fin 1" and "scoreClamped s" and "0 \<le> x"
  shows "score (add (Fin x) r True s) = score s + unitPoints (Fin x)"
    and "scoreClamped (add (Fin x) r True s)"
proof -
  have "score (add (Fin x) r True s) = Math_max (Fin 0) (score s + unitPoints (Fin x))"
    using assms(1) by (simp add: add_def Let_def unitPoints_def)
  also have "\<dots> = score s + unitPoints (Fin x)"
    using assms(2) by (intro clamped_sum(1) unitPoints_nonneg assms(3)) (simp add: scoreClamped_def)
  finally show "score (add (Fin x) r True s) = score s + unitPoints (Fin x)" .
  show "scoreClamped (add (Fin x) r True s)" using assms(2) by (rule scoreClamped_add)
qed

lemma score_bonus_unit:
  assumes "combo s = Fin 1" and "scoreClamped s"
  shows "score (if Fin 0 < b then add b r True s else s) = credit (score s) b"
    and "scoreClamped (if Fin 0 < b then add b r True s else s)"
    and "combo (if Fin 0 < b then add b r True s else s) = Fin 1"
    and "comboLock (if Fin 0 < b then add b r True s else s) = comboLock s"
proof -
  show "score (if Fin 0 < b then add b r True s else s) = credit (score s) b"
  proof (cases b)
    case (Fin x)
    show ?thesis
    proof (cases "0 < x")
      case True
      then show ?thesis using Fin score_add_unit(1) [OF assms, of x r] by (simp add: credit_def)
    next
      case False
      then show ?thesis using Fin by (simp add: credit_def)
    qed
  qed (simp_all add: credit_def add_def)
  show "scoreClamped (if Fin 0 < b then add b r True s else s)"
    using assms(2) by (simp add: scoreClamped_add)
  show "combo (if Fin 0 < b then add b r True s else s) = Fin 1" using assms(1) by simp
  show "comboLock (if Fin 0 < b then add b r True s else s) = comboLock s" by simp
qed

lemma onGateCleared_locked:
  assumes "locked 0 s" and "scoreClamped s" and "0 \<le> b"
  shows "combo (onGateCleared (Fin b) cb sb s) = Fin 1"
    and "score (onGateCleared (Fin b) cb sb s)
           = credit (credit (score s + unitPoints (Fin b)) cb) sb"
proof -
  from assms(1) obtain l where l: "combo s = Fin 1" "comboLock s = Fin l" "0 < l"
    by (auto simp: locked_def)
  define s1 where "s1 = s\<lparr>gatesPassed := gatesPassed s + 1\<rparr>"
  define s2 where "s2 = add (Fin b) GATE True s1"
  define s3 where "s3 = (if Fin 0 < cb then add cb CENTER_BONUS True s2 else s2)"
  define s4 where "s4 = (if Fin 0 < sb then add sb SPEED_BONUS True s3 else s3)"
  have c1: "combo s1 = Fin 1" "scoreClamped s1" "score s1 = score s" "comboLock s1 = Fin l"
    using assms(2) by (simp_all add: s1_def l)
  have c2: "combo s2 = Fin 1" "comboLock s2 = Fin l" by (simp_all add: s2_def c1)
  have sc2: "score s2 = score s + unitPoints (Fin b)" "scoreClamped s2"
    unfolding s2_def using score_add_unit [OF c1(1,2) assms(3), of GATE] c1(3) by simp_all
  note b3 = score_bonus_unit [OF c2(1) sc2(2), of cb CENTER_BONUS, folded s3_def]
  note b4 = score_bonus_unit [OF b3(3) b3(2), of sb SPEED_BONUS, folded s4_def]
  have k4: "comboLock s4 = Fin l" using b4(4) b3(4) c2(2) by simp
  have eq: "onGateCleared (Fin b) cb sb s = s4\<lparr>streak := streak s4 + 1\<rparr>"
    unfolding onGateCleared_def Let_def s1_def [symmetric] s2_def [symmetric]
      s3_def [symmetric] s4_def [symmetric]
    using k4 l(3) by simp
  show "combo (onGateCleared (Fin b) cb sb s) = Fin 1" by (simp add: eq b4(3))
  show "score (onGateCleared (Fin b) cb sb s)
           = credit (credit (score s + unitPoints (Fin b)) cb) sb"
    by (simp add: eq b4(1) b3(1) sc2(1))
qed

text \<open>
  C8, as the code has it. The lock is counted down in doubles: every \<^verbatim>\<open>update(dt)\<close>
  replaces it by \<^verbatim>\<open>Math.max(0, comboLock - dt)\<close>, and the subtraction rounds, by at
  most \<open>2^-54\<close>. Let \<^verbatim>\<open>onCrash(speed)\<close> be called in the state a history of calls has
  led to. After any further calls whose updates (each \<^verbatim>\<open>dt\<close> finite and at least 0) add
  up, with an allowance of \<open>2^-54\<close> seconds for every update, to less than the lock time
  \<^verbatim>\<open>COMBO_LOCK_SEC\<close>, a call \<^verbatim>\<open>onGateCleared(base, centerBonus, speedBonus)\<close> with
  a finite \<open>base \<ge> 0\<close> leaves the combo at 1.0, the value the crash has set, which is not
  above the combo before the crash; and it adds its points to the score: the points of
  the base at combo 1, and those of each bonus that is positive and finite.
\<close>

theorem combo_lock_effective:
  assumes "list_all forwardTime pre" and "list_all finiteTime xs"
    and "Fin (elapsed xs + real (updates xs) / 2 ^ 54) < COMBO_LOCK_SEC" and "0 \<le> b"
  shows "combo (onGateCleared (Fin b) cb sb (runOps xs (onCrash speed (runOps pre newScoreSystem))))
           = Fin 1.0
       \<and> combo (onGateCleared (Fin b) cb sb (runOps xs (onCrash speed (runOps pre newScoreSystem))))
           \<le> combo (runOps pre newScoreSystem)
       \<and> score (onGateCleared (Fin b) cb sb (runOps xs (onCrash speed (runOps pre newScoreSystem))))
           = credit (credit (score (runOps xs (onCrash speed (runOps pre newScoreSystem)))
                             + unitPoints (Fin b)) cb) sb"
proof -
  define s0 where "s0 = runOps pre newScoreSystem"
  define s1 where "s1 = runOps xs (onCrash speed s0)"
  have lk: "locked 0 s1"
    unfolding s1_def
    by (rule locked_runOps [OF assms(2) order_refl assms(3) locked_onCrash [OF assms(3)]])
  have "scoreClamped (applyOp (OnCrash speed) s0)"
    unfolding s0_def by (intro scoreClamped_applyOp scoreClamped_runOps scoreClamped_new)
  then have cl: "scoreClamped s1"
    unfolding s1_def by (simp add: scoreClamped_runOps)
  from comboInRange_runOps [OF comboInRange_new assms(1)]
  obtain c where c: "combo s0 = Fin c" "1 \<le> c"
    by (auto simp: comboInRange_iff s0_def)
  note g = onGateCleared_locked [OF lk cl assms(4), of cb sb]
  show ?thesis
    using g c by (simp add: s0_def s1_def)
qed

text \<open>
  The instance: a gate cleared, a crash at speed 10, two updates of an eighth and a
  quarter of a second, and a clear: the combo stays at 1.
\<close>

theorem combo_lock_effective_witness:
  "list_all forwardTime [OnGateCleared (Fin 100) (Fin 80) (Fin 50)]
   \<and> list_all finiteTime [Update (Fin 0.125), Update (Fin 0.25)]
   \<and> Fin (elapsed [Update (Fin 0.125), Update (Fin 0.25)]
          + real (updates [Update (Fin 0.125), Update (Fin 0.25)]) / 2 ^ 54) < COMBO_LOCK_SEC
   \<and> combo (onGateCleared (Fin 100) (Fin 80) (Fin 50)
        (runOps [Update (Fin 0.125), Update (Fin 0.25)]
           (onCrash (Fin 10) (runOps [OnGateCleared (Fin 100) (Fin 80) (Fin 50)] newScoreSystem))))
      = Fin 1.0"
proof -
  have a: "list_all forwardTime [OnGateCleared (Fin 100) (Fin 80) (Fin 50)]" by simp
  have b: "list_all finiteTime [Update (Fin 0.125), Update (Fin 0.25)]" by simp
  obtain l where l: "COMBO_LOCK_SEC = Fin l" "1 / 2 \<le> l" using lock_value by blast
  have c: "Fin (elapsed [Update (Fin 0.125), Update (Fin 0.25)]
          + real (updates [Update (Fin 0.125), Update (Fin 0.25)]) / 2 ^ 54) < COMBO_LOCK_SEC"
    unfolding l(1) using l(2) by simp
  from combo_lock_effective [OF a b c, of 100 "Fin 80" "Fin 50" "Fin 10"] a b c
  show ?thesis by simp
qed

subsection \<open>The end of the lock window\<close>

text \<open>The doubles that \<^verbatim>\<open>0.022\<close> and \<^verbatim>\<open>0.55\<close> denote.\<close>

lemma roundReal_literals:
  "roundReal 0.022 = 3170534137668829 / 144115188075855872" "roundReal 0.55 = 2476979795053773 / 4503599627370496"
  by (subst roundReal_eval [where n = 6], simp, simp, simp, simp add: roundEven_def,
      subst roundReal_eval [where n = 1], simp, simp, simp, simp add: roundEven_def)

text \<open>
  The lock after a crash, counted down by 25 updates of \<^verbatim>\<open>0.022\<close> seconds: each
  subtraction, rounded.
\<close>

lemma lock_step_0: "Math_max (Fin 0) (Fin (2476979795053773 / 4503599627370496) - Fin (3170534137668829 / 144115188075855872)) = Fin (1188950301625811 / 2251799813685248)"
proof -
  have "roundReal (2476979795053773 / 4503599627370496 - 3170534137668829 / 144115188075855872) = 1188950301625811 / 2251799813685248"
    by (subst roundReal_eval [where n = 1]) (simp_all add: roundEven_def)
  then show ?thesis by (simp add: rd_small)
qed

lemma lock_step_1: "Math_max (Fin 0) (Fin (1188950301625811 / 2251799813685248) - Fin (3170534137668829 / 144115188075855872)) = Fin (2278821411449471 / 4503599627370496)"
proof -
  have "roundReal (1188950301625811 / 2251799813685248 - 3170534137668829 / 144115188075855872) = 2278821411449471 / 4503599627370496"
    by (subst roundReal_eval [where n = 1]) (simp_all add: roundEven_def)
  then show ?thesis by (simp add: rd_small)
qed

lemma lock_step_2: "Math_max (Fin 0) (Fin (2278821411449471 / 4503599627370496) - Fin (3170534137668829 / 144115188075855872)) = Fin (272467777455915 / 562949953421312)"
proof -
  have "roundReal (2278821411449471 / 4503599627370496 - 3170534137668829 / 144115188075855872) = 272467777455915 / 562949953421312"
    by (subst roundReal_eval [where n = 2]) (simp_all add: roundEven_def)
  then show ?thesis by (simp add: rd_small)
qed

lemma lock_step_3: "Math_max (Fin 0) (Fin (272467777455915 / 562949953421312) - Fin (3170534137668829 / 144115188075855872)) = Fin (2080663027845169 / 4503599627370496)"
proof -
  have "roundReal (272467777455915 / 562949953421312 - 3170534137668829 / 144115188075855872) = 2080663027845169 / 4503599627370496"
    by (subst roundReal_eval [where n = 2]) (simp_all add: roundEven_def)
  then show ?thesis by (simp add: rd_small)
qed

lemma lock_step_4: "Math_max (Fin 0) (Fin (2080663027845169 / 4503599627370496) - Fin (3170534137668829 / 144115188075855872)) = Fin (990791918021509 / 2251799813685248)"
proof -
  have "roundReal (2080663027845169 / 4503599627370496 - 3170534137668829 / 144115188075855872) = 990791918021509 / 2251799813685248"
    by (subst roundReal_eval [where n = 2]) (simp_all add: roundEven_def)
  then show ?thesis by (simp add: rd_small)
qed

lemma lock_step_5: "Math_max (Fin 0) (Fin (990791918021509 / 2251799813685248) - Fin (3170534137668829 / 144115188075855872)) = Fin (1882504644240867 / 4503599627370496)"
proof -
  have "roundReal (990791918021509 / 2251799813685248 - 3170534137668829 / 144115188075855872) = 1882504644240867 / 4503599627370496"
    by (subst roundReal_eval [where n = 2]) (simp_all add: roundEven_def)
  then show ?thesis by (simp add: rd_small)
qed

lemma lock_step_6: "Math_max (Fin 0) (Fin (1882504644240867 / 4503599627370496) - Fin (3170534137668829 / 144115188075855872)) = Fin (445856363109679 / 1125899906842624)"
proof -
  have "roundReal (1882504644240867 / 4503599627370496 - 3170534137668829 / 144115188075855872) = 445856363109679 / 1125899906842624"
    by (subst roundReal_eval [where n = 2]) (simp_all add: roundEven_def)
  then show ?thesis by (simp add: rd_small)
qed

lemma lock_step_7: "Math_max (Fin 0) (Fin (445856363109679 / 1125899906842624) - Fin (3170534137668829 / 144115188075855872)) = Fin (1684346260636565 / 4503599627370496)"
proof -
  have "roundReal (445856363109679 / 1125899906842624 - 3170534137668829 / 144115188075855872) = 1684346260636565 / 4503599627370496"
    by (subst roundReal_eval [where n = 2]) (simp_all add: roundEven_def)
  then show ?thesis by (simp add: rd_small)
qed

lemma lock_step_8: "Math_max (Fin 0) (Fin (1684346260636565 / 4503599627370496) - Fin (3170534137668829 / 144115188075855872)) = Fin (792633534417207 / 2251799813685248)"
proof -
  have "roundReal (1684346260636565 / 4503599627370496 - 3170534137668829 / 144115188075855872) = 792633534417207 / 2251799813685248"
    by (subst roundReal_eval [where n = 2]) (simp_all add: roundEven_def)
  then show ?thesis by (simp add: rd_small)
qed

lemma lock_step_9: "Math_max (Fin 0) (Fin (792633534417207 / 2251799813685248) - Fin (3170534137668829 / 144115188075855872)) = Fin (1486187877032263 / 4503599627370496)"
proof -
  have "roundReal (792633534417207 / 2251799813685248 - 3170534137668829 / 144115188075855872) = 1486187877032263 / 4503599627370496"
    by (subst roundReal_eval [where n = 2]) (simp_all add: roundEven_def)
  then show ?thesis by (simp add: rd_small)
qed

lemma lock_step_10: "Math_max (Fin 0) (Fin (1486187877032263 / 4503599627370496) - Fin (3170534137668829 / 144115188075855872)) = Fin (43347146413441 / 140737488355328)"
proof -
  have "roundReal (1486187877032263 / 4503599627370496 - 3170534137668829 / 144115188075855872) = 43347146413441 / 140737488355328"
    by (subst roundReal_eval [where n = 2]) (simp_all add: roundEven_def)
  then show ?thesis by (simp add: rd_small)
qed

lemma lock_step_11: "Math_max (Fin 0) (Fin (43347146413441 / 140737488355328) - Fin (3170534137668829 / 144115188075855872)) = Fin (1288029493427961 / 4503599627370496)"
proof -
  have "roundReal (43347146413441 / 140737488355328 - 3170534137668829 / 144115188075855872) = 1288029493427961 / 4503599627370496"
    by (subst roundReal_eval [where n = 2]) (simp_all add: roundEven_def)
  then show ?thesis by (simp add: rd_small)
qed

lemma lock_step_12: "Math_max (Fin 0) (Fin (1288029493427961 / 4503599627370496) - Fin (3170534137668829 / 144115188075855872)) = Fin (594475150812905 / 2251799813685248)"
proof -
  have "roundReal (1288029493427961 / 4503599627370496 - 3170534137668829 / 144115188075855872) = 594475150812905 / 2251799813685248"
    by (subst roundReal_eval [where n = 2]) (simp_all add: roundEven_def)
  then show ?thesis by (simp add: rd_small)
qed

lemma lock_step_13: "Math_max (Fin 0) (Fin (594475150812905 / 2251799813685248) - Fin (3170534137668829 / 144115188075855872)) = Fin (8718968878589273 / 36028797018963968)"
proof -
  have "roundReal (594475150812905 / 2251799813685248 - 3170534137668829 / 144115188075855872) = 8718968878589273 / 36028797018963968"
    by (subst roundReal_eval [where n = 3]) (simp_all add: roundEven_def)
  then show ?thesis by (simp add: rd_small)
qed

lemma lock_step_14: "Math_max (Fin 0) (Fin (8718968878589273 / 36028797018963968) - Fin (3170534137668829 / 144115188075855872)) = Fin (3963167672086033 / 18014398509481984)"
proof -
  have "roundReal (8718968878589273 / 36028797018963968 - 3170534137668829 / 144115188075855872) = 3963167672086033 / 18014398509481984"
    by (subst roundReal_eval [where n = 3]) (simp_all add: roundEven_def)
  then show ?thesis by (simp add: rd_small)
qed

lemma lock_step_15: "Math_max (Fin 0) (Fin (3963167672086033 / 18014398509481984) - Fin (3170534137668829 / 144115188075855872)) = Fin (7133701809754859 / 36028797018963968)"
proof -
  have "roundReal (3963167672086033 / 18014398509481984 - 3170534137668829 / 144115188075855872) = 7133701809754859 / 36028797018963968"
    by (subst roundReal_eval [where n = 3]) (simp_all add: roundEven_def)
  then show ?thesis by (simp add: rd_small)
qed

lemma lock_step_16: "Math_max (Fin 0) (Fin (7133701809754859 / 36028797018963968) - Fin (3170534137668829 / 144115188075855872)) = Fin (1585267068834413 / 9007199254740992)"
proof -
  have "roundReal (7133701809754859 / 36028797018963968 - 3170534137668829 / 144115188075855872) = 1585267068834413 / 9007199254740992"
    by (subst roundReal_eval [where n = 3]) (simp_all add: roundEven_def)
  then show ?thesis by (simp add: rd_small)
qed

lemma lock_step_17: "Math_max (Fin 0) (Fin (1585267068834413 / 9007199254740992) - Fin (3170534137668829 / 144115188075855872)) = Fin (5548434740920445 / 36028797018963968)"
proof -
  have "roundReal (1585267068834413 / 9007199254740992 - 3170534137668829 / 144115188075855872) = 5548434740920445 / 36028797018963968"
    by (subst roundReal_eval [where n = 3]) (simp_all add: roundEven_def)
  then show ?thesis by (simp add: rd_small)
qed

lemma lock_step_18: "Math_max (Fin 0) (Fin (5548434740920445 / 36028797018963968) - Fin (3170534137668829 / 144115188075855872)) = Fin (2377900603251619 / 18014398509481984)"
proof -
  have "roundReal (5548434740920445 / 36028797018963968 - 3170534137668829 / 144115188075855872) = 2377900603251619 / 18014398509481984"
    by (subst roundReal_eval [where n = 3]) (simp_all add: roundEven_def)
  then show ?thesis by (simp add: rd_small)
qed

lemma lock_step_19: "Math_max (Fin 0) (Fin (2377900603251619 / 18014398509481984) - Fin (3170534137668829 / 144115188075855872)) = Fin (3963167672086031 / 36028797018963968)"
proof -
  have "roundReal (2377900603251619 / 18014398509481984 - 3170534137668829 / 144115188075855872) = 3963167672086031 / 36028797018963968"
    by (subst roundReal_eval [where n = 4]) (simp_all add: roundEven_def)
  then show ?thesis by (simp add: rd_small)
qed

lemma lock_step_20: "Math_max (Fin 0) (Fin (3963167672086031 / 36028797018963968) - Fin (3170534137668829 / 144115188075855872)) = Fin (396316767208603 / 4503599627370496)"
proof -
  have "roundReal (3963167672086031 / 36028797018963968 - 3170534137668829 / 144115188075855872) = 396316767208603 / 4503599627370496"
    by (subst roundReal_eval [where n = 4]) (simp_all add: roundEven_def)
  then show ?thesis by (simp add: rd_small)
qed

lemma lock_step_21: "Math_max (Fin 0) (Fin (396316767208603 / 4503599627370496) - Fin (3170534137668829 / 144115188075855872)) = Fin (2377900603251617 / 36028797018963968)"
proof -
  have "roundReal (396316767208603 / 4503599627370496 - 3170534137668829 / 144115188075855872) = 2377900603251617 / 36028797018963968"
    by (subst roundReal_eval [where n = 4]) (simp_all add: roundEven_def)
  then show ?thesis by (simp add: rd_small)
qed

lemma lock_step_22: "Math_max (Fin 0) (Fin (2377900603251617 / 36028797018963968) - Fin (3170534137668829 / 144115188075855872)) = Fin (6341068275337639 / 144115188075855872)"
proof -
  have "roundReal (2377900603251617 / 36028797018963968 - 3170534137668829 / 144115188075855872) = 6341068275337639 / 144115188075855872"
    by (subst roundReal_eval [where n = 5]) (simp_all add: roundEven_def)
  then show ?thesis by (simp add: rd_small)
qed

lemma lock_step_23: "Math_max (Fin 0) (Fin (6341068275337639 / 144115188075855872) - Fin (3170534137668829 / 144115188075855872)) = Fin (1585267068834405 / 72057594037927936)"
proof -
  have "roundReal (6341068275337639 / 144115188075855872 - 3170534137668829 / 144115188075855872) = 1585267068834405 / 72057594037927936"
    by (subst roundReal_eval [where n = 6]) (simp_all add: roundEven_def)
  then show ?thesis by (simp add: rd_small)
qed

lemma lock_step_24: "Math_max (Fin 0) (Fin (1585267068834405 / 72057594037927936) - Fin (3170534137668829 / 144115188075855872)) = Fin 0"
proof -
  have "roundReal (1585267068834405 / 72057594037927936 - 3170534137668829 / 144115188075855872) \<le> 0" by (rule roundReal_nonpos) simp
  then show ?thesis by (simp add: rd_small max_def)
qed

lemma runOps_replicate_Update:
  "comboLock (runOps (replicate n (Update dt)) s)
     = ((\<lambda>l. Math_max (Fin 0) (l - dt)) ^^ n) (comboLock s)"
proof (induction n arbitrary: s)
  case 0
  show ?case by simp
next
  case (Suc n)
  define f where "f = (\<lambda>l. Math_max (Fin 0) (l - dt))"
  have "comboLock (runOps (replicate (Suc n) (Update dt)) s)
      = (f ^^ n) (comboLock (ScoreSystem_update dt s))"
    using Suc [of "ScoreSystem_update dt s"] by (simp add: f_def)
  also have "\<dots> = (f ^^ n) (f (comboLock s))" by (simp add: comboLock_update f_def)
  also have "\<dots> = (f ^^ Suc n) (comboLock s)" by (simp add: funpow_swap1)
  finally show ?case by (simp only: f_def)
qed

lemma combo_replicate_Update:
  "combo s = Fin 1 \<Longrightarrow> Fin 0 \<le> dt \<Longrightarrow> combo (runOps (replicate n (Update dt)) s) = Fin 1"
  by (induction n arbitrary: s) (simp_all add: combo_update_one)

lemma funpow_numeral: "(f ^^ numeral k) x = f ((f ^^ pred_numeral k) x)"
  by (simp add: numeral_eq_Suc)

lemma lock_after_25:
  "((\<lambda>l. Math_max (Fin 0) (l - Fin (3170534137668829 / 144115188075855872))) ^^ 25)
      (Fin (2476979795053773 / 4503599627370496)) = Fin 0"
  by (simp only: funpow_numeral pred_numeral_simps BitM.simps funpow_0 lock_step_0 lock_step_1 lock_step_2 lock_step_3 lock_step_4 lock_step_5
      lock_step_6 lock_step_7 lock_step_8 lock_step_9 lock_step_10 lock_step_11 lock_step_12
      lock_step_13 lock_step_14 lock_step_15 lock_step_16 lock_step_17 lock_step_18 lock_step_19
      lock_step_20 lock_step_21 lock_step_22 lock_step_23 lock_step_24)

text \<open>
  C8 as stated fails at the end of the window. After a crash, 25 updates of
  \<^verbatim>\<open>0.022\<close> seconds add up to less than 0.55 seconds (the sum of the 25 doubles is
  below both the real number 0.55 and the double \<^verbatim>\<open>0.55\<close>), but the 25 rounded
  subtractions have taken the lock to 0: a gate cleared then raises the combo above 1,
  its value at the crash.
\<close>

theorem combo_lock_expires_early:
  "list_all finiteTime (replicate 25 (Update (num 0.022)))
   \<and> elapsed (replicate 25 (Update (num 0.022))) < 0.55
   \<and> Fin (elapsed (replicate 25 (Update (num 0.022)))) < COMBO_LOCK_SEC
   \<and> combo newScoreSystem = Fin 1
   \<and> Fin 1 < combo (onGateCleared (Fin 100) (Fin 80) (Fin 50)
        (runOps (replicate 25 (Update (num 0.022))) (onCrash (Fin 10) newScoreSystem)))"
proof -
  have d: "num 0.022 = Fin (3170534137668829 / 144115188075855872)"
    using num_small [of "0.022"] unfolding roundReal_literals by simp
  have l: "COMBO_LOCK_SEC = Fin (2476979795053773 / 4503599627370496)"
    unfolding COMBO_LOCK_SEC_def using num_small [of "0.55"] unfolding roundReal_literals by simp
  have ft: "list_all finiteTime (replicate 25 (Update (num 0.022)))"
    unfolding d by (simp add: list_all_iff)
  have el: "elapsed (replicate n (Update (Fin x))) = real n * x" for n x
    by (induction n) (simp_all add: algebra_simps)
  have e: "elapsed (replicate 25 (Update (num 0.022))) = 25 * (3170534137668829 / 144115188075855872)"
    unfolding d el by simp
  define s0 where "s0 = onCrash (Fin 10) newScoreSystem"
  define s1 where "s1 = runOps (replicate 25 (Update (num 0.022))) s0"
  have c0: "combo s0 = Fin 1" "comboLock s0 = Fin (2476979795053773 / 4503599627370496)"
    by (simp_all add: s0_def onCrash_def Let_def l)
  have c1: "combo s1 = Fin 1"
    unfolding s1_def d by (rule combo_replicate_Update [OF c0(1)]) simp
  have k1: "comboLock s1 = Fin 0"
    unfolding s1_def runOps_replicate_Update c0(2) d by (rule lock_after_25)
  from grown_combo obtain c where c: "Fin 1 + COMBO_GROW_PER_GATE = Fin c" "17 / 16 \<le> c" "c \<le> 9 / 8"
    by blast
  have "combo (onGateCleared (Fin 100) (Fin 80) (Fin 50) s1) = Fin c"
    using c(2,3) by (simp add: onGateCleared_def Let_def c1 k1 c(1) clamp_def COMBO_MAX_def)
  then have "Fin 1 < combo (onGateCleared (Fin 100) (Fin 80) (Fin 50) s1)"
    using c(2) by simp
  then show ?thesis
    using ft e by (simp add: s1_def s0_def l newScoreSystem_def)
qed

section \<open>The course: theorems\<close>

subsection \<open>Lane choice\<close>

text \<open>The largest double below 1 is \<open>1 - 2^-53\<close>.\<close>

lemma unit_double:
  assumes "0 \<le> r" and "r < 1" and "roundReal r = r"
  shows "r \<le> 1 - 1 / 2 ^ 53"
proof (cases "r < 1 / 2")
  case True
  then show ?thesis by simp
next
  case False
  then have "1 / 2 ^ 1 \<le> \<bar>r\<bar>" "\<bar>r\<bar> < 2 / 2 ^ 1" using assms by simp_all
  from roundReal_eval [OF this] have "roundReal r = of_int (roundEven (r * 2 ^ 53)) / 2 ^ 53"
    by simp
  then have e: "r = of_int (roundEven (r * 2 ^ 53)) / 2 ^ 53" using assms(3) by simp
  then have "of_int (roundEven (r * 2 ^ 53)) < (2::real) ^ 53"
    using assms(2) by (simp add: field_simps)
  then have "of_int (roundEven (r * 2 ^ 53)) < (of_int (2 ^ 53) :: real)" by simp
  then have "roundEven (r * 2 ^ 53) < 2 ^ 53" by (simp only: of_int_less_iff)
  then have "roundEven (r * 2 ^ 53) \<le> 2 ^ 53 - 1" by simp
  then have "(of_int (roundEven (r * 2 ^ 53)) :: real) \<le> of_int (2 ^ 53 - 1)"
    by (simp only: of_int_le_iff)
  then have "of_int (roundEven (r * 2 ^ 53)) / 2 ^ 53 \<le> (of_int (2 ^ 53 - 1) :: real) / 2 ^ 53"
    by (simp add: divide_right_mono)
  then show ?thesis using e by (simp add: field_simps)
qed

lemma roundReal_less_int:
  assumes "0 < x" and "x < of_int m - 2 powr (of_int e - 53)" and "x < 2 powr (of_int e + 1)"
    and "- 1022 \<le> e" and "e \<le> 52"
  shows "roundReal x < of_int m"
proof -
  have x: "x \<noteq> 0" "\<bar>x\<bar> = x" using assms(1) by simp_all
  have b: "binade x \<le> e" using binade_le [OF x(1), of e] assms(3,4) x(2) by simp
  then have "spacing x \<le> 2 powr (of_int e - 52)" by (simp add: spacing_def)
  moreover have "(2::real) powr (of_int e - 52) = 2 * 2 powr (of_int e - 53)"
    using powr_add [of "2::real" "of_int e - 53" 1] by simp
  ultimately have s: "spacing x / 2 \<le> 2 powr (of_int e - 53)" by simp
  obtain j where j: "of_int m * 2 powr (of_int 0) / spacing x = of_int j"
    using grid_powr [of x 0 m] b assms(5) by auto
  then have j': "of_int m / spacing x = of_int j" by simp
  have "x < of_int m - spacing x / 2" using assms(2) s by linarith
  then have "x / spacing x < (of_int m - spacing x / 2) / spacing x"
    by (simp add: divide_strict_right_mono)
  also have "\<dots> = of_int j - 1 / 2" using j' by (simp add: diff_divide_distrib)
  finally have "roundEven (x / spacing x) < j" by (rule roundEven_less_int)
  then have "of_int (roundEven (x / spacing x)) < (of_int j :: real)" by simp
  then have "of_int (roundEven (x / spacing x)) * spacing x < of_int j * spacing x"
    by (simp add: mult_strict_right_mono)
  also have "of_int j * spacing x = of_int m" using j' [symmetric] by simp
  finally show ?thesis by (simp add: roundReal_def)
qed

lemma Rep_unitReal_bounds:
  "0 \<le> Rep_unitReal u" "Rep_unitReal u \<le> 1 - 1 / 2 ^ 53"
  using Rep_unitReal [of u] unit_double [of "Rep_unitReal u"] by simp_all

lemma randomIndex_less: "n = 2 \<or> n = 3 \<Longrightarrow> randomIndex rnd k n < n"
proof -
  assume n: "n = 2 \<or> n = 3"
  define r where "r = Rep_unitReal (rnd k)"
  have r: "0 \<le> r" "r \<le> 1 - 1 / 2 ^ 53" using Rep_unitReal_bounds [of "rnd k"] by (simp_all add: r_def)
  have "roundReal (r * real n) < real n"
  proof (cases "r = 0")
    case True
    then show ?thesis using n by auto
  next
    case False
    then have pos: "0 < r * real n" using r(1) n by auto
    from n show ?thesis
    proof
      assume n2: "n = 2"
      have "r * 2 < of_int 2 - 2 powr (of_int 0 - 53)" "r * 2 < 2 powr (of_int 0 + 1)"
        using r(2) by (simp_all add: powr_neg_numeral)
      from roundReal_less_int [OF _ this] pos show ?thesis by (simp add: n2)
    next
      assume n3: "n = 3"
      have "r * 3 < of_int 3 - 2 powr (of_int 1 - 53)" "r * 3 < 2 powr (of_int 1 + 1)"
        using r(2) by (simp_all add: powr_neg_numeral)
      from roundReal_less_int [OF _ this] pos show ?thesis by (simp add: n3)
    qed
  qed
  then have "\<lfloor>roundReal (r * real n)\<rfloor> < int n" by (simp add: floor_less_iff)
  then have "nat \<lfloor>roundReal (r * real n)\<rfloor> < n" using n by linarith
  then show ?thesis by (simp add: randomIndex_def r_def)
qed

lemma randomPick_mem: "length xs = 2 \<or> length xs = 3 \<Longrightarrow> randomPick rnd k xs \<in> set xs"
  using randomIndex_less [of "length xs" rnd k] by (simp add: randomPick_def)

lemma choices_length:
  "length (filter (\<lambda>x. x \<noteq> l) lanes) = 2 \<or> length (filter (\<lambda>x. x \<noteq> l) lanes) = 3"
  by (simp add: lanes_def)

lemma chooseLane_range: "fst (chooseLane rnd c) \<in> {- 1, 0, 1}"
proof -
  have a: "randomPick rnd k lanes \<in> {- 1, 0, 1}" for k
    using randomPick_mem [of lanes rnd k] by (simp add: lanes_def)
  have "randomPick rnd k (filter (\<lambda>x. x \<noteq> lastLane c) lanes) \<in> set (filter (\<lambda>x. x \<noteq> lastLane c) lanes)" for k
    by (rule randomPick_mem [OF choices_length])
  then have "randomPick rnd k (filter (\<lambda>x. x \<noteq> lastLane c) lanes) \<in> set lanes" for k
    by simp
  then have b: "randomPick rnd k (filter (\<lambda>x. x \<noteq> lastLane c) lanes) \<in> {- 1, 0, 1}" for k
    by (simp add: lanes_def)
  show ?thesis
    using a b by (simp add: chooseLane_def Let_def)
qed

lemma chooseLane_forced:
  assumes "2 \<le> sameLaneStreak c"
  shows "fst (chooseLane rnd c) \<noteq> lastLane c"
proof -
  have "randomPick rnd k (filter (\<lambda>x. x \<noteq> lastLane c) lanes) \<in> set (filter (\<lambda>x. x \<noteq> lastLane c) lanes)" for k
    by (rule randomPick_mem [OF choices_length])
  then have "randomPick rnd k (filter (\<lambda>x. x \<noteq> lastLane c) lanes) \<noteq> lastLane c" for k
    by simp
  then show ?thesis using assms by (simp add: chooseLane_def Let_def)
qed

lemma chooseLane_memory:
  "lastLane (snd (chooseLane rnd c)) = fst (chooseLane rnd c)"
  "sameLaneStreak (snd (chooseLane rnd c))
     = (if fst (chooseLane rnd c) = lastLane c then sameLaneStreak c + 1 else 0)"
  by (simp_all add: chooseLane_def Let_def)

lemma lead_three:
  "2 < length xs \<Longrightarrow> xs ! 0 = v \<Longrightarrow> xs ! 1 = v \<Longrightarrow> xs ! 2 = v \<Longrightarrow> 3 \<le> lead v xs"
  by (cases xs; cases "tl xs"; cases "tl (tl xs)") (auto simp: lead_def)

lemma spawnLanes_runs:
  "lead (lastLane c) (spawnLanes steps c) \<le> 2 - sameLaneStreak c
   \<and> (\<forall>i. i + 3 < length (spawnLanes steps c) \<longrightarrow>
         \<not> (spawnLanes steps c ! i = spawnLanes steps c ! (i + 1)
            \<and> spawnLanes steps c ! (i + 1) = spawnLanes steps c ! (i + 2)
            \<and> spawnLanes steps c ! (i + 2) = spawnLanes steps c ! (i + 3)))"
proof (induction steps arbitrary: c)
  case Nil
  show ?case by (simp add: lead_def)
next
  case (Cons st steps)
  obtain rnd k where st: "st = (rnd, k)" by (cases st)
  define c0 where "c0 = c\<lparr>draws := k\<rparr>"
  define l where "l = fst (chooseLane rnd c0)"
  define c' where "c' = snd (chooseLane rnd c0)"
  define ls where "ls = spawnLanes steps c'"
  have eq: "spawnLanes (st # steps) c = l # ls"
    by (simp add: st l_def c'_def ls_def c0_def Let_def)
  have mem: "lastLane c' = l"
      "sameLaneStreak c' = (if l = lastLane c then sameLaneStreak c + 1 else 0)"
    using chooseLane_memory [of rnd c0] by (simp_all add: l_def c'_def c0_def)
  from Cons.IH [of c'] have ih1: "lead l ls \<le> 2 - sameLaneStreak c'"
    and ih2: "\<And>i. i + 3 < length ls \<Longrightarrow>
         \<not> (ls ! i = ls ! (i + 1) \<and> ls ! (i + 1) = ls ! (i + 2) \<and> ls ! (i + 2) = ls ! (i + 3))"
    by (simp_all add: ls_def mem)
  have forced: "2 \<le> sameLaneStreak c \<Longrightarrow> l \<noteq> lastLane c"
    using chooseLane_forced [of c0 rnd] by (simp add: l_def c0_def)
  have a: "lead (lastLane c) (l # ls) \<le> 2 - sameLaneStreak c"
  proof (cases "l = lastLane c")
    case True
    then have "sameLaneStreak c < 2" using forced by force
    moreover have "lead (lastLane c) (l # ls) = Suc (lead l ls)" using True by (simp add: lead_def)
    ultimately show ?thesis using ih1 mem True by simp
  next
    case False
    then show ?thesis by (simp add: lead_def)
  qed
  have b: "\<not> ((l # ls) ! i = (l # ls) ! (i + 1) \<and> (l # ls) ! (i + 1) = (l # ls) ! (i + 2)
            \<and> (l # ls) ! (i + 2) = (l # ls) ! (i + 3))" if i: "i + 3 < length (l # ls)" for i
  proof (cases i)
    case 0
    show ?thesis
    proof
      assume h: "(l # ls) ! i = (l # ls) ! (i + 1) \<and> (l # ls) ! (i + 1) = (l # ls) ! (i + 2)
            \<and> (l # ls) ! (i + 2) = (l # ls) ! (i + 3)"
      then have "ls ! 0 = l" "ls ! 1 = l" "ls ! 2 = l" using 0 by (simp_all add: numeral_3_eq_3 numeral_2_eq_2)
      moreover have "2 < length ls" using i 0 by simp
      ultimately have "3 \<le> lead l ls" by (rule_tac lead_three)
      then show False using ih1 by simp
    qed
  next
    case (Suc j)
    then have "j + 3 < length ls" using i by simp
    from ih2 [OF this] show ?thesis using Suc by (simp add: add.commute [of 3])
  qed
  show ?case unfolding eq using a b by blast
qed

lemma spawnLanes_range: "set (spawnLanes steps c) \<subseteq> {- 1, 0, 1}"
proof (induction steps arbitrary: c)
  case Nil
  show ?case by simp
next
  case (Cons st steps)
  obtain rnd k where st: "st = (rnd, k)" by (cases st)
  show ?case
    using chooseLane_range [of rnd "c\<lparr>draws := k\<rparr>"]
      Cons.IH [of "snd (chooseLane rnd (c\<lparr>draws := k\<rparr>))"]
    by (simp add: st Let_def)
qed

lemma spawnLanes_length: "length (spawnLanes steps c) = length steps"
  by (induction steps arbitrary: c) (auto simp: Let_def)

text \<open>
  C7. For every course \<open>c\<close> and every sequence of spawn decisions from it, whatever
  \<^verbatim>\<open>Math.random()\<close> returns: every chosen lane is -1, 0 or 1; no four consecutive
  spawns choose the same lane, so no lane repeats more than 3 times in a row; and
  whenever the same-lane streak has reached 2, the lane chosen next differs from the
  last lane.
\<close>

theorem lane_run_length_bound:
  "set (spawnLanes steps c) \<subseteq> {- 1, 0, 1}
   \<and> (\<forall>i. i + 3 < length (spawnLanes steps c) \<longrightarrow>
         \<not> (spawnLanes steps c ! i = spawnLanes steps c ! (i + 1)
            \<and> spawnLanes steps c ! (i + 1) = spawnLanes steps c ! (i + 2)
            \<and> spawnLanes steps c ! (i + 2) = spawnLanes steps c ! (i + 3)))
   \<and> (2 \<le> sameLaneStreak c \<longrightarrow> fst (chooseLane rnd c) \<noteq> lastLane c)"
  using spawnLanes_range [of steps c] spawnLanes_runs [of c steps] chooseLane_forced [of c rnd]
  by blast

subsection \<open>The tick, gate by gate\<close>

lemma recycleLoop_length:
  "length (fst (recycleLoop rnd pos fwd gs c)) = length gs"
  "length (fst (snd (recycleLoop rnd pos fwd gs c))) = length gs"
  by (induction gs arbitrary: c) (simp_all add: Let_def)

lemma recycleLoop_nth:
  "i < length gs \<Longrightarrow>
     fst (recycleLoop rnd pos fwd gs c) ! i
       = fst (recycleGate rnd pos fwd (gs ! i) (loopState rnd pos fwd gs c i))
   \<and> fst (snd (recycleLoop rnd pos fwd gs c)) ! i
       = fst (snd (recycleGate rnd pos fwd (gs ! i) (loopState rnd pos fwd gs c i)))"
proof (induction gs arbitrary: c i)
  case Nil
  then show ?case by simp
next
  case (Cons g gs)
  show ?case
  proof (cases i)
    case 0
    then show ?thesis by (simp add: loopState_def Let_def)
  next
    case (Suc j)
    then have j: "j < length gs" using Cons.prems by simp
    define c' where "c' = snd (snd (recycleGate rnd pos fwd g c))"
    have ls: "loopState rnd pos fwd (g # gs) c (Suc j) = loopState rnd pos fwd gs c' j"
      by (simp add: loopState_def c'_def Let_def)
    show ?thesis using Cons.IH [OF j, of c'] Suc ls by (simp add: Let_def c'_def)
  qed
qed

lemma passLoop_nth:
  "i < length gs \<Longrightarrow> fst (passLoop pos speed gs) ! i = fst (passGate pos speed (gs ! i))
     \<and> snd (passLoop pos speed gs) ! i = snd (passGate pos speed (gs ! i))"
  by (simp add: passLoop_def)

lemma GateCourse_calls_nth:
  assumes "i < length (gates c)"
    and fwd_def: "fwd = getForward quat velXZ c"
    and ci_def: "ci = loopState rnd pos fwd (gates c) (c\<lparr>fallbackForward := fwd\<rparr>) i"
    and r_def: "r = recycleGate rnd pos fwd (gates c ! i) ci"
  shows "gates (fst (GateCourse_calls rnd dt pos speed quat velXZ c)) ! i = fst (passGate pos speed (fst r))"
    and "fst (snd (GateCourse_calls rnd dt pos speed quat velXZ c)) ! i = fst (snd r)"
    and "snd (snd (GateCourse_calls rnd dt pos speed quat velXZ c)) ! i = snd (passGate pos speed (fst r))"
    and "length (gates (fst (GateCourse_calls rnd dt pos speed quat velXZ c))) = length (gates c)"
proof -
  define c0 where "c0 = c\<lparr>fallbackForward := fwd\<rparr>"
  obtain gs1 calls1 c1 where l: "recycleLoop rnd pos fwd (gates c0) c0 = (gs1, calls1, c1)"
    by (cases "recycleLoop rnd pos fwd (gates c0) c0")
  have g0: "gates c0 = gates c" by (simp add: c0_def)
  have len: "length gs1 = length (gates c)"
    using recycleLoop_length(1) [of rnd pos fwd "gates c0" c0] l g0 by simp
  have nth: "gs1 ! i = fst r" "calls1 ! i = fst (snd r)"
    using recycleLoop_nth [of i "gates c0" rnd pos fwd c0] assms(1) l g0
    by (simp_all add: r_def ci_def c0_def)
  have eq: "GateCourse_calls rnd dt pos speed quat velXZ c
      = (c1\<lparr>gates := fst (passLoop pos speed gs1)\<rparr>, calls1, snd (passLoop pos speed gs1))"
    using l by (simp add: GateCourse_calls_def Let_def fwd_def c0_def)
  show "gates (fst (GateCourse_calls rnd dt pos speed quat velXZ c)) ! i = fst (passGate pos speed (fst r))"
    using passLoop_nth [of i gs1 pos speed] assms(1) len nth by (simp add: eq)
  show "fst (snd (GateCourse_calls rnd dt pos speed quat velXZ c)) ! i = fst (snd r)"
    using nth by (simp add: eq)
  show "snd (snd (GateCourse_calls rnd dt pos speed quat velXZ c)) ! i = snd (passGate pos speed (fst r))"
    using passLoop_nth [of i gs1 pos speed] assms(1) len nth by (simp add: eq)
  show "length (gates (fst (GateCourse_calls rnd dt pos speed quat velXZ c))) = length (gates c)"
    using len by (simp add: eq passLoop_def)
qed

lemma recycleGate_kept:
  "\<not> shouldRecycle pos fwd g \<Longrightarrow>
     passed (fst (recycleGate rnd pos fwd g c)) = passed g
     \<and> position (group (fst (recycleGate rnd pos fwd g c))) = position (group g)
     \<and> fst (snd (recycleGate rnd pos fwd g c)) = []"
  by (simp add: recycleGate_def Let_def)

lemma passGate_passed: "passed g \<Longrightarrow> passGate pos speed g = (g, [])"
  by (simp add: passGate_def)


lemma tick_passed_kept:
  assumes "i < length (gates c)" "passed (gates c ! i)" "\<not> recycledIn t c i"
  shows "snd (snd (tickCalls rnd t c)) ! i = []"
    and "passed (gates (fst (tickCalls rnd t c)) ! i)"
    and "length (gates (fst (tickCalls rnd t c))) = length (gates c)"
proof -
  obtain dt pos speed quat velXZ where t: "t = (dt, pos, speed, quat, velXZ)"
    by (cases t)
  define fwd where "fwd = getForward quat velXZ c"
  define ci where "ci = loopState rnd pos fwd (gates c) (c\<lparr>fallbackForward := fwd\<rparr>) i"
  define r where "r = recycleGate rnd pos fwd (gates c ! i) ci"
  note n = GateCourse_calls_nth [OF assms(1) fwd_def ci_def r_def, of dt speed]
  have nr: "\<not> shouldRecycle pos fwd (gates c ! i)"
    using assms(3) by (simp add: recycledIn_def t fwd_def)
  have p: "passed (fst r)"
    using recycleGate_kept [OF nr, of rnd ci] assms(2) by (simp add: r_def)
  show "snd (snd (tickCalls rnd t c)) ! i = []"
    using n(3) passGate_passed [OF p] by (simp add: tickCalls_def t)
  show "passed (gates (fst (tickCalls rnd t c)) ! i)"
    using n(1) passGate_passed [OF p] p by (simp add: tickCalls_def t)
  show "length (gates (fst (tickCalls rnd t c))) = length (gates c)"
    using n(4) by (simp add: tickCalls_def t)
qed

lemma respawnGate_flags:
  "passed (fst (respawnGate rnd pos fwd g c)) = False"
  "wasAhead (fst (respawnGate rnd pos fwd g c)) = False"
  by (simp_all add: respawnGate_def Let_def)

subsection \<open>No double credit\<close>

text \<open>
  C2. Take any gate of any course whose \<^verbatim>\<open>passed\<close> flag is set, and any sequence of
  ticks in none of which the first loop recycles that gate. Then the pass checks of the
  gate make no call on the score system in any of these ticks (no \<^verbatim>\<open>onGateCleared\<close>,
  no credit), and the flag is still set after them. Only \<^verbatim>\<open>respawnGate\<close>, on the
  recycle path, resets the flag (lemma \<open>respawnGate_flags\<close>).
\<close>

theorem no_double_credit:
  assumes "i < length (gates c)" and "passed (gates c ! i)" and "neverRecycled rnd i ts c"
  shows "clearedCalls rnd i ts c = [] \<and> passed (gates (afterTicks rnd ts c) ! i)"
  using assms
proof (induction ts arbitrary: c)
  case Nil
  then show ?case by simp
next
  case (Cons t ts)
  have nr: "\<not> recycledIn t c i" and rest: "neverRecycled rnd i ts (fst (tickCalls rnd t c))"
    using Cons.prems(3) by simp_all
  note k = tick_passed_kept [OF Cons.prems(1,2) nr, of rnd]
  have "i < length (gates (fst (tickCalls rnd t c)))" using k(3) Cons.prems(1) by simp
  from Cons.IH [OF this k(2) rest] k(1) show ?case by simp
qed

subsection \<open>Evaluation at the initial course\<close>

lemma Rep_rnd0 [simp]: "Rep_unitReal (rnd0 k) = 0"
  by (simp add: rnd0_def Abs_unitReal_inverse)

lemma buildGates_nth: "length buildGates = 22" "i < 22 \<Longrightarrow> buildGates ! i = buildGate i"
  by (simp_all add: buildGates_def gateCount_def)

lemma gates_new: "length (gates newGateCourse) = 22" "i < 22 \<Longrightarrow> gates newGateCourse ! i = buildGate i"
  by (simp_all add: newGateCourse_def buildGates_nth)

lemma verticalCenter_self [simp]: "verticalCenter - verticalCenter = Fin 0"
  by (simp add: verticalCenter_def num_small)

lemma verticalCenter_not_NaN [simp]: "verticalCenter \<noteq> NaN"
  by (simp add: verticalCenter_def num_def)

lemma flip_threshold: "Fin 0 < num 0.35"
proof -
  have "0 < roundReal 0.35" by (rule roundReal_pos [of "- 2"]) (simp_all add: powr_neg_numeral)
  then show ?thesis by (simp add: num_small)
qed

lemma half_extents: "gateW * Fin (1 / 2) = Fin (21 / 4)" "gateH * Fin (1 / 2) = Fin 3"
proof -
  have "roundReal (21 / 4) \<le> 21 / 4"
    using roundReal_le_dyadic [of "21 / 4" 21 "- 2"] by (simp add: powr_neg_numeral)
  moreover have "21 / 4 \<le> roundReal (21 / 4)"
    using roundReal_ge_dyadic [of 21 "- 2" "21 / 4"] by (simp add: powr_neg_numeral)
  ultimately have "roundReal (21 / 4) = 21 / 4" by simp
  then show "gateW * Fin (1 / 2) = Fin (21 / 4)" by (simp add: gateW_def rd_small)
  show "gateH * Fin (1 / 2) = Fin 3" by (simp add: gateH_def)
qed

lemma sqrt_108900: "sqrt 108900 = 330"
  by (rule real_sqrt_unique) simp_all

lemma forward_new: "getForward None None newGateCourse = Vector3 (Fin 0) (Fin 0) (Fin (- 1))"
  by (simp add: getForward_def newGateCourse_def)

lemma buildGate_position:
  "position (group (buildGate 0)) = Vector3 (Fin 0) verticalCenter (Fin (- 80))"
  "position (group (buildGate 21)) = Vector3 (Fin 0) verticalCenter (Fin (- 458))"
  by (simp_all add: buildGate_def)

lemma buildGate_flags [simp]: "\<not> passed (buildGate i)" "\<not> wasAhead (buildGate i)"
  by (simp_all add: buildGate_def)

text \<open>
  C7 at an instance: four spawns from the initial course with every outcome 0 choose
  the lanes -1, 0, -1, 0; and at a streak of 2 the lane chosen differs from the last.
\<close>

theorem lane_run_length_bound_witness:
  "spawnLanes [(rnd0, 0), (rnd0, 5), (rnd0, 10), (rnd0, 15)] newGateCourse = [- 1, 0, - 1, 0]
   \<and> 0 + 3 < length (spawnLanes [(rnd0, 0), (rnd0, 5), (rnd0, 10), (rnd0, 15)] newGateCourse)
   \<and> \<not> (spawnLanes [(rnd0, 0), (rnd0, 5), (rnd0, 10), (rnd0, 15)] newGateCourse ! 0
          = spawnLanes [(rnd0, 0), (rnd0, 5), (rnd0, 10), (rnd0, 15)] newGateCourse ! (0 + 1)
        \<and> spawnLanes [(rnd0, 0), (rnd0, 5), (rnd0, 10), (rnd0, 15)] newGateCourse ! (0 + 1)
          = spawnLanes [(rnd0, 0), (rnd0, 5), (rnd0, 10), (rnd0, 15)] newGateCourse ! (0 + 2)
        \<and> spawnLanes [(rnd0, 0), (rnd0, 5), (rnd0, 10), (rnd0, 15)] newGateCourse ! (0 + 2)
          = spawnLanes [(rnd0, 0), (rnd0, 5), (rnd0, 10), (rnd0, 15)] newGateCourse ! (0 + 3))
   \<and> 2 \<le> sameLaneStreak (newGateCourse\<lparr>sameLaneStreak := 2\<rparr>)
   \<and> fst (chooseLane rnd0 (newGateCourse\<lparr>sameLaneStreak := 2\<rparr>))
       \<noteq> lastLane (newGateCourse\<lparr>sameLaneStreak := 2\<rparr>)"
proof -
  have ls: "spawnLanes [(rnd0, 0), (rnd0, 5), (rnd0, 10), (rnd0, 15)] newGateCourse = [- 1, 0, - 1, 0]"
    using flip_threshold
    by (simp add: Let_def chooseLane_def newGateCourse_def randomPick_def randomIndex_def
        lanes_def Math_random_def)
  have len: "0 + 3 < length (spawnLanes [(rnd0, 0), (rnd0, 5), (rnd0, 10), (rnd0, 15)] newGateCourse)"
    unfolding spawnLanes_length by simp
  have st: "2 \<le> sameLaneStreak (newGateCourse\<lparr>sameLaneStreak := 2\<rparr>)" by simp
  note b = lane_run_length_bound [of "[(rnd0, 0), (rnd0, 5), (rnd0, 10), (rnd0, 15)]" newGateCourse rnd0]
  note b2 = lane_run_length_bound [of "[]" "newGateCourse\<lparr>sameLaneStreak := 2\<rparr>" rnd0]
  from b len have "\<not> (spawnLanes [(rnd0, 0), (rnd0, 5), (rnd0, 10), (rnd0, 15)] newGateCourse ! 0
          = spawnLanes [(rnd0, 0), (rnd0, 5), (rnd0, 10), (rnd0, 15)] newGateCourse ! (0 + 1)
        \<and> spawnLanes [(rnd0, 0), (rnd0, 5), (rnd0, 10), (rnd0, 15)] newGateCourse ! (0 + 1)
          = spawnLanes [(rnd0, 0), (rnd0, 5), (rnd0, 10), (rnd0, 15)] newGateCourse ! (0 + 2)
        \<and> spawnLanes [(rnd0, 0), (rnd0, 5), (rnd0, 10), (rnd0, 15)] newGateCourse ! (0 + 2)
          = spawnLanes [(rnd0, 0), (rnd0, 5), (rnd0, 10), (rnd0, 15)] newGateCourse ! (0 + 3))"
    by blast
  moreover from b2 st have "fst (chooseLane rnd0 (newGateCourse\<lparr>sameLaneStreak := 2\<rparr>))
       \<noteq> lastLane (newGateCourse\<lparr>sameLaneStreak := 2\<rparr>)"
    by blast
  ultimately show ?thesis using ls len st by blast
qed

subsection \<open>The pass check\<close>

lemma loopState_0 [simp]: "loopState rnd pos fwd gs c 0 = c"
  by (simp add: loopState_def)

lemma lookAt_position [simp]: "position (lookAt target g) = position g"
  by (simp add: lookAt_def split: prod.split)

lemma lookAt_flash [simp]: "flash (lookAt target g) = flash g"
  by (simp add: lookAt_def split: prod.split)

lemma worldToLocal_flash [simp]:
  "worldToLocal (g\<lparr>flash := f\<rparr>) pos = worldToLocal g pos"
  by (simp add: worldToLocal_def)

lemma inside_flash [simp]: "inside (flashGate g) pos = inside g pos"
  by (simp add: inside_def flashGate_def)

lemma passGate_transform [simp]:
  "position (group (fst (passGate pos speed g))) = position (group g)"
  "basisX (group (fst (passGate pos speed g))) = basisX (group g)"
  "basisY (group (fst (passGate pos speed g))) = basisY (group g)"
  "basisZ (group (fst (passGate pos speed g))) = basisZ (group g)"
  "lane (fst (passGate pos speed g)) = lane g"
  by (simp_all add: passGate_def Let_def flashGate_def)

lemma inside_passGate [simp]:
  "inside (group (fst (passGate pos' speed g))) pos = inside (group g) pos"
  by (simp add: inside_def worldToLocal_def)


lemma passGate_wasAhead:
  "\<not> wasAhead g \<Longrightarrow> \<not> wasAhead (fst (passGate pos speed g))"
  by (simp add: passGate_def Let_def)

lemma passGate_center:
  assumes "\<not> passed g" and "worldToLocal (group g) pos = Vector3 (Fin 0) (Fin 0) lz"
    and "\<not> triggerDepth * Fin 0.5 < Math_abs lz"
  shows "passGate pos (Fin 18) g
       = (g\<lparr>passed := True, wasAhead := False, group := flashGate (group g)\<rparr>,
          [OnGateCleared (Fin 100) (Fin 80) (Fin 50)])"
  using assms
  by (simp add: passGate_def Let_def half_extents clamp_def
      centerBonusMax_def speedBonusMax_def speedForMax_def basePoints_def)

lemma first_gate_of_tick:
  "gates (fst (GateCourse_calls rnd dt pos speed None None newGateCourse)) ! 0
     = fst (passGate pos speed (fst (recycleGate rnd pos (Vector3 (Fin 0) (Fin 0) (Fin (- 1)))
         (buildGate 0) newGateCourse)))"
  "snd (snd (GateCourse_calls rnd dt pos speed None None newGateCourse)) ! 0
     = snd (passGate pos speed (fst (recycleGate rnd pos (Vector3 (Fin 0) (Fin 0) (Fin (- 1)))
         (buildGate 0) newGateCourse)))"
proof -
  have i: "0 < length (gates newGateCourse)" by (simp add: gates_new)
  have c: "newGateCourse\<lparr>fallbackForward := Vector3 (Fin 0) (Fin 0) (Fin (- 1))\<rparr> = newGateCourse"
    by (simp add: newGateCourse_def)
  note n = GateCourse_calls_nth [where quat = None and velXZ = None and rnd = rnd and pos = pos
      and dt = dt and speed = speed, OF i refl refl refl]
  show "gates (fst (GateCourse_calls rnd dt pos speed None None newGateCourse)) ! 0
     = fst (passGate pos speed (fst (recycleGate rnd pos (Vector3 (Fin 0) (Fin 0) (Fin (- 1)))
         (buildGate 0) newGateCourse)))"
    using n(1) by (simp add: forward_new c gates_new)
  show "snd (snd (GateCourse_calls rnd dt pos speed None None newGateCourse)) ! 0
     = snd (passGate pos speed (fst (recycleGate rnd pos (Vector3 (Fin 0) (Fin 0) (Fin (- 1)))
         (buildGate 0) newGateCourse)))"
    using n(3) by (simp add: forward_new c gates_new)
qed

text \<open>The agent in the centre of gate 0 of the initial course.\<close>

lemma gate0_kept:
  "fst (recycleGate rnd (Vector3 (Fin 0) verticalCenter (Fin (- 80)))
      (Vector3 (Fin 0) (Fin 0) (Fin (- 1))) (buildGate 0) c) = buildGate 0"
  "\<not> shouldRecycle (Vector3 (Fin 0) verticalCenter (Fin (- 80)))
      (Vector3 (Fin 0) (Fin 0) (Fin (- 1))) (buildGate 0)"
  by (simp_all add: recycleGate_def shouldRecycle_def Let_def buildGate_position sub3_def dot3_def
      length3_def behindRecycle_def farRecycle_def)

lemma gate0_local:
  "worldToLocal (group (buildGate 0)) (Vector3 (Fin 0) verticalCenter (Fin (- 80)))
     = Vector3 (Fin 0) (Fin 0) (Fin 0)"
  using buildGate_position(1)
  by (simp add: worldToLocal_def Let_def sub3_def dot3_def buildGate_def)

lemma gate0_depth: "\<not> triggerDepth * Fin 0.5 < Math_abs (Fin 0)"
proof -
  have "0 \<le> roundReal 3.2" by (rule roundReal_nonneg) simp
  then have "of_int 0 \<le> roundReal 3.2 * 0.5" by simp
  from rd_ge_int [OF this] have "Fin 0 \<le> rd (roundReal 3.2 * 0.5)" by simp
  then have "\<not> rd (roundReal 3.2 * 0.5) < Fin 0"
    by (cases "rd (roundReal 3.2 * 0.5)") auto
  then show ?thesis by (simp add: triggerDepth_def num_small)
qed

lemma chooseLane_fallbackForward [simp]:
  "fallbackForward (snd (chooseLane rnd c)) = fallbackForward c"
  by (simp add: chooseLane_def Let_def)

lemma respawnGate_fallbackForward [simp]:
  "fallbackForward (snd (respawnGate rnd pos fwd g c)) = fallbackForward c"
  by (simp add: respawnGate_def Let_def setGateGlow_def)

lemma recycleGate_fallbackForward [simp]:
  "fallbackForward (snd (snd (recycleGate rnd pos fwd g c))) = fallbackForward c"
  by (simp add: recycleGate_def Let_def)

lemma recycleLoop_fallbackForward [simp]:
  "fallbackForward (snd (snd (recycleLoop rnd pos fwd gs c))) = fallbackForward c"
  by (induction gs arbitrary: c) (simp_all add: Let_def)

lemma GateCourse_calls_fallbackForward:
  "fallbackForward (fst (GateCourse_calls rnd dt pos speed quat velXZ c)) = getForward quat velXZ c"
  by (simp add: GateCourse_calls_def Let_def)

text \<open>
  C2 at an instance: gate 0 of the initial course is passed by a tick at its centre; in
  the two ticks that follow, at the same place, it is not recycled and makes no call.
\<close>

lemma gate0_after_pass:
  "gates (fst (tickCalls rnd0 tickAtGate0 newGateCourse)) ! 0
     = (buildGate 0)\<lparr>passed := True, wasAhead := False, group := flashGate (group (buildGate 0))\<rparr>"
  "snd (snd (tickCalls rnd0 tickAtGate0 newGateCourse)) ! 0 = [OnGateCleared (Fin 100) (Fin 80) (Fin 50)]"
  using passGate_center [OF buildGate_flags(1) gate0_local gate0_depth]
  by (simp_all add: tickCalls_def tickAtGate0_def first_gate_of_tick gate0_kept)

theorem no_double_credit_witness:
  "0 < length (gates (fst (tickCalls rnd0 tickAtGate0 newGateCourse)))
   \<and> passed (gates (fst (tickCalls rnd0 tickAtGate0 newGateCourse)) ! 0)
   \<and> neverRecycled rnd0 0 [tickAtGate0, tickAtGate0] (fst (tickCalls rnd0 tickAtGate0 newGateCourse))
   \<and> clearedCalls rnd0 0 [tickAtGate0, tickAtGate0] (fst (tickCalls rnd0 tickAtGate0 newGateCourse)) = []
   \<and> passed (gates (afterTicks rnd0 [tickAtGate0, tickAtGate0]
        (fst (tickCalls rnd0 tickAtGate0 newGateCourse))) ! 0)"
proof -
  define c1 where "c1 = fst (tickCalls rnd0 tickAtGate0 newGateCourse)"
  define p where "p = Vector3 (Fin 0) verticalCenter (Fin (- 80))"
  have len: "0 < length (gates c1)"
    using GateCourse_calls_nth(4) [where c = newGateCourse and i = 0, OF _ refl refl refl]
    by (simp add: c1_def tickCalls_def tickAtGate0_def gates_new)
  have p: "passed (gates c1 ! 0)" by (simp add: c1_def gate0_after_pass)
  have nr: "\<not> recycledIn tickAtGate0 c 0"
    if "fallbackForward c = Vector3 (Fin 0) (Fin 0) (Fin (- 1))"
      and "position (group (gates c ! 0)) = position (group (buildGate 0))" for c
    using that
    by (simp add: recycledIn_def tickAtGate0_def getForward_def shouldRecycle_def Let_def
        buildGate_position sub3_def dot3_def length3_def behindRecycle_def farRecycle_def)
  have step: "fallbackForward (fst (tickCalls rnd0 tickAtGate0 c)) = Vector3 (Fin 0) (Fin 0) (Fin (- 1))
      \<and> position (group (gates (fst (tickCalls rnd0 tickAtGate0 c)) ! 0)) = position (group (buildGate 0))
      \<and> 0 < length (gates (fst (tickCalls rnd0 tickAtGate0 c)))"
    if f: "fallbackForward c = Vector3 (Fin 0) (Fin 0) (Fin (- 1))"
      and q: "position (group (gates c ! 0)) = position (group (buildGate 0))"
      and l: "0 < length (gates c)" for c
  proof -
    note n = GateCourse_calls_nth [where c = c and i = 0 and quat = None and velXZ = None
        and rnd = rnd0 and pos = p and dt = "num (1 / 60)"
        and speed = "Fin 18", OF l refl refl refl]
    have "\<not> shouldRecycle p (getForward None None c) (gates c ! 0)"
      using nr [OF f q] by (simp add: recycledIn_def tickAtGate0_def p_def)
    from recycleGate_kept [OF this] n(1) n(4) l f q show ?thesis
      by (simp add: tickCalls_def tickAtGate0_def GateCourse_calls_fallbackForward getForward_def
          p_def)
  qed
  have f0: "fallbackForward newGateCourse = Vector3 (Fin 0) (Fin 0) (Fin (- 1))"
    by (simp add: newGateCourse_def)
  have q0: "position (group (gates newGateCourse ! 0)) = position (group (buildGate 0))"
    by (simp add: gates_new)
  have l0: "0 < length (gates newGateCourse)" by (simp add: gates_new)
  note s1 = step [OF f0 q0 l0, folded c1_def]
  note s2 = step [OF s1 [THEN conjunct1] s1 [THEN conjunct2, THEN conjunct1] s1 [THEN conjunct2, THEN conjunct2]]
  have never: "neverRecycled rnd0 0 [tickAtGate0, tickAtGate0] c1"
    using nr [OF s1 [THEN conjunct1] s1 [THEN conjunct2, THEN conjunct1]]
      nr [OF s2 [THEN conjunct1] s2 [THEN conjunct2, THEN conjunct1]]
    by simp
  from no_double_credit [OF len p never] len p never show ?thesis
    unfolding c1_def by blast
qed

subsection \<open>A miss\<close>

lemma breakCombo_onPenalty: "breakCombo True (onPenalty p s) = onPenalty p s"
  by (simp add: onPenalty_def breakCombo_def Let_def)

lemma onGateMissed_calls: "snd (onGateMissed g) = [OnPenalty (Fin 140), BreakCombo True]"
  by (simp add: onGateMissed_def Let_def missPenalty_def missComboBreak_def)

lemma lookAt_basis:
  "(basisX (lookAt target g), basisY (lookAt target g), basisZ (lookAt target g))
     = Matrix4_lookAt target (position g) (Vector3 (Fin 0) (Fin 1) (Fin 0))"
  by (simp add: lookAt_def split: prod.split)

lemma respawnGate_transform:
  assumes "chosen = chooseLane rnd (c\<lparr>draws := draws c + 1\<rparr>)"
    and "d = Fin 70 + Math_random rnd (draws c) * (Fin 220 - Fin 70)"
    and "lateral = Fin (of_int (fst chosen)) * Fin 11
           + (Math_random rnd (draws (snd chosen)) * Fin 2 - Fin 1) * (Fin 11 * num 0.18)"
    and "y = num 2.6 + (Math_random rnd (draws (snd chosen) + 1) * Fin 2 - Fin 1) * Fin 1"
    and "spawn = addScaledVector3 (addScaledVector3 pos fwd d)
           (normalize3 (Vector3 (vz fwd) (Fin 0) (- vx fwd))) lateral"
  shows "lane (fst (respawnGate rnd pos fwd g c)) = fst chosen"
    and "position (group (fst (respawnGate rnd pos fwd g c))) = Vector3 (vx spawn) y (vz spawn)"
    and "(basisX (group (fst (respawnGate rnd pos fwd g c))),
          basisY (group (fst (respawnGate rnd pos fwd g c))),
          basisZ (group (fst (respawnGate rnd pos fwd g c))))
         = Matrix4_lookAt (addScaledVector3 spawn fwd (Fin 10)) (Vector3 (vx spawn) y (vz spawn))
             (Vector3 (Fin 0) (Fin 1) (Fin 0))"
    and "\<not> passed (fst (respawnGate rnd pos fwd g c))"
    and "\<not> wasAhead (fst (respawnGate rnd pos fwd g c))"
proof -
  have eq: "fst (respawnGate rnd pos fwd g c)
      = g\<lparr>lane := fst chosen,
           group := lookAt (addScaledVector3 spawn fwd (Fin 10))
                      ((group g)\<lparr>position := Vector3 (vx spawn) y (vz spawn)\<rparr>),
           passed := False, wasAhead := False\<rparr>"
    unfolding assms
    by (simp add: respawnGate_def Let_def spawnMin_def spawnMax_def lateralLane_def
        verticalCenter_def verticalJitter_def)
  show "lane (fst (respawnGate rnd pos fwd g c)) = fst chosen" by (simp add: eq)
  show "position (group (fst (respawnGate rnd pos fwd g c))) = Vector3 (vx spawn) y (vz spawn)"
    by (simp add: eq)
  show "(basisX (group (fst (respawnGate rnd pos fwd g c))),
          basisY (group (fst (respawnGate rnd pos fwd g c))),
          basisZ (group (fst (respawnGate rnd pos fwd g c))))
         = Matrix4_lookAt (addScaledVector3 spawn fwd (Fin 10)) (Vector3 (vx spawn) y (vz spawn))
             (Vector3 (Fin 0) (Fin 1) (Fin 0))"
    using lookAt_basis [of "addScaledVector3 spawn fwd (Fin 10)"
        "(group g)\<lparr>position := Vector3 (vx spawn) y (vz spawn)\<rparr>"]
    by (simp add: eq)
  show "\<not> passed (fst (respawnGate rnd pos fwd g c))" by (simp add: eq)
  show "\<not> wasAhead (fst (respawnGate rnd pos fwd g c))" by (simp add: eq)
qed

lemma recycleGate_missed:
  assumes "\<not> passed g"
    and "wasAhead g \<or> Fin 0 < dot3 (sub3 (position (group g)) pos) fwd"
    and "shouldRecycle pos fwd g"
  shows "fst (snd (recycleGate rnd pos fwd g c)) = [OnPenalty (Fin 140), BreakCombo True]"
    and "\<exists>g1. fst (recycleGate rnd pos fwd g c) = fst (respawnGate rnd pos fwd g1 c)"
proof -
  define g1 where "g1 = (if Fin 0 < dot3 (sub3 (position (group g)) pos) fwd
      then g\<lparr>wasAhead := True\<rparr> else g)"
  have m: "\<not> passed g1 \<and> wasAhead g1" using assms(1,2) by (auto simp: g1_def)
  have eq: "recycleGate rnd pos fwd g c
      = (fst (respawnGate rnd pos fwd (fst (onGateMissed g1)) c), snd (onGateMissed g1),
         snd (respawnGate rnd pos fwd (fst (onGateMissed g1)) c))"
    unfolding recycleGate_def Let_def g1_def [symmetric] using assms(3) m by simp
  show "fst (snd (recycleGate rnd pos fwd g c)) = [OnPenalty (Fin 140), BreakCombo True]"
    by (simp add: eq onGateMissed_calls)
  show "\<exists>g1. fst (recycleGate rnd pos fwd g c) = fst (respawnGate rnd pos fwd g1 c)"
    unfolding eq by auto
qed

text \<open>
  C3. Take a call of \<^verbatim>\<open>update\<close> and a gate \<open>i\<close> of the pool that has not been passed,
  that was ahead of the agent (the flag is set, or it is set by this very iteration
  because the gate's projection on the forward vector is positive) and that the first
  loop recycles (projection below -18, or distance above 320): a miss event. The
  iteration of the first loop for this gate makes exactly two calls on the score
  system, \<^verbatim>\<open>onPenalty(140)\<close> and then \<^verbatim>\<open>breakCombo(true)\<close>, which leave it as
  \<^verbatim>\<open>onPenalty(140)\<close> alone does. After the call the gate stands respawned: its lane is
  the one \<^verbatim>\<open>chooseLane\<close> has just chosen, one of -1, 0, 1; its position is the spawn
  point \<open>d\<close> ahead of the agent and \<open>lateral\<close> to the right, at height \<open>y\<close>, where
  \<open>d\<close>, \<open>lateral\<close> and \<open>y\<close> are drawn as the source draws them; its axes are those
  \<^verbatim>\<open>lookAt\<close> computes for a target 10 further ahead; and its \<^verbatim>\<open>wasAhead\<close> flag is
  cleared.
\<close>

theorem miss_penalised_once:
  assumes "i < length (gates c)"
    and "fwd = getForward quat velXZ c"
    and "ci = loopState rnd pos fwd (gates c) (c\<lparr>fallbackForward := fwd\<rparr>) i"
    and "\<not> passed (gates c ! i)"
    and "wasAhead (gates c ! i) \<or> Fin 0 < dot3 (sub3 (position (group (gates c ! i))) pos) fwd"
    and "dot3 (sub3 (position (group (gates c ! i))) pos) fwd < - Fin 18
         \<or> Fin 320 < length3 (sub3 (position (group (gates c ! i))) pos)"
    and "chosen = chooseLane rnd (ci\<lparr>draws := draws ci + 1\<rparr>)"
    and "d = Fin 70 + Math_random rnd (draws ci) * (Fin 220 - Fin 70)"
    and "lateral = Fin (of_int (fst chosen)) * Fin 11
           + (Math_random rnd (draws (snd chosen)) * Fin 2 - Fin 1) * (Fin 11 * num 0.18)"
    and "y = num 2.6 + (Math_random rnd (draws (snd chosen) + 1) * Fin 2 - Fin 1) * Fin 1"
    and "spawn = addScaledVector3 (addScaledVector3 pos fwd d)
           (normalize3 (Vector3 (vz fwd) (Fin 0) (- vx fwd))) lateral"
    and "g' = gates (fst (GateCourse_calls rnd dt pos speed quat velXZ c)) ! i"
  shows "fst (snd (GateCourse_calls rnd dt pos speed quat velXZ c)) ! i
           = [OnPenalty (Fin 140), BreakCombo True]
       \<and> runOps (fst (snd (GateCourse_calls rnd dt pos speed quat velXZ c)) ! i) s
           = onPenalty (Fin 140) s
       \<and> lane g' = fst chosen
       \<and> lane g' \<in> {- 1, 0, 1}
       \<and> position (group g') = Vector3 (vx spawn) y (vz spawn)
       \<and> (basisX (group g'), basisY (group g'), basisZ (group g'))
           = Matrix4_lookAt (addScaledVector3 spawn fwd (Fin 10)) (Vector3 (vx spawn) y (vz spawn))
               (Vector3 (Fin 0) (Fin 1) (Fin 0))
       \<and> \<not> wasAhead g'"
proof -
  define r where "r = recycleGate rnd pos fwd (gates c ! i) ci"
  note n = GateCourse_calls_nth [OF assms(1,2,3) r_def, of dt speed]
  have sr: "shouldRecycle pos fwd (gates c ! i)"
    using assms(6) by (simp add: shouldRecycle_def Let_def behindRecycle_def farRecycle_def)
  note m = recycleGate_missed [OF assms(4,5) sr, of rnd ci, folded r_def]
  from m(2) obtain g1 where g1: "fst r = fst (respawnGate rnd pos fwd g1 ci)" by blast
  note t = respawnGate_transform [OF assms(7,8,9,10,11), of g1, folded g1]
  have g': "g' = fst (passGate pos speed (fst r))" using n(1) assms(12) by simp
  have calls: "fst (snd (GateCourse_calls rnd dt pos speed quat velXZ c)) ! i
           = [OnPenalty (Fin 140), BreakCombo True]"
    using n(2) m(1) by simp
  have "lane g' = fst chosen" using t(1) by (simp add: g')
  moreover have "fst chosen \<in> {- 1, 0, 1}"
    unfolding assms(7) by (rule chooseLane_range)
  moreover have "position (group g') = Vector3 (vx spawn) y (vz spawn)"
    using t(2) by (simp add: g')
  moreover have "(basisX (group g'), basisY (group g'), basisZ (group g'))
           = Matrix4_lookAt (addScaledVector3 spawn fwd (Fin 10)) (Vector3 (vx spawn) y (vz spawn))
               (Vector3 (Fin 0) (Fin 1) (Fin 0))"
    using t(3) by (simp add: g')
  moreover have "\<not> wasAhead g'" unfolding g' using t(5) by (rule passGate_wasAhead)
  ultimately show ?thesis
    using calls by (simp add: breakCombo_onPenalty)
qed

text \<open>
  C3 at an instance: the first tick of the initial course, with the agent 330 units
  before gate 21. The gate is seen ahead and found too far in the same iteration.
\<close>

lemma gate21_far:
  "Fin 0 < dot3 (sub3 (position (group (buildGate 21))) (Vector3 (Fin 0) verticalCenter (Fin (- 128))))
             (Vector3 (Fin 0) (Fin 0) (Fin (- 1)))"
  "Fin 320 < length3 (sub3 (position (group (buildGate 21))) (Vector3 (Fin 0) verticalCenter (Fin (- 128))))"
  by (simp_all add: buildGate_position sub3_def dot3_def length3_def sqrt_108900)

theorem miss_penalised_once_witness:
  "21 < length (gates newGateCourse)
   \<and> \<not> passed (gates newGateCourse ! 21)
   \<and> Fin 0 < dot3 (sub3 (position (group (gates newGateCourse ! 21)))
                  (Vector3 (Fin 0) verticalCenter (Fin (- 128))))
             (getForward None None newGateCourse)
   \<and> Fin 320 < length3 (sub3 (position (group (gates newGateCourse ! 21)))
                  (Vector3 (Fin 0) verticalCenter (Fin (- 128))))
   \<and> fst (snd (GateCourse_calls rnd0 (num (1 / 60)) (Vector3 (Fin 0) verticalCenter (Fin (- 128)))
        (Fin 18) None None newGateCourse)) ! 21 = [OnPenalty (Fin 140), BreakCombo True]
   \<and> lane (gates (fst (GateCourse_calls rnd0 (num (1 / 60)) (Vector3 (Fin 0) verticalCenter (Fin (- 128)))
        (Fin 18) None None newGateCourse)) ! 21) \<in> {- 1, 0, 1}"
proof -
  have a: "21 < length (gates newGateCourse)" by (simp add: gates_new)
  have b: "\<not> passed (gates newGateCourse ! 21)" by (simp add: gates_new)
  have c: "Fin 0 < dot3 (sub3 (position (group (gates newGateCourse ! 21)))
                  (Vector3 (Fin 0) verticalCenter (Fin (- 128))))
             (getForward None None newGateCourse)"
    using gate21_far(1) by (simp add: gates_new forward_new)
  have d: "Fin 320 < length3 (sub3 (position (group (gates newGateCourse ! 21)))
                  (Vector3 (Fin 0) verticalCenter (Fin (- 128))))"
    using gate21_far(2) by (simp add: gates_new)
  note t = miss_penalised_once [where rnd = rnd0 and dt = "num (1 / 60)" and speed = "Fin 18"
      and s = newScoreSystem,
      OF a refl refl b disjI2 [OF c] disjI2 [OF d] refl refl refl refl refl refl]
  show ?thesis using a b c d t by blast
qed

subsection \<open>A pass through the centre\<close>

lemma trunc_nonneg: "Fin 0 \<le> x \<Longrightarrow> Fin 0 \<le> Math_trunc x"
  by (cases x) (simp_all add: truncInt_nonneg)

lemma score_add_scaled:
  assumes "combo s = Fin c" and "0 \<le> c" and "scoreClamped s" and "0 \<le> x"
    and "Math_trunc (Fin x) = Fin x"
  shows "score (add (Fin x) r True s) = score s + Math_trunc (Fin x * combo s)"
    and "scoreClamped (add (Fin x) r True s)"
proof -
  have "of_int 0 \<le> x * c" using assms(2,4) by simp
  from rd_ge_int [OF this] have "Fin 0 \<le> Fin x * Fin c" by simp
  then have nn: "Fin 0 \<le> Math_trunc (Fin x * combo s)"
    unfolding assms(1) by (rule trunc_nonneg)
  have "score (add (Fin x) r True s) = Math_max (Fin 0) (score s + Math_trunc (Fin x * combo s))"
    using assms(5) by (simp add: add_def Let_def)
  also have "\<dots> = score s + Math_trunc (Fin x * combo s)"
    using assms(3) by (intro clamped_sum(1) nn) (simp add: scoreClamped_def)
  finally show "score (add (Fin x) r True s) = score s + Math_trunc (Fin x * combo s)" .
  show "scoreClamped (add (Fin x) r True s)" using assms(3) by (rule scoreClamped_add)
qed

lemma onGateCleared_score:
  assumes "combo s = Fin c" and "0 \<le> c" and "scoreClamped s"
  shows "score (onGateCleared (Fin 100) (Fin 80) (Fin 50) s)
       = score s + Math_trunc (Fin 100 * combo s) + Math_trunc (Fin 80 * combo s)
           + Math_trunc (Fin 50 * combo s)"
proof -
  define s1 where "s1 = s\<lparr>gatesPassed := gatesPassed s + 1\<rparr>"
  define s2 where "s2 = add (Fin 100) GATE True s1"
  define s3 where "s3 = add (Fin 80) CENTER_BONUS True s2"
  define s4 where "s4 = add (Fin 50) SPEED_BONUS True s3"
  have c1: "combo s1 = Fin c" "scoreClamped s1" and e1: "score s1 = score s" "combo s1 = combo s"
    using assms by (simp_all add: s1_def)
  have a2: "score s2 = score s1 + Math_trunc (Fin 100 * combo s1)" "scoreClamped s2"
    unfolding s2_def using score_add_scaled [OF c1(1) assms(2) c1(2), of 100 GATE] by simp_all
  have c2: "combo s2 = Fin c" and e2: "combo s2 = combo s"
    using assms(1) by (simp_all add: s2_def s1_def)
  have a3: "score s3 = score s2 + Math_trunc (Fin 80 * combo s2)" "scoreClamped s3"
    unfolding s3_def using score_add_scaled [OF c2 assms(2) a2(2), of 80 CENTER_BONUS] by simp_all
  have c3: "combo s3 = Fin c" and e3: "combo s3 = combo s"
    using assms(1) by (simp_all add: s3_def s2_def s1_def)
  have a4: "score s4 = score s3 + Math_trunc (Fin 50 * combo s3)"
    unfolding s4_def using score_add_scaled [OF c3 assms(2) a3(2), of 50 SPEED_BONUS] by simp_all
  have "score (onGateCleared (Fin 100) (Fin 80) (Fin 50) s) = score s4"
    by (simp add: onGateCleared_def Let_def s4_def s3_def s2_def s1_def)
  also have "\<dots> = score s + Math_trunc (Fin 100 * combo s) + Math_trunc (Fin 80 * combo s)
           + Math_trunc (Fin 50 * combo s)"
    by (simp only: a4 a3(1) a2(1) e1 e2 e3)
  finally show ?thesis .
qed

lemma rd_integer: "x = of_int k \<Longrightarrow> \<bar>x\<bar> < 2 ^ 53 \<Longrightarrow> rd x = Fin x"
  using rd_of_int [of k] by simp

lemma onGateCleared_230:
  assumes "combo s = Fin 1" and "score s = Fin (of_int n)" and "0 \<le> n" and "n \<le> 2 ^ 53 - 231"
  shows "score (onGateCleared (Fin 100) (Fin 80) (Fin 50) s) = Fin (of_int n + 230)"
proof -
  have cl: "scoreClamped s" using assms(2,3) by (simp add: scoreClamped_def)
  have t: "Math_trunc (Fin 100 * Fin 1) = Fin 100" "Math_trunc (Fin 80 * Fin 1) = Fin 80"
    "Math_trunc (Fin 50 * Fin 1) = Fin 50"
    by simp_all
  have e1: "rd (of_int n + 100) = Fin (of_int n + 100)"
    by (rule rd_integer [of _ "n + 100"]) (use assms(3,4) in simp_all)
  have e2: "rd (of_int n + 100 + 80) = Fin (of_int n + 100 + 80)"
    by (rule rd_integer [of _ "n + 180"]) (use assms(3,4) in simp_all)
  have e3: "rd (of_int n + 100 + 80 + 50) = Fin (of_int n + 100 + 80 + 50)"
    by (rule rd_integer [of _ "n + 230"]) (use assms(3,4) in simp_all)
  have "score (onGateCleared (Fin 100) (Fin 80) (Fin 50) s)
      = Fin (of_int n) + Fin 100 + Fin 80 + Fin 50"
    unfolding onGateCleared_score [OF assms(1) _ cl, simplified] assms(1,2) t ..
  also have "\<dots> = Fin (of_int n + 100 + 80 + 50)"
    by (simp only: plus_jsnum.simps e1 e2 e3)
  also have "\<dots> = Fin (of_int n + 230)" by simp
  finally show ?thesis .
qed

text \<open>
  C9. Take a call of \<^verbatim>\<open>update\<close> at speed 18 and a gate \<open>i\<close> that has not been passed
  and that the first loop does not recycle, with the agent at the centre of it: the
  agent's position in the gate's local frame is \<open>(0, 0, lz)\<close> with \<open>lz\<close> within half the
  trigger depth. The second loop then marks the gate passed and calls
  \<^verbatim>\<open>onGateCleared(100, 80, 50)\<close>, once: centring score 80, speed score 50, base 100,
  230 in all. In every state a history of calls has led to, the score system adds each
  of the three, times the combo (the product rounded as the code rounds it, then
  truncated); at combo 1 and a score \<open>n\<close>, the score is \<open>n + 230\<close> after it.
\<close>

theorem center_pass_scores_230:
  assumes "i < length (gates c)"
    and "\<not> passed (gates c ! i)"
    and "\<not> shouldRecycle pos (getForward quat velXZ c) (gates c ! i)"
    and "worldToLocal (group (gates c ! i)) pos = Vector3 (Fin 0) (Fin 0) lz"
    and "\<not> triggerDepth * Fin 0.5 < Math_abs lz"
    and "list_all forwardTime xs"
    and "s = runOps xs newScoreSystem"
  shows "snd (snd (GateCourse_calls rnd dt pos (Fin 18) quat velXZ c)) ! i
           = [OnGateCleared (Fin 100) (Fin 80) (Fin 50)]
       \<and> passed (gates (fst (GateCourse_calls rnd dt pos (Fin 18) quat velXZ c)) ! i)
       \<and> score (runOps (snd (snd (GateCourse_calls rnd dt pos (Fin 18) quat velXZ c)) ! i) s)
           = score s + Math_trunc (Fin 100 * combo s) + Math_trunc (Fin 80 * combo s)
               + Math_trunc (Fin 50 * combo s)
       \<and> (combo s = Fin 1 \<and> score s = Fin (of_int n) \<and> 0 \<le> n \<and> n \<le> 2 ^ 53 - 231
            \<longrightarrow> score (runOps (snd (snd (GateCourse_calls rnd dt pos (Fin 18) quat velXZ c)) ! i) s)
                  = Fin (of_int n + 230))"
proof -
  define r where "r = recycleGate rnd pos (getForward quat velXZ c) (gates c ! i)
      (loopState rnd pos (getForward quat velXZ c) (gates c)
         (c\<lparr>fallbackForward := getForward quat velXZ c\<rparr>) i)"
  note n = GateCourse_calls_nth [OF assms(1) refl refl r_def, of dt "Fin 18"]
  have k: "fst r = (if Fin 0 < dot3 (sub3 (position (group (gates c ! i))) pos) (getForward quat velXZ c)
      then (gates c ! i)\<lparr>wasAhead := True\<rparr> else gates c ! i)"
    using assms(3) by (simp add: r_def recycleGate_def Let_def)
  have np: "\<not> passed (fst r)" using assms(2) by (simp add: k)
  have w: "worldToLocal (group (fst r)) pos = Vector3 (Fin 0) (Fin 0) lz"
    using assms(4) by (simp add: k)
  note p = passGate_center [OF np w assms(5)]
  have calls: "snd (snd (GateCourse_calls rnd dt pos (Fin 18) quat velXZ c)) ! i
           = [OnGateCleared (Fin 100) (Fin 80) (Fin 50)]"
    using n(3) p by simp
  have pd: "passed (gates (fst (GateCourse_calls rnd dt pos (Fin 18) quat velXZ c)) ! i)"
    using n(1) p by simp
  have cl: "scoreClamped s"
    unfolding assms(7) by (intro scoreClamped_runOps scoreClamped_new)
  from comboInRange_runOps [OF comboInRange_new assms(6)]
  obtain cm where cm: "combo s = Fin cm" "1 \<le> cm"
    by (auto simp: comboInRange_iff assms(7))
  have "0 \<le> cm" using cm(2) by simp
  note sc = onGateCleared_score [OF cm(1) this cl]
  have "score (onGateCleared (Fin 100) (Fin 80) (Fin 50) s) = Fin (of_int n + 230)"
    if "combo s = Fin 1" "score s = Fin (of_int n)" "0 \<le> n" "n \<le> 2 ^ 53 - 231"
    using that by (rule onGateCleared_230)
  then show ?thesis using calls pd sc by simp
qed

text \<open>
  C9 at an instance: the initial course, the agent at the centre of gate 0 at speed 18,
  the initial score system (combo 1, score 0): the score is 230 after the pass.
\<close>

theorem center_pass_scores_230_witness:
  "0 < length (gates newGateCourse)
   \<and> \<not> passed (gates newGateCourse ! 0)
   \<and> \<not> shouldRecycle (Vector3 (Fin 0) verticalCenter (Fin (- 80))) (getForward None None newGateCourse)
          (gates newGateCourse ! 0)
   \<and> worldToLocal (group (gates newGateCourse ! 0)) (Vector3 (Fin 0) verticalCenter (Fin (- 80)))
       = Vector3 (Fin 0) (Fin 0) (Fin 0)
   \<and> \<not> triggerDepth * Fin 0.5 < Math_abs (Fin 0)
   \<and> list_all forwardTime []
   \<and> snd (snd (GateCourse_calls rnd0 (num (1 / 60)) (Vector3 (Fin 0) verticalCenter (Fin (- 80)))
        (Fin 18) None None newGateCourse)) ! 0 = [OnGateCleared (Fin 100) (Fin 80) (Fin 50)]
   \<and> score (runOps (snd (snd (GateCourse_calls rnd0 (num (1 / 60))
        (Vector3 (Fin 0) verticalCenter (Fin (- 80))) (Fin 18) None None newGateCourse)) ! 0)
        newScoreSystem) = Fin 230"
proof -
  have a: "0 < length (gates newGateCourse)" by (simp add: gates_new)
  have b: "\<not> passed (gates newGateCourse ! 0)" by (simp add: gates_new)
  have c: "\<not> shouldRecycle (Vector3 (Fin 0) verticalCenter (Fin (- 80))) (getForward None None newGateCourse)
          (gates newGateCourse ! 0)"
    using gate0_kept(2) by (simp add: gates_new forward_new)
  have d: "worldToLocal (group (gates newGateCourse ! 0)) (Vector3 (Fin 0) verticalCenter (Fin (- 80)))
       = Vector3 (Fin 0) (Fin 0) (Fin 0)"
    using gate0_local by (simp add: gates_new)
  have e: "\<not> triggerDepth * Fin 0.5 < Math_abs (Fin 0)" by (rule gate0_depth)
  have f: "list_all forwardTime []" by simp
  have g: "newScoreSystem = runOps [] newScoreSystem" by simp
  note t = center_pass_scores_230 [where rnd = rnd0 and dt = "num (1 / 60)" and n = 0,
      OF a b c d e f g]
  have h: "combo newScoreSystem = Fin 1 \<and> score newScoreSystem = Fin (of_int 0)
      \<and> (0::int) \<le> 0 \<and> (0::int) \<le> 2 ^ 53 - 231"
    by (simp add: newScoreSystem_def)
  have "score (runOps (snd (snd (GateCourse_calls rnd0 (num (1 / 60))
        (Vector3 (Fin 0) verticalCenter (Fin (- 80))) (Fin 18) None None newGateCourse)) ! 0)
        newScoreSystem) = Fin (of_int 0 + 230)"
    using t [THEN conjunct2, THEN conjunct2, THEN conjunct2] h by (rule mp)
  then have "score (runOps (snd (snd (GateCourse_calls rnd0 (num (1 / 60))
        (Vector3 (Fin 0) verticalCenter (Fin (- 80))) (Fin 18) None None newGateCourse)) ! 0)
        newScoreSystem) = Fin 230"
    by simp
  then show ?thesis using a b c d e f t [THEN conjunct1] by blast
qed

subsection \<open>A recycled gate and the pass checks\<close>




lemma NaN_absorbs [simp]:
  "a * NaN = NaN" "a + NaN = NaN" "a - NaN = NaN" "\<not> a < NaN"
  by (cases a; simp)+


lemma worldToLocal_NaN:
  assumes "vx (sub3 pos (position g)) = NaN"
  shows "worldToLocal g pos = Vector3 NaN NaN NaN"
  using assms by (simp add: worldToLocal_def Let_def dot3_def)

lemma passGate_NaN:
  assumes "\<not> passed g" and "vx (sub3 pos (position (group g))) = NaN"
  shows "passGate pos speed g
       = (g\<lparr>passed := True, wasAhead := False, group := flashGate (group g)\<rparr>,
          [OnGateCleared (Fin 100) NaN (Math_floor (Fin 50 * clamp (speed / Fin 18) (Fin 0) (Fin 1)))])"
  using assms(1) worldToLocal_NaN [OF assms(2)]
  by (simp add: passGate_def Let_def clamp_def basePoints_def speedBonusMax_def speedForMax_def)

lemma speed_scores:
  "Math_floor (Fin 50 * clamp (Fin 18 / Fin 18) (Fin 0) (Fin 1)) = Fin 50"
  "Math_floor (Fin 50 * clamp (PInf / Fin 18) (Fin 0) (Fin 1)) = Fin 50"
  "Math_floor (Fin 50 * clamp (Fin 0 / Fin 18) (Fin 0) (Fin 1)) = Fin 0"
  "Math_floor (Fin 50 * clamp (NInf / Fin 18) (Fin 0) (Fin 1)) = Fin 0"
  "Math_floor (Fin 50 * clamp (NaN / Fin 18) (Fin 0) (Fin 1)) = NaN"
  by (simp_all add: clamp_def)

lemma forward_of_infinite_velocity:
  "getForward None (Some (PInf, Fin 0)) c = Vector3 NaN (Fin 0) (Fin 0)"
  by (simp add: getForward_def normalize3_def length3_def orElse_def divideScalar3_def
      multiplyScalar3_def num_small)

lemma forward_of_NaN_quaternion:
  "getForward (Some (Quaternion NaN (Fin 0) (Fin 0) (Fin 1))) None c = Vector3 NaN NaN NaN"
  by (simp add: getForward_def yawOfQuaternion_def quaternionOfYaw_def applyQuaternion_def Let_def
      normalize3_def length3_def orElse_def divideScalar3_def multiplyScalar3_def)



subsection \<open>Non-finite inputs\<close>

lemma rd_between:
  assumes "of_int a \<le> x" and "x \<le> of_int b"
    and "\<bar>of_int a :: real\<bar> < 2 ^ 53" and "\<bar>of_int b :: real\<bar> < 2 ^ 53"
  shows "\<exists>r. rd x = Fin r \<and> of_int a \<le> r \<and> r \<le> of_int b"
  using rd_le_int [OF assms(2,4)] rd_ge_int [OF assms(1,3)] by (cases "rd x") auto

lemma rd_minus_one [simp]: "rd (- 1) = Fin (- 1)"
  using rd_of_int [of "- 1"] by simp

lemma verticalCenter_range: "\<exists>v. verticalCenter = Fin v \<and> 2 \<le> v \<and> v \<le> 3"
  using rd_between [of 2 "2.6" 3] by (simp add: verticalCenter_def num_def)

lemma NaN_position_kept:
  "fst (recycleGate rnd (Vector3 NaN (Fin 0) (Fin 0)) (Vector3 (Fin 0) (Fin 0) (Fin (- 1)))
      (buildGate 0) c) = buildGate 0"
  by (simp add: recycleGate_def shouldRecycle_def Let_def buildGate_position sub3_def dot3_def
      length3_def)

lemma zero_position_kept:
  "fst (recycleGate rnd (Vector3 (Fin 0) (Fin 0) (Fin 0)) (Vector3 (Fin 0) (Fin 0) (Fin (- 1)))
      (buildGate 0) c) = (buildGate 0)\<lparr>wasAhead := True\<rparr>"
proof -
  obtain v where v: "verticalCenter = Fin v" "2 \<le> v" "v \<le> 3"
    using verticalCenter_range by blast
  obtain w where w: "rd v = Fin w" "2 \<le> w" "w \<le> 3"
    using rd_between [of 2 v 3] v by auto
  have "of_int 4 \<le> w * w" using w mult_mono [of 2 w 2 w] by simp
  moreover have "w * w \<le> of_int 9" using w mult_mono [of w 3 w 3] by simp
  ultimately obtain a where a: "rd (w * w) = Fin a" "4 \<le> a" "a \<le> 9"
    using rd_between [of 4 "w * w" 9] by auto
  obtain a' where a': "rd a = Fin a'" "4 \<le> a'" "a' \<le> 9"
    using rd_between [of 4 a 9] a by auto
  obtain b where b: "rd (a' + 6400) = Fin b" "6404 \<le> b" "b \<le> 6409"
    using rd_between [of 6404 "a' + 6400" 6409] a' by auto
  have "sqrt b \<le> 81" using b by (intro real_le_lsqrt) simp_all
  moreover have "0 \<le> sqrt b" using b by simp
  ultimately obtain t where t: "rd (sqrt b) = Fin t" "t \<le> 81"
    using rd_between [of 0 "sqrt b" 81] by auto
  have p: "position (group (buildGate 0)) = Vector3 (Fin 0) (Fin v) (Fin (- 80))"
    using buildGate_position(1) v(1) by simp
  have tg: "sub3 (position (group (buildGate 0))) (Vector3 (Fin 0) (Fin 0) (Fin 0))
      = Vector3 (Fin 0) (Fin w) (Fin (- 80))"
    by (simp add: p sub3_def w(1))
  have ah: "dot3 (Vector3 (Fin 0) (Fin w) (Fin (- 80))) (Vector3 (Fin 0) (Fin 0) (Fin (- 1))) = Fin 80"
    by (simp add: dot3_def)
  have ds: "length3 (Vector3 (Fin 0) (Fin w) (Fin (- 80))) = Fin t"
    using b(2) by (simp add: length3_def a(1) a'(1) b(1) t(1))
  show ?thesis
    using t(2) by (simp add: recycleGate_def shouldRecycle_def Let_def tg ah ds
        behindRecycle_def farRecycle_def)
qed

lemma right_of_forward:
  "normalize3 (Vector3 (vz (Vector3 (Fin 0) (Fin 0) (Fin (- 1)))) (Fin 0)
      (- vx (Vector3 (Fin 0) (Fin 0) (Fin (- 1))))) = Vector3 (Fin (- 1)) (Fin 0) (Fin 0)"
  by (simp add: normalize3_def length3_def orElse_def divideScalar3_def multiplyScalar3_def)

lemma lateral_finite:
  assumes "l \<in> {- 1, 0, 1}"
  shows "\<exists>x. Fin (of_int l) * Fin 11 + (Fin 0 * Fin 2 - Fin 1) * (Fin 11 * num 0.18) = Fin x
           \<and> \<bar>x\<bar> \<le> 22"
proof -
  obtain k where k: "num 0.18 = Fin k" "0 \<le> k" "k \<le> 1"
    using rd_between [of 0 "0.18" 1] by (auto simp: num_def)
  obtain q where q: "rd (11 * k) = Fin q" "0 \<le> q" "q \<le> 11"
    using rd_between [of 0 "11 * k" 11] k by auto
  obtain q' where q': "rd (- q) = Fin q'" "- 11 \<le> q'" "q' \<le> 0"
    using rd_between [of "- 11" "- q" 0] q by auto
  have m: "rd (of_int l * 11) = Fin (of_int l * 11)"
    by (rule rd_integer [of _ "l * 11"]) (use assms in auto)
  have "of_int (- 22) \<le> of_int l * 11 + q'" "of_int l * 11 + q' \<le> of_int 11"
    using assms q' by auto
  then obtain x where x: "rd (of_int l * 11 + q') = Fin x" "- 22 \<le> x" "x \<le> 11"
    using rd_between [of "- 22" "of_int l * 11 + q'" 11] by auto
  have "Fin (of_int l) * Fin 11 + (Fin 0 * Fin 2 - Fin 1) * (Fin 11 * num 0.18) = Fin x"
    unfolding k(1) by (simp add: q(1) q'(1) m x(1))
  then show ?thesis using x by auto
qed

lemma infinite_position_respawned:
  "vx (position (group (fst (recycleGate rnd0 (Vector3 PInf (Fin 0) (Fin 0))
      (Vector3 (Fin 0) (Fin 0) (Fin (- 1))) (buildGate 0) newGateCourse)))) = PInf"
proof -
  define pos where "pos = Vector3 PInf (Fin 0) (Fin 0)"
  define fwd where "fwd = Vector3 (Fin 0) (Fin 0) (Fin (- 1))"
  obtain v where v: "verticalCenter = Fin v" "2 \<le> v" "v \<le> 3"
    using verticalCenter_range by blast
  obtain w where w: "rd v = Fin w" using rd_between [of 2 v 3] v by auto
  have "of_int 0 \<le> w * w" by simp
  from rd_ge_int [OF this] have "Fin 0 \<le> rd (w * w)" by simp
  then have inf: "PInf + rd (w * w) = PInf" by (cases "rd (w * w)") auto
  have p: "position (group (buildGate 0)) = Vector3 (Fin 0) (Fin v) (Fin (- 80))"
    using buildGate_position(1) v(1) by simp
  have sr: "shouldRecycle pos fwd (buildGate 0)"
    by (simp add: shouldRecycle_def Let_def p sub3_def dot3_def length3_def pos_def fwd_def
        w inf farRecycle_def behindRecycle_def)
  then obtain g1 where e: "fst (recycleGate rnd0 pos fwd (buildGate 0) newGateCourse)
      = fst (respawnGate rnd0 pos fwd g1 newGateCourse)"
    by (auto simp: recycleGate_def Let_def)
  define chosen where "chosen = chooseLane rnd0 (newGateCourse\<lparr>draws := draws newGateCourse + 1\<rparr>)"
  have "fst chosen \<in> {- 1, 0, 1}" unfolding chosen_def by (rule chooseLane_range)
  from lateral_finite [OF this] obtain x where
    x: "Fin (of_int (fst chosen)) * Fin 11 + (Fin 0 * Fin 2 - Fin 1) * (Fin 11 * num 0.18) = Fin x"
      "\<bar>x\<bar> \<le> 22"
    by blast
  have "\<bar>- x\<bar> < 2 ^ 53" using x(2) by simp
  then have mx: "rd (- x) = Fin (roundReal (- x))" by (rule rd_small)
  note t = respawnGate_transform(2) [OF chosen_def refl refl refl refl,
      where pos = pos and fwd = fwd and g = g1]
  have "vx (position (group (fst (respawnGate rnd0 pos fwd g1 newGateCourse)))) = PInf"
    unfolding t
    using x(1) mx right_of_forward
    by (simp add: addScaledVector3_def Math_random_def pos_def fwd_def)
  then show ?thesis using e by (simp add: pos_def fwd_def)
qed

text \<open>
  C4 as stated fails: \<^verbatim>\<open>GateCourse.update\<close> checks no input for finiteness. On the
  initial course, a position whose \<open>x\<close> is \<^verbatim>\<open>NaN\<close> makes the pass check of gate 0
  succeed: the gate is marked passed and \<^verbatim>\<open>onGateCleared(100, NaN, 0)\<close> is called. A
  position whose \<open>x\<close> is \<^verbatim>\<open>Infinity\<close> is not read as 0 either: at \<open>(0, 0, 0)\<close> gate 0
  stays where it is, at \<open>x = 0\<close>, while at \<open>(Infinity, 0, 0)\<close> it is recycled and
  respawned at a position whose \<open>x\<close> is \<^verbatim>\<open>Infinity\<close>, stored in the gate. A speed
  of \<^verbatim>\<open>Infinity\<close> is not read as 0: in the centre of gate 0 it earns the speed bonus
  50, where the speed 0 earns none. And an infinite velocity component or a \<^verbatim>\<open>NaN\<close>
  quaternion component leaves \<^verbatim>\<open>NaN\<close> in the stored forward vector.
\<close>

theorem non_finite_position_reaches_state:
  "passed (gates (fst (tickCalls rnd0 tickNaNPosition newGateCourse)) ! 0)
   \<and> snd (snd (tickCalls rnd0 tickNaNPosition newGateCourse)) ! 0
       = [OnGateCleared (Fin 100) NaN (Fin 0)]
   \<and> vx (position (group (gates (fst (tickCalls rnd0 tickZeroPosition newGateCourse)) ! 0))) = Fin 0
   \<and> vx (position (group (gates (fst (tickCalls rnd0 tickInfPosition newGateCourse)) ! 0))) = PInf
   \<and> snd (snd (tickCalls rnd0 tickInfSpeed newGateCourse)) ! 0
       = [OnGateCleared (Fin 100) (Fin 80) (Fin 50)]
   \<and> snd (snd (tickCalls rnd0 tickZeroSpeed newGateCourse)) ! 0
       = [OnGateCleared (Fin 100) (Fin 80) (Fin 0)]
   \<and> fallbackForward (fst (tickCalls rnd0 tickInfVelocity newGateCourse)) = Vector3 NaN (Fin 0) (Fin 0)
   \<and> fallbackForward (fst (tickCalls rnd0 tickNaNQuaternion newGateCourse)) = Vector3 NaN NaN NaN"
proof -
  have np: "\<not> passed (buildGate 0)" by simp
  have nx: "vx (sub3 (Vector3 NaN (Fin 0) (Fin 0)) (position (group (buildGate 0)))) = NaN"
    by (simp add: sub3_def)
  have pn: "passGate (Vector3 NaN (Fin 0) (Fin 0)) (Fin 0) (buildGate 0)
      = ((buildGate 0)\<lparr>passed := True, wasAhead := False, group := flashGate (group (buildGate 0))\<rparr>,
         [OnGateCleared (Fin 100) NaN (Fin 0)])"
    using passGate_NaN [OF np nx, of "Fin 0"] by (simp only: speed_scores)
  have z: "vx (position (group (buildGate 0))) = Fin 0" by (simp add: buildGate_def)
  have sp: "snd (passGate (Vector3 (Fin 0) verticalCenter (Fin (- 80))) speed (buildGate 0))
      = [OnGateCleared (Fin 100) (Fin 80)
           (Math_floor (Fin 50 * clamp (speed / Fin 18) (Fin 0) (Fin 1)))]" for speed
    using gate0_local gate0_depth
    by (simp add: passGate_def Let_def half_extents clamp_def centerBonusMax_def speedBonusMax_def
        speedForMax_def basePoints_def)
  have a: "passed (gates (fst (tickCalls rnd0 tickNaNPosition newGateCourse)) ! 0)"
    "snd (snd (tickCalls rnd0 tickNaNPosition newGateCourse)) ! 0
       = [OnGateCleared (Fin 100) NaN (Fin 0)]"
    using pn by (simp_all add: tickCalls_def tickNaNPosition_def first_gate_of_tick NaN_position_kept)
  have b: "vx (position (group (gates (fst (tickCalls rnd0 tickZeroPosition newGateCourse)) ! 0))) = Fin 0"
    using z by (simp add: tickCalls_def tickZeroPosition_def first_gate_of_tick zero_position_kept)
  have c: "vx (position (group (gates (fst (tickCalls rnd0 tickInfPosition newGateCourse)) ! 0))) = PInf"
    using infinite_position_respawned
    by (simp add: tickCalls_def tickInfPosition_def first_gate_of_tick)
  have d: "snd (snd (tickCalls rnd0 tickInfSpeed newGateCourse)) ! 0
       = [OnGateCleared (Fin 100) (Fin 80) (Fin 50)]"
    "snd (snd (tickCalls rnd0 tickZeroSpeed newGateCourse)) ! 0
       = [OnGateCleared (Fin 100) (Fin 80) (Fin 0)]"
    by (simp_all only: tickCalls_def tickInfSpeed_def tickZeroSpeed_def prod.case
        first_gate_of_tick gate0_kept sp speed_scores)
  have e: "fallbackForward (fst (tickCalls rnd0 tickInfVelocity newGateCourse)) = Vector3 NaN (Fin 0) (Fin 0)"
    by (simp add: tickCalls_def tickInfVelocity_def GateCourse_calls_fallbackForward
        forward_of_infinite_velocity)
  have f: "fallbackForward (fst (tickCalls rnd0 tickNaNQuaternion newGateCourse)) = Vector3 NaN NaN NaN"
    by (simp add: tickCalls_def tickNaNQuaternion_def GateCourse_calls_fallbackForward
        forward_of_NaN_quaternion)
  show ?thesis using a b c d e f by blast
qed

lemma runOps_append: "runOps (xs @ ys) s = runOps ys (runOps xs s)"
  by (induction xs arbitrary: s) simp_all

lemma onGateCleared_no_speed:
  "onGateCleared b cb NaN s = onGateCleared b cb (Fin 0) s"
  by (simp add: onGateCleared_def Let_def)

lemma passGate_no_speed:
  assumes "speed = NaN \<or> speed = NInf"
  shows "fst (passGate pos speed g) = fst (passGate pos (Fin 0) g)"
    and "runOps (snd (passGate pos speed g)) s = runOps (snd (passGate pos (Fin 0) g)) s"
proof -
  show "fst (passGate pos speed g) = fst (passGate pos (Fin 0) g)"
    by (simp add: passGate_def Let_def)
  from assms show "runOps (snd (passGate pos speed g)) s = runOps (snd (passGate pos (Fin 0) g)) s"
  proof
    assume "speed = NaN"
    then show ?thesis
      by (simp add: passGate_def Let_def speedBonusMax_def speedForMax_def clamp_def
          onGateCleared_no_speed)
  next
    assume "speed = NInf"
    then show ?thesis
      by (simp add: passGate_def Let_def speedBonusMax_def speedForMax_def clamp_def)
  qed
qed

lemma passLoop_no_speed:
  assumes "speed = NaN \<or> speed = NInf"
  shows "fst (passLoop pos speed gs) = fst (passLoop pos (Fin 0) gs)"
    and "runOps (concat (snd (passLoop pos speed gs))) s
           = runOps (concat (snd (passLoop pos (Fin 0) gs))) s"
proof -
  show "fst (passLoop pos speed gs) = fst (passLoop pos (Fin 0) gs)"
    using passGate_no_speed(1) [OF assms] by (simp add: passLoop_def)
  show "runOps (concat (snd (passLoop pos speed gs))) s
           = runOps (concat (snd (passLoop pos (Fin 0) gs))) s"
    using passGate_no_speed(2) [OF assms]
    by (induction gs arbitrary: s) (simp_all add: passLoop_def runOps_append)
qed

text \<open>
  C4, as the code has it. The finiteness checks are those of the score system:
  \<^verbatim>\<open>add\<close> ignores a \<^verbatim>\<open>points\<close> that is not finite (the state is unchanged), and
  \<^verbatim>\<open>onCrash\<close> treats a speed that is not finite as 0. \<^verbatim>\<open>GateCourse.update\<close> has no
  check. It never reads \<^verbatim>\<open>dt\<close>; a speed that is \<^verbatim>\<open>NaN\<close> or \<^verbatim>\<open>-Infinity\<close> leaves
  the course and the score system as the speed 0 does (no speed bonus is added), while
  the speed \<^verbatim>\<open>Infinity\<close> earns the full bonus; and a position or a velocity that is
  not finite is used as it is.
\<close>

theorem score_system_guards_non_finite:
  "(\<not> isFinite points \<longrightarrow> add points reason applyCombo s = s)
   \<and> (\<not> isFinite speed \<longrightarrow> onCrash speed s = onCrash (Fin 0) s)
   \<and> GateCourse_update rnd dt pos sp quat velXZ cs = GateCourse_update rnd dt' pos sp quat velXZ cs
   \<and> (sp = NaN \<or> sp = NInf \<longrightarrow>
        GateCourse_update rnd dt pos sp quat velXZ cs = GateCourse_update rnd dt pos (Fin 0) quat velXZ cs)"
proof -
  have "GateCourse_update rnd dt pos sp quat velXZ cs = GateCourse_update rnd dt pos (Fin 0) quat velXZ cs"
    if "sp = NaN \<or> sp = NInf"
    using passLoop_no_speed [OF that]
    by (simp add: GateCourse_update_def GateCourse_calls_def Let_def runOps_append)
  moreover have "GateCourse_update rnd dt pos sp quat velXZ cs
      = GateCourse_update rnd dt' pos sp quat velXZ cs"
    by (simp add: GateCourse_update_def GateCourse_calls_def)
  ultimately show ?thesis by (simp add: add_def onCrash_def)
qed

theorem score_system_guards_non_finite_witness:
  "\<not> isFinite NaN \<and> add NaN GATE True newScoreSystem = newScoreSystem
   \<and> \<not> isFinite PInf \<and> onCrash PInf newScoreSystem = onCrash (Fin 0) newScoreSystem
   \<and> GateCourse_update rnd0 (num (1 / 60)) (Vector3 (Fin 0) verticalCenter (Fin (- 80))) NaN None None
        (newGateCourse, newScoreSystem)
     = GateCourse_update rnd0 (num (1 / 60)) (Vector3 (Fin 0) verticalCenter (Fin (- 80))) (Fin 0) None None
        (newGateCourse, newScoreSystem)"
  using score_system_guards_non_finite [where points = NaN and reason = GATE
      and applyCombo = True and s = newScoreSystem and speed = PInf and sp = NaN and rnd = rnd0
      and dt = "num (1 / 60)" and pos = "Vector3 (Fin 0) verticalCenter (Fin (- 80))"
      and quat = None and velXZ = None and cs = "(newGateCourse, newScoreSystem)"]
  by simp


end
